(* ===== verification/Prelude.thy ===== *)
theory Prelude
  imports Main "HOL-Library.Word"
begin

text \<open>
  Shared vocabulary of the development: names for the fixed-width integers the C++ code uses,
  the shape of fallible results, the pieces of the C++ standard library the sources call
  (\<^verbatim>\<open>std::to_string\<close>, \<^verbatim>\<open>string_view::find\<close>, C strings, writes into fixed-size arrays), and the
  rewrite collections the component theories extend.
\<close>

unbundle bit_operations_syntax

section \<open>Fixed-width integers\<close>

type_synonym byte = "8 word"
type_synonym u16 = "16 word"
type_synonym u32 = "32 word"
type_synonym u64 = "64 word"

named_theorems wf_intros \<open>introduction rules for the well-formedness invariants of the model\<close>
named_theorems port_simps \<open>unfolding rules for the operations behind an interface\<close>

section \<open>Abrupt ends of a C++ call\<close>

text \<open>
  \<^verbatim>\<open>include/tpmkit/exception.h\<close>: the exceptions the modelled code throws. \<open>out_of_bounds\<close> is not
  a C++ exception: it marks a write past the end of a fixed-size array, which C++ leaves
  undefined, so that the absence of such writes is a theorem and not an assumption. In the same
  way \<open>bad_dereference\<close> marks the use of a null pointer, or of the error of a \<^verbatim>\<open>tl::expected\<close>
  that holds a value.
\<close>

datatype fault =
    tpmkit_error string
  | input_validation_error string
  | length_error string
  | out_of_bounds
  | bad_dereference

text \<open>\<^verbatim>\<open>input_validation_error\<close> derives from \<^verbatim>\<open>tpmkit_error\<close>; a handler for the base catches both.\<close>

fun is_tpmkit_error :: "fault \<Rightarrow> bool" where
  "is_tpmkit_error (tpmkit_error m) = True"
| "is_tpmkit_error (input_validation_error m) = True"
| "is_tpmkit_error _ = False"

text \<open>
  The C string constructor of \<^verbatim>\<open>tpmkit_error\<close>: a null message is itself reported by a
  \<^verbatim>\<open>tpmkit_error\<close>. \<open>None\<close> is the null pointer.
\<close>

definition make_tpmkit_error :: "string option \<Rightarrow> fault" where
  "make_tpmkit_error msg =
     (case msg of
        None \<Rightarrow> tpmkit_error ''tpmkit_error message must not be null''
      | Some m \<Rightarrow> tpmkit_error m)"

section \<open>Sequencing of fallible results\<close>

text \<open>
  A fallible value is a sum with the failure on the left. \<open>bind_ok\<close> is the early return
  \<^verbatim>\<open>if (!x.has_value()) return tl::unexpected(x.error());\<close> and the propagation of an exception;
  \<open>bind_try\<close> sequences results that can both throw and report an expected failure.
\<close>

fun bind_ok :: "'e + 'a \<Rightarrow> ('a \<Rightarrow> 'e + 'b) \<Rightarrow> 'e + 'b" where
  "bind_ok (Inl e) f = Inl e"
| "bind_ok (Inr x) f = f x"

fun bind_try :: "'f + ('e + 'a) \<Rightarrow> ('a \<Rightarrow> 'f + ('e + 'b)) \<Rightarrow> 'f + ('e + 'b)" where
  "bind_try (Inl x) f = Inl x"
| "bind_try (Inr (Inl e)) f = Inr (Inl e)"
| "bind_try (Inr (Inr a)) f = f a"

text \<open>A call that returns a value, returns an expected failure, or passes an exception on.\<close>

abbreviation returns :: "'a \<Rightarrow> 'f + ('e + 'a)" where
  "returns x \<equiv> Inr (Inr x)"

abbreviation fails :: "'e \<Rightarrow> 'f + ('e + 'a)" where
  "fails e \<equiv> Inr (Inl e)"

fun or_throw :: "'f + 'a \<Rightarrow> 'f + ('e + 'a)" where
  "or_throw (Inl x) = Inl x"
| "or_throw (Inr a) = returns a"

lemma or_throw_value_iff [simp]: "or_throw m = returns x \<longleftrightarrow> m = Inr x"
  by (cases m) auto

lemma or_throw_fault_iff [simp]: "or_throw m = Inl x \<longleftrightarrow> m = Inl x"
  by (cases m) auto

lemma or_throw_never_fails [simp]: "or_throw m \<noteq> fails e"
  by (cases m) auto

lemma try_cases:
  obtains (abrupt) f where "r = Inl f" | (failed) e where "r = fails e" | (returned) x where "r = returns x"
  by (cases r; cases "projr r") auto

lemma bind_ok_Inr_iff: "bind_ok m f = Inr y \<longleftrightarrow> (\<exists>x. m = Inr x \<and> f x = Inr y)"
  by (cases m) auto

lemma bind_ok_Inl_iff:
  "bind_ok m f = Inl e \<longleftrightarrow> m = Inl e \<or> (\<exists>x. m = Inr x \<and> f x = Inl e)"
  by (cases m) auto

lemma bind_try_value_iff:
  "bind_try m f = Inr (Inr y) \<longleftrightarrow> (\<exists>x. m = Inr (Inr x) \<and> f x = Inr (Inr y))"
  by (cases "(m, f)" rule: bind_try.cases) auto

lemma bind_try_fault_iff:
  "bind_try m f = Inl x \<longleftrightarrow> m = Inl x \<or> (\<exists>a. m = Inr (Inr a) \<and> f a = Inl x)"
  by (cases "(m, f)" rule: bind_try.cases) auto

section \<open>Writes into fixed-size arrays\<close>

definition array_write :: "nat \<Rightarrow> 'a \<Rightarrow> 'a list \<Rightarrow> fault + 'a list" where
  "array_write i x xs = (if i < length xs then Inr (xs[i := x]) else Inl out_of_bounds)"

text \<open>\<^verbatim>\<open>std::copy\<close> or \<^verbatim>\<open>std::memcpy\<close> of a whole byte range to the start of an array.\<close>

definition copy_to_front :: "'a list \<Rightarrow> 'a list \<Rightarrow> fault + 'a list" where
  "copy_to_front src dst =
     (if length src \<le> length dst then Inr (src @ drop (length src) dst) else Inl out_of_bounds)"

definition array_read :: "nat \<Rightarrow> 'a list \<Rightarrow> fault + 'a" where
  "array_read i xs = (if i < length xs then Inr (xs ! i) else Inl out_of_bounds)"

definition read_front :: "nat \<Rightarrow> 'a list \<Rightarrow> fault + 'a list" where
  "read_front n xs = (if n \<le> length xs then Inr (take n xs) else Inl out_of_bounds)"

lemma array_read_ok [simp]: "i < length xs \<Longrightarrow> array_read i xs = Inr (xs ! i)"
  by (simp add: array_read_def)

lemma read_front_ok [simp]: "n \<le> length xs \<Longrightarrow> read_front n xs = Inr (take n xs)"
  by (simp add: read_front_def)

lemma copy_to_front_ok [simp]:
  "length src \<le> length dst \<Longrightarrow> copy_to_front src dst = Inr (src @ drop (length src) dst)"
  by (simp add: copy_to_front_def)

lemma copy_to_front_length: "copy_to_front src dst = Inr out \<Longrightarrow> length out = length dst"
  by (auto simp: copy_to_front_def split: if_splits)

lemma array_write_ok [simp]: "i < length xs \<Longrightarrow> array_write i x xs = Inr (xs[i := x])"
  by (simp add: array_write_def)

lemma array_write_length: "array_write i x xs = Inr ys \<Longrightarrow> length ys = length xs"
  by (auto simp: array_write_def split: if_splits)

section \<open>Text\<close>

text \<open>\<^verbatim>\<open>std::to_string\<close> on an unsigned value: decimal digits, most significant first.\<close>

definition decimal_digit :: "nat \<Rightarrow> char" where
  "decimal_digit d = char_of (48 + d)"

fun decimal_string :: "nat \<Rightarrow> string" where
  "decimal_string n =
     (if n < 10 then [decimal_digit n]
      else decimal_string (n div 10) @ [decimal_digit (n mod 10)])"

declare decimal_string.simps [simp del]

fun decimal_value :: "string \<Rightarrow> nat" where
  "decimal_value cs = foldl (\<lambda>acc c. 10 * acc + (of_char c - 48)) 0 cs"

lemma of_char_decimal_digit: "d < 10 \<Longrightarrow> (of_char (decimal_digit d) :: nat) = 48 + d"
  by (simp add: decimal_digit_def)

lemma decimal_value_snoc:
  "decimal_value (cs @ [c]) = 10 * decimal_value cs + (of_char c - 48)"
  by simp

lemma decimal_value_string: "decimal_value (decimal_string n) = n"
proof (induction n rule: decimal_string.induct)
  case (1 n)
  show ?case
  proof (cases "n < 10")
    case True
    then show ?thesis by (simp add: decimal_string.simps [of n] of_char_decimal_digit)
  next
    case False
    then have "decimal_value (decimal_string n) = 10 * (n div 10) + n mod 10"
      using 1 by (simp only: decimal_string.simps [of n] if_False decimal_value_snoc)
        (simp add: of_char_decimal_digit)
    then show ?thesis by simp
  qed
qed

lemma decimal_string_inject: "decimal_string m = decimal_string n \<longleftrightarrow> m = n"
  by (metis decimal_value_string)

lemma decimal_string_nonempty [simp]: "decimal_string n \<noteq> []"
  by (subst decimal_string.simps) simp

text \<open>The digit table \<^verbatim>\<open>"0123456789abcdef"\<close> the sources index to print hexadecimal.\<close>

definition hex_digits :: string where
  "hex_digits = ''0123456789abcdef''"

lemma hex_digits_length [simp]: "length hex_digits = 16"
  by (simp add: hex_digits_def)

lemma hex_digits_nth:
  assumes "k < 16"
  shows "hex_digits ! k = char_of (if k < 10 then 48 + k else 87 + k)"
proof -
  have "list_all (\<lambda>k. hex_digits ! k = char_of (if k < 10 then 48 + k else 87 + k)) [0..<16]"
    by code_simp
  with assms show ?thesis by (simp add: list_all_iff)
qed

text \<open>The two hexadecimal digits of a byte, as the sources compute them with shifts and masks.\<close>

lemma unat_byte_less [simp]: "unat (b :: byte) < 256"
  using unsigned_less [of b, where 'a = nat] by simp

lemma byte_div_16 [simp]: "unat (b :: byte) div 16 < 16"
  using unat_byte_less [of b] by (simp del: unat_byte_less)

lemma unat_widen_byte [simp]: "unat (ucast (b :: byte) :: u32) = unat b"
  by (simp add: unsigned_ucast_eq take_bit_nat_eq_self_iff less_trans [OF unat_byte_less])

lemma unat_u32_less [simp]: "unat (w :: u32) < 4294967296"
  using unsigned_less [of w, where 'a = nat] by simp

lemma narrow_widen_byte [simp]: "(ucast (ucast (b :: byte) :: u32) :: byte) = b"
  by (rule word_unat_eq_iff [THEN iffD2])
     (simp add: unsigned_ucast_eq take_bit_word_eq_self take_bit_nat_eq_self_iff)

lemma unat_add_1: "(i :: u32) < n \<Longrightarrow> unat (i + 1) = unat i + 1"
proof -
  assume "i < n"
  then have "unat i < unat n" by (simp add: word_less_nat_alt)
  with unat_u32_less [of n] have "unat i + 1 < 4294967296" by linarith
  then show ?thesis by (simp add: unat_word_ariths)
qed

lemma unat_low_bits: "unat (w AND 0x0f) = unat (w :: u32) mod 16"
proof -
  have "w AND 0x0f = take_bit 4 w"
    by (simp add: take_bit_eq_mask mask_eq_exp_minus_1)
  then have "unat (w AND 0x0f) = take_bit 4 (unat w)"
    by (simp only: unsigned_take_bit_eq)
  then show ?thesis by (simp add: take_bit_eq_mod)
qed

lemma unat_high_nibble: "unat (drop_bit 4 (ucast (b :: byte) :: u32) AND 0x0f) = unat b div 16"
proof -
  have "unat (drop_bit 4 (ucast b :: u32)) = unat b div 16"
    by (simp only: unat_drop_bit_eq unat_widen_byte) (simp add: drop_bit_eq_div)
  then show ?thesis by (simp only: unat_low_bits) simp
qed

lemma unat_low_nibble: "unat ((ucast (b :: byte) :: u32) AND 0x0f) = unat b mod 16"
  by (simp add: unat_low_bits)

text \<open>\<^verbatim>\<open>std::string_view::find(char)\<close>; \<open>None\<close> is \<^verbatim>\<open>npos\<close>.\<close>

fun find_char :: "char \<Rightarrow> string \<Rightarrow> nat option" where
  "find_char c [] = None"
| "find_char c (x # xs) = (if x = c then Some 0 else map_option Suc (find_char c xs))"

lemma find_char_None_iff: "find_char c s = None \<longleftrightarrow> c \<notin> set s"
  by (induction s) auto

lemma find_char_Some_split:
  "find_char c s = Some n \<Longrightarrow> n < length s \<and> s ! n = c \<and> c \<notin> set (take n s)"
proof (induction s arbitrary: n)
  case (Cons x xs)
  then show ?case by (cases n) (auto split: if_splits)
qed simp

text \<open>A C string is read up to its first NUL.\<close>

definition c_str :: "string \<Rightarrow> string" where
  "c_str s = takeWhile (\<lambda>c. c \<noteq> CHR 0x00) s"

lemma c_str_id [simp]: "CHR 0x00 \<notin> set s \<Longrightarrow> c_str s = s"
  by (auto simp: c_str_def takeWhile_eq_all_conv)

lemma c_str_no_nul: "CHR 0x00 \<notin> set (c_str s)"
  unfolding c_str_def by (auto dest: set_takeWhileD)

end
