(* ===== verification/Result.thy ===== *)
theory Result
  imports Prelude
begin

text \<open>
  \<^verbatim>\<open>include/tpmkit/result.h\<close> and \<^verbatim>\<open>src/domain/result.cpp\<close>: the closed set of error categories, the
  error value and the \<^verbatim>\<open>outcome<T>\<close> alias every public fallible operation returns.
\<close>

text \<open>
  A C++ scoped enum can hold a value that is none of its enumerators; the sources handle that
  case in every \<^verbatim>\<open>switch\<close>, so the model keeps it as \<open>unlisted_category\<close>.
\<close>

datatype error_category =
    input_error
  | security_failure
  | resource_error
  | backend_error
  | unlisted_category int

definition listed_category :: "error_category \<Rightarrow> bool" where
  "listed_category c \<longleftrightarrow>
     c = input_error \<or> c = security_failure \<or> c = resource_error \<or> c = backend_error"

lemma listed_category_simps [simp]:
  "listed_category input_error" "listed_category security_failure"
  "listed_category resource_error" "listed_category backend_error"
  "\<not> listed_category (unlisted_category n)"
  by (auto simp: listed_category_def)

fun error_category_name :: "error_category \<Rightarrow> string" where
  "error_category_name input_error = ''input_error''"
| "error_category_name security_failure = ''security_failure''"
| "error_category_name resource_error = ''resource_error''"
| "error_category_name backend_error = ''backend_error''"
| "error_category_name (unlisted_category n) = ''unknown''"

record error =
  category :: error_category
  message :: string

abbreviation err :: "error_category \<Rightarrow> string \<Rightarrow> error" where
  "err c m \<equiv> \<lparr>category = c, message = m\<rparr>"

type_synonym 'a outcome = "error + 'a"

text \<open>A result that may also end abruptly: \<open>Inl\<close> a fault, \<open>Inr\<close> the outcome returned.\<close>

type_synonym 'a call = "fault + 'a outcome"

text \<open>Names identify the listed categories, and no listed category is called unknown.\<close>

lemma error_category_name_inject:
  "listed_category c \<Longrightarrow> error_category_name c = error_category_name d \<longleftrightarrow> c = d"
  by (cases c; cases d) auto

end
