(* ===== verification/Hex.thy ===== *)
theory Hex
  imports Result
begin

text \<open>
  \<^verbatim>\<open>include/tpmkit/encoding/hex.h\<close>, \<^verbatim>\<open>src/domain/encoding/hex.cpp\<close>: hexadecimal encoding and
  decoding. The limits of the C++ implementation (\<^verbatim>\<open>SIZE_MAX\<close>, \<^verbatim>\<open>string::max_size\<close>,
  \<^verbatim>\<open>vector::max_size\<close>) are implementation-defined and are the argument \<open>L\<close>.
\<close>

record std_limits =
  size_max :: nat
  string_max_size :: nat
  vector_max_size :: nat

definition hex_digits_per_byte :: nat where
  "hex_digits_per_byte = 2"

definition decode_hex_digit :: "char \<Rightarrow> byte option" where
  "decode_hex_digit ch =
     (let c = (of_char ch :: nat) in
      if 48 \<le> c \<and> c \<le> 57 then Some (of_nat (c - 48))
      else if 97 \<le> c \<and> c \<le> 102 then Some (of_nat (10 + (c - 97)))
      else if 65 \<le> c \<and> c \<le> 70 then Some (of_nat (10 + (c - 65)))
      else None)"

definition encode_byte :: "byte \<Rightarrow> string" where
  "encode_byte b =
     (let value = (ucast b :: u32);
          high = unat (drop_bit 4 value AND 0x0f);
          low = unat (value AND 0x0f)
      in [hex_digits ! high, hex_digits ! low])"

definition encode_hex :: "std_limits \<Rightarrow> byte list \<Rightarrow> fault + string" where
  "encode_hex L bytes =
     (if length bytes > size_max L div hex_digits_per_byte
      then Inl (length_error ''hex output size overflow'')
      else if length bytes * hex_digits_per_byte > string_max_size L
      then Inl (length_error ''hex output size overflow'')
      else Inr (foldl (\<lambda>input byte. input @ encode_byte byte) [] bytes))"

text \<open>The decoding loop, indexed as in the source: two characters per iteration.\<close>

function decode_from :: "string \<Rightarrow> nat \<Rightarrow> byte list \<Rightarrow> byte list outcome" where
  "decode_from input index bytes =
     (if index < length input
      then (case (decode_hex_digit (input ! index), decode_hex_digit (input ! (index + 1))) of
              (Some high, Some low) \<Rightarrow>
                decode_from input (index + hex_digits_per_byte)
                  (bytes @ [ucast (push_bit 4 (ucast high :: u32) OR (ucast low :: u32))])
            | _ \<Rightarrow> Inl (err input_error ''hex input contains a non-hex character''))
      else Inr bytes)"
  by pat_completeness auto
termination
  by (relation "measure (\<lambda>(input, index, bytes). length input - index)")
     (auto simp: hex_digits_per_byte_def)

declare decode_from.simps [simp del]

definition decode_hex :: "std_limits \<Rightarrow> string \<Rightarrow> byte list outcome" where
  "decode_hex L input =
     (if length input mod hex_digits_per_byte \<noteq> 0
      then Inl (err input_error ''hex input must contain an even number of digits'')
      else if length input div hex_digits_per_byte > vector_max_size L
      then Inl (err input_error ''hex input is too large'')
      else decode_from input 0 [])"

section \<open>A reference decoder on pairs of characters\<close>

definition is_hex_char :: "char \<Rightarrow> bool" where
  "is_hex_char ch \<longleftrightarrow>
     (let c = (of_char ch :: nat)
      in (48 \<le> c \<and> c \<le> 57) \<or> (65 \<le> c \<and> c \<le> 70) \<or> (97 \<le> c \<and> c \<le> 102))"

definition lower_hex :: "char \<Rightarrow> char" where
  "lower_hex ch =
     (let c = (of_char ch :: nat) in if 65 \<le> c \<and> c \<le> 70 then char_of (c + 32) else ch)"

fun decode_pairs :: "string \<Rightarrow> byte list option" where
  "decode_pairs [] = Some []"
| "decode_pairs [c] = None"
| "decode_pairs (h # l # rest) =
     (case (decode_hex_digit h, decode_hex_digit l) of
        (Some high, Some low) \<Rightarrow> map_option ((#) (high * 16 + low)) (decode_pairs rest)
      | _ \<Rightarrow> None)"

lemma decode_hex_digit_iff: "decode_hex_digit c \<noteq> None \<longleftrightarrow> is_hex_char c"
  by (auto simp: decode_hex_digit_def is_hex_char_def Let_def)

lemma decode_hex_digit_lower:
  assumes "decode_hex_digit c = Some v"
  shows "unat v < 16" and "hex_digits ! unat v = lower_hex c"
proof -
  let ?c = "of_char c :: nat"
  have v: "48 \<le> ?c \<and> ?c \<le> 57 \<and> unat v = ?c - 48 \<or>
           97 \<le> ?c \<and> ?c \<le> 102 \<and> unat v = ?c - 87 \<or>
           65 \<le> ?c \<and> ?c \<le> 70 \<and> unat v = ?c - 55"
    using assms
    by (auto simp: decode_hex_digit_def Let_def unat_of_nat simp del: of_nat_diff of_nat_add
        split: if_splits)
  then show "unat v < 16" by auto
  from v show "hex_digits ! unat v = lower_hex c"
    by (auto simp: hex_digits_nth lower_hex_def Let_def)
qed

lemma hex_digits_decode:
  assumes "k < 16"
  shows "decode_hex_digit (hex_digits ! k) = Some (of_nat k)"
  using assms by (auto simp: hex_digits_nth decode_hex_digit_def Let_def)

lemma encode_byte_eq: "encode_byte b = [hex_digits ! (unat b div 16), hex_digits ! (unat b mod 16)]"
  by (simp add: encode_byte_def Let_def unat_high_nibble unat_low_nibble)

lemma decode_encode_byte: "decode_pairs (encode_byte b @ rest) = map_option ((#) b) (decode_pairs rest)"
proof -
  have "of_nat (unat b div 16 * 16 + unat b mod 16) = b"
    by (simp only: div_mult_mod_eq) simp
  then have "of_nat (unat b div 16) * 16 + of_nat (unat b mod 16) = b"
    by (simp only: of_nat_add of_nat_mult of_nat_numeral)
  then show ?thesis by (simp add: encode_byte_eq hex_digits_decode)
qed

lemma nibble_pack:
  fixes h l :: byte
  assumes "unat h < 16" and "unat l < 16"
  shows "ucast (push_bit 4 (ucast h :: u32) OR (ucast l :: u32)) = h * 16 + l"
proof -
  let ?P = "\<lambda>h l :: byte. ucast (push_bit 4 (ucast h :: u32) OR (ucast l :: u32)) = h * 16 + l"
  have all: "list_all (\<lambda>h. list_all (?P h) (map of_nat [0..<16])) (map of_nat [0..<16])"
    by code_simp
  have mem: "b \<in> set (map of_nat [0..<16])" if "unat b < 16" for b :: byte
    using that unfolding set_map set_upt image_iff
    by (intro bexI [of _ "unat b"]) simp_all
  show ?thesis
    using all mem [OF assms(1)] mem [OF assms(2)] unfolding list_all_iff by blast
qed

lemma unat_nibbles:
  fixes h l :: byte
  assumes "unat h < 16" and "unat l < 16"
  shows "unat (h * 16 + l) = unat h * 16 + unat l"
  using assms by (simp add: unat_word_ariths)

lemma encode_nibbles:
  "unat h < 16 \<Longrightarrow> unat l < 16 \<Longrightarrow> encode_byte (h * 16 + l) = [hex_digits ! unat h, hex_digits ! unat l]"
  by (simp add: encode_byte_eq unat_nibbles)

section \<open>The encoder and the decoding loop meet the reference decoder\<close>

lemma encode_fold: "foldl (\<lambda>input byte. input @ encode_byte byte) acc bs = acc @ concat (map encode_byte bs)"
  by (induction bs arbitrary: acc) simp_all

lemma encode_byte_length [simp]: "length (encode_byte b) = 2"
  by (simp add: encode_byte_def Let_def)

lemma length_encoded: "length (concat (map encode_byte bs)) = 2 * length bs"
  by (induction bs) simp_all

lemma decode_pairs_encoded: "decode_pairs (concat (map encode_byte bs)) = Some bs"
  by (induction bs) (simp_all add: decode_encode_byte)

lemma encoded_decode_pairs:
  "decode_pairs input = Some bs \<Longrightarrow> concat (map encode_byte bs) = map lower_hex input"
proof (induction input arbitrary: bs rule: decode_pairs.induct)
  case (3 h l rest)
  then obtain high low tail where d: "decode_hex_digit h = Some high" "decode_hex_digit l = Some low"
    and t: "decode_pairs rest = Some tail" and bs: "bs = (high * 16 + low) # tail"
    by (auto split: option.splits)
  have "encode_byte (high * 16 + low) = [lower_hex h, lower_hex l]"
    by (simp only: encode_nibbles decode_hex_digit_lower [OF d(1)] decode_hex_digit_lower [OF d(2)])
  with 3(1) d t bs show ?case by simp
qed simp_all

lemma decode_pairs_defined_iff:
  "even (length input) \<Longrightarrow> decode_pairs input \<noteq> None \<longleftrightarrow> list_all is_hex_char input"
proof (induction input rule: decode_pairs.induct)
  case (3 h l rest)
  then show ?case
    using decode_hex_digit_iff [of h] decode_hex_digit_iff [of l]
    by (cases "decode_hex_digit h"; cases "decode_hex_digit l"; cases "decode_pairs rest") auto
qed simp_all

lemma decode_from_pairs:
  "even (length input) \<Longrightarrow> even index \<Longrightarrow>
   decode_from input index bytes =
     (case decode_pairs (drop index input) of
        None \<Rightarrow> Inl (err input_error ''hex input contains a non-hex character'')
      | Some rest \<Rightarrow> Inr (bytes @ rest))"
proof (induction input index bytes rule: decode_from.induct)
  case (1 input index bytes)
  show ?case
  proof (cases "index < length input")
    case False
    then show ?thesis by (simp add: decode_from.simps [of input index])
  next
    case True
    with "1.prems" have next_in: "index + 1 < length input"
      by (metis Suc_eq_plus1 Suc_lessI even_Suc)
    then have split: "drop index input = input ! index # input ! (index + 1) # drop (index + 2) input"
      by (simp add: Cons_nth_drop_Suc True)
    show ?thesis
    proof (cases "decode_hex_digit (input ! index)")
      case None
      with True split show ?thesis by (simp add: decode_from.simps [of input index])
    next
      case high: (Some high)
      show ?thesis
      proof (cases "decode_hex_digit (input ! (index + 1))")
        case None
        with True split high show ?thesis by (simp add: decode_from.simps [of input index])
      next
        case low: (Some low)
        have "unat high < 16" "unat low < 16"
          by (rule decode_hex_digit_lower [OF high], rule decode_hex_digit_lower [OF low])
        with 1 True high low split show ?thesis
          by (simp add: decode_from.simps [of input index bytes] hex_digits_per_byte_def nibble_pack
              split: option.splits)
      qed
    qed
  qed
qed

lemma encode_hex_cases:
  "encode_hex L bytes =
     (if length bytes \<le> size_max L div 2 \<and> 2 * length bytes \<le> string_max_size L
      then Inr (concat (map encode_byte bytes)) else Inl (length_error ''hex output size overflow''))"
  by (auto simp: encode_hex_def hex_digits_per_byte_def encode_fold mult.commute)

lemma decode_hex_cases:
  "decode_hex L input =
     (if odd (length input)
      then Inl (err input_error ''hex input must contain an even number of digits'')
      else if length input div 2 > vector_max_size L
      then Inl (err input_error ''hex input is too large'')
      else case decode_pairs input of
             None \<Rightarrow> Inl (err input_error ''hex input contains a non-hex character'')
           | Some bytes \<Rightarrow> Inr bytes)"
  by (auto simp: decode_hex_def hex_digits_per_byte_def decode_from_pairs mod2_eq_if split: option.splits)

section \<open>Properties\<close>

text \<open>
  C22: Whatever fits the implementation's limits is encoded, to two characters a byte, and decoding
  the text returns exactly the bytes.
\<close>
theorem hex_round_trip:
  assumes "2 * length bs \<le> size_max L" and "2 * length bs \<le> string_max_size L"
    and "length bs \<le> vector_max_size L"
  shows "\<exists>s. encode_hex L bs = Inr s \<and> length s = 2 * length bs \<and> decode_hex L s = Inr bs"
proof -
  have "length bs \<le> size_max L div 2" using assms(1) by linarith
  with assms show ?thesis
    by (simp add: encode_hex_cases decode_hex_cases length_encoded decode_pairs_encoded)
qed

definition small_limits :: std_limits where
  "small_limits = \<lparr>size_max = 64, string_max_size = 40, vector_max_size = 32\<rparr>"

lemma hex_round_trip_witness:
  "\<exists>s. encode_hex small_limits [0xde, 0xad, 0x0f] = Inr s \<and> length s = 2 * length [0xde, 0xad, 0x0f :: byte] \<and>
       decode_hex small_limits s = Inr [0xde, 0xad, 0x0f]"
  by (rule hex_round_trip) (simp_all add: small_limits_def)

text \<open>
  C23: The decoder accepts exactly the texts of even length, within the vector limit, whose
  characters are all hexadecimal digits of either case; the bytes it returns encode back to the
  lower-case form of the input; every other text is reported as an input error.
\<close>
theorem decode_hex_exact:
  "(decode_hex L input = Inr bs) =
     (even (length input) \<and> list_all is_hex_char input \<and> length input div 2 \<le> vector_max_size L \<and>
      concat (map encode_byte bs) = map lower_hex input) \<and>
   (\<exists>e. decode_hex L input = Inl e \<and> category e = input_error) =
     (\<not> (even (length input) \<and> list_all is_hex_char input \<and> length input div 2 \<le> vector_max_size L))"
proof (cases "decode_pairs input")
  case None
  then show ?thesis
    using decode_pairs_defined_iff [of input] by (auto simp: decode_hex_cases)
next
  case (Some bs')
  have "bs' = bs" if "concat (map encode_byte bs) = map lower_hex input"
    using encoded_decode_pairs [OF Some] that decode_pairs_encoded [of bs] decode_pairs_encoded [of bs']
    by simp
  with Some show ?thesis
    using decode_pairs_defined_iff [of input] encoded_decode_pairs [OF Some]
    by (auto simp: decode_hex_cases)
qed

end
