(* ===== verification/Tss_Types.thy ===== *)
theory Tss_Types
  imports Prelude
begin

text \<open>
  The TPM2 TSS headers (\<^verbatim>\<open>tss2_common.h\<close>, \<^verbatim>\<open>tss2_tpm2_types.h\<close>, \<^verbatim>\<open>tss2_esys.h\<close>) are a third-party
  package and not part of the repository. Their constants and array sizes are the fields of the
  record \<open>tss\<close>, an argument of every definition that uses them; what the code relies on is
  stated as predicates on that record, and \<open>tss_4_1\<close> is an instance with the values of the TCG
  specifications, used by the witnesses. The structures keep the members the sources read and
  write; a C array is a list whose length is the array's static size.
\<close>

section \<open>Names of the constants the sources use\<close>

datatype tss_layer = TPM_layer | ESAPI_layer | SYS_layer | MU_layer | TCTI_layer

datatype tpm_rc =
    AUTH_FAIL | BAD_AUTH | HASH | HANDLE | LOCALITY | LOCKOUT | TPM_MEMORY | POLICY_FAIL
  | RANGE | SIZE | VALUE | INITIALIZE

datatype base_rc =
    GENERAL_FAILURE | NOT_IMPLEMENTED | BAD_CONTEXT | ABI_MISMATCH | BAD_REFERENCE
  | INSUFFICIENT_BUFFER | BAD_SEQUENCE | NO_CONNECTION | TRY_AGAIN | IO_ERROR | BAD_VALUE
  | NOT_PERMITTED | INVALID_SESSIONS | NO_DECRYPT_PARAM | NO_ENCRYPT_PARAM | BAD_SIZE
  | MALFORMED_RESPONSE | INSUFFICIENT_CONTEXT | INSUFFICIENT_RESPONSE | INCOMPATIBLE_TCTI
  | NOT_SUPPORTED | BAD_TCTI_STRUCTURE | MEMORY | BAD_TR | MULTIPLE_DECRYPT_SESSIONS
  | MULTIPLE_ENCRYPT_SESSIONS | RSP_AUTH_FAILED | CALLBACK_NULL

datatype tpm_alg = ALG_ERROR | ALG_SHA1 | ALG_SHA256 | ALG_SHA384 | ALG_SHA512

record abi_version =
  abi_creator :: u32
  abi_family :: u32
  abi_level :: u32
  abi_revision :: u32

record tss =
  rc_success :: u32
  layer_mask :: u32
  layer_code :: "tss_layer \<Rightarrow> u32"
  fmt1_flag :: u32
  tpm_rc_code :: "tpm_rc \<Rightarrow> u32"
  base_rc_code :: "base_rc \<Rightarrow> u32"
  alg_id :: "tpm_alg \<Rightarrow> u16"
  su_clear :: u16
  su_state :: u16
  yes_no_no :: byte
  tr_none :: u32
  tr_password :: u32
  tr_rh_platform :: u32
  tr_pcr0 :: u32
  hr_pcr :: u32
  num_pcr_banks :: nat
  pcr_select_max :: nat
  sha1_digest_size :: nat
  sha256_digest_size :: nat
  sha384_digest_size :: nat
  sha512_digest_size :: nat
  ha_union_size :: nat
  event_buffer_size :: nat
  digest_buffer_size :: nat
  abi_version_current :: abi_version

section \<open>Structures\<close>

record tpms_pcr_selection =
  sel_hash :: u16
  sizeof_select :: byte
  pcr_select :: "byte list"

record tpml_pcr_selection =
  psel_count :: u32
  pcr_selections :: "tpms_pcr_selection list"

text \<open>\<^verbatim>\<open>TPMT_HA\<close>: the members of the digest union all start at its first byte.\<close>

record tpmt_ha =
  hash_alg :: u16
  ha_bytes :: "byte list"

record tpml_digest_values =
  dvs_count :: u32
  dvs_digests :: "tpmt_ha list"

text \<open>\<^verbatim>\<open>TPM2B_DIGEST\<close>, \<^verbatim>\<open>TPM2B_AUTH\<close> and \<^verbatim>\<open>TPM2B_EVENT\<close>: a size and a fixed buffer.\<close>

record tpm2b =
  tpm2b_size :: u16
  tpm2b_buffer :: "byte list"

record tpml_digest =
  digs_count :: u32
  digs_digests :: "tpm2b list"

text \<open>Value initialization \<^verbatim>\<open>T result{}\<close> zeroes every member.\<close>

definition zero_pcr_selection :: "tss \<Rightarrow> tpms_pcr_selection" where
  "zero_pcr_selection T =
     \<lparr>sel_hash = 0, sizeof_select = 0, pcr_select = replicate (pcr_select_max T) 0\<rparr>"

definition zero_tpml_pcr_selection :: "tss \<Rightarrow> tpml_pcr_selection" where
  "zero_tpml_pcr_selection T =
     \<lparr>psel_count = 0, pcr_selections = replicate (num_pcr_banks T) (zero_pcr_selection T)\<rparr>"

definition zero_tpmt_ha :: "tss \<Rightarrow> tpmt_ha" where
  "zero_tpmt_ha T = \<lparr>hash_alg = 0, ha_bytes = replicate (ha_union_size T) 0\<rparr>"

definition zero_tpml_digest_values :: "tss \<Rightarrow> tpml_digest_values" where
  "zero_tpml_digest_values T =
     \<lparr>dvs_count = 0, dvs_digests = replicate (num_pcr_banks T) (zero_tpmt_ha T)\<rparr>"

definition zero_tpm2b :: "nat \<Rightarrow> tpm2b" where
  "zero_tpm2b n = \<lparr>tpm2b_size = 0, tpm2b_buffer = replicate n 0\<rparr>"

section \<open>What the sources rely on\<close>

text \<open>The hash algorithm identifiers are pairwise different.\<close>

definition alg_ids_documented :: "tss \<Rightarrow> bool" where
  "alg_ids_documented T \<longleftrightarrow>
     distinct [alg_id T ALG_ERROR, alg_id T ALG_SHA1, alg_id T ALG_SHA256,
               alg_id T ALG_SHA384, alg_id T ALG_SHA512]"

text \<open>
  Array sizes: the digest sizes of FIPS 180-4, a union that holds each of them, at most 32
  selectable PCRs in four select bytes, counts that fit the list headers.
\<close>

definition sizes_documented :: "tss \<Rightarrow> bool" where
  "sizes_documented T \<longleftrightarrow>
     sha1_digest_size T = 20 \<and> sha256_digest_size T = 32 \<and> sha384_digest_size T = 48 \<and>
     sha512_digest_size T = 64 \<and> 64 \<le> ha_union_size T \<and> pcr_select_max T = 4 \<and>
     0 < num_pcr_banks T \<and> num_pcr_banks T < 2 ^ 16 \<and>
     64 \<le> digest_buffer_size T \<and> digest_buffer_size T < 2 ^ 16 \<and> event_buffer_size T < 2 ^ 16"

text \<open>
  Return codes: success is zero; a layer code lies inside the layer mask and is unique; base
  codes lie in the low 16 bits and are unique and non-zero; a format-one code has bit 7 set and
  no selector bits.
\<close>

fun format_one :: "tpm_rc \<Rightarrow> bool" where
  "format_one LOCALITY = False"
| "format_one LOCKOUT = False"
| "format_one TPM_MEMORY = False"
| "format_one INITIALIZE = False"
| "format_one _ = True"

definition rcs_documented :: "tss \<Rightarrow> bool" where
  "rcs_documented T \<longleftrightarrow>
     rc_success T = 0 \<and> layer_mask T = 0xff0000 \<and> fmt1_flag T = 0x80 \<and>
     layer_code T TPM_layer = 0 \<and> inj (layer_code T) \<and>
     (\<forall>l. layer_code T l AND layer_mask T = layer_code T l) \<and>
     inj (base_rc_code T) \<and> (\<forall>b. base_rc_code T b \<noteq> 0 \<and> base_rc_code T b < 0x10000) \<and>
     inj (tpm_rc_code T) \<and>
     (\<forall>c. tpm_rc_code T c \<noteq> 0 \<and> tpm_rc_code T c < 0x10000) \<and>
     (\<forall>c. format_one c \<longrightarrow> tpm_rc_code T c AND 0xbf = tpm_rc_code T c \<and> tpm_rc_code T c AND 0x80 = 0x80) \<and>
     (\<forall>c. \<not> format_one c \<longrightarrow> tpm_rc_code T c AND 0x80 = 0)"

section \<open>An instance with the values of the TCG specifications\<close>

fun spec_tpm_rc :: "tpm_rc \<Rightarrow> u32" where
  "spec_tpm_rc AUTH_FAIL = 0x8e"
| "spec_tpm_rc BAD_AUTH = 0xa2"
| "spec_tpm_rc HASH = 0x83"
| "spec_tpm_rc HANDLE = 0x8b"
| "spec_tpm_rc LOCALITY = 0x907"
| "spec_tpm_rc LOCKOUT = 0x921"
| "spec_tpm_rc TPM_MEMORY = 0x904"
| "spec_tpm_rc POLICY_FAIL = 0x9d"
| "spec_tpm_rc RANGE = 0x8d"
| "spec_tpm_rc SIZE = 0x95"
| "spec_tpm_rc VALUE = 0x84"
| "spec_tpm_rc INITIALIZE = 0x100"

fun spec_base_rc :: "base_rc \<Rightarrow> u32" where
  "spec_base_rc GENERAL_FAILURE = 1"
| "spec_base_rc NOT_IMPLEMENTED = 2"
| "spec_base_rc BAD_CONTEXT = 3"
| "spec_base_rc ABI_MISMATCH = 4"
| "spec_base_rc BAD_REFERENCE = 5"
| "spec_base_rc INSUFFICIENT_BUFFER = 6"
| "spec_base_rc BAD_SEQUENCE = 7"
| "spec_base_rc NO_CONNECTION = 8"
| "spec_base_rc TRY_AGAIN = 9"
| "spec_base_rc IO_ERROR = 10"
| "spec_base_rc BAD_VALUE = 11"
| "spec_base_rc NOT_PERMITTED = 12"
| "spec_base_rc INVALID_SESSIONS = 13"
| "spec_base_rc NO_DECRYPT_PARAM = 14"
| "spec_base_rc NO_ENCRYPT_PARAM = 15"
| "spec_base_rc BAD_SIZE = 16"
| "spec_base_rc MALFORMED_RESPONSE = 17"
| "spec_base_rc INSUFFICIENT_CONTEXT = 18"
| "spec_base_rc INSUFFICIENT_RESPONSE = 19"
| "spec_base_rc INCOMPATIBLE_TCTI = 20"
| "spec_base_rc NOT_SUPPORTED = 21"
| "spec_base_rc BAD_TCTI_STRUCTURE = 22"
| "spec_base_rc MEMORY = 23"
| "spec_base_rc BAD_TR = 24"
| "spec_base_rc MULTIPLE_DECRYPT_SESSIONS = 25"
| "spec_base_rc MULTIPLE_ENCRYPT_SESSIONS = 26"
| "spec_base_rc RSP_AUTH_FAILED = 27"
| "spec_base_rc CALLBACK_NULL = 54"

fun spec_layer :: "tss_layer \<Rightarrow> u32" where
  "spec_layer TPM_layer = 0x0"
| "spec_layer ESAPI_layer = 0x70000"
| "spec_layer SYS_layer = 0x80000"
| "spec_layer MU_layer = 0x90000"
| "spec_layer TCTI_layer = 0xa0000"

fun spec_alg :: "tpm_alg \<Rightarrow> u16" where
  "spec_alg ALG_ERROR = 0x0"
| "spec_alg ALG_SHA1 = 0x4"
| "spec_alg ALG_SHA256 = 0xb"
| "spec_alg ALG_SHA384 = 0xc"
| "spec_alg ALG_SHA512 = 0xd"

definition tss_4_1 :: tss where
  "tss_4_1 =
     \<lparr>rc_success = 0, layer_mask = 0xff0000, layer_code = spec_layer, fmt1_flag = 0x80,
      tpm_rc_code = spec_tpm_rc, base_rc_code = spec_base_rc, alg_id = spec_alg,
      su_clear = 0, su_state = 1, yes_no_no = 0,
      tr_none = 0xfff, tr_password = 0xff, tr_rh_platform = 0x10c, tr_pcr0 = 0, hr_pcr = 0,
      num_pcr_banks = 16, pcr_select_max = 4,
      sha1_digest_size = 20, sha256_digest_size = 32, sha384_digest_size = 48,
      sha512_digest_size = 64, ha_union_size = 64, event_buffer_size = 1024,
      digest_buffer_size = 64,
      abi_version_current = \<lparr>abi_creator = 1, abi_family = 2, abi_level = 1, abi_revision = 108\<rparr>\<rparr>"

lemma tss_4_1_fields:
  "rc_success tss_4_1 = 0" "layer_mask tss_4_1 = 0xff0000" "layer_code tss_4_1 = spec_layer"
  "fmt1_flag tss_4_1 = 0x80" "tpm_rc_code tss_4_1 = spec_tpm_rc"
  "base_rc_code tss_4_1 = spec_base_rc" "alg_id tss_4_1 = spec_alg" "su_clear tss_4_1 = 0"
  "su_state tss_4_1 = 1" "yes_no_no tss_4_1 = 0" "tr_none tss_4_1 = 0xfff"
  "tr_password tss_4_1 = 0xff" "tr_rh_platform tss_4_1 = 0x10c" "tr_pcr0 tss_4_1 = 0"
  "hr_pcr tss_4_1 = 0" "num_pcr_banks tss_4_1 = 16" "pcr_select_max tss_4_1 = 4"
  "ha_union_size tss_4_1 = 64" "event_buffer_size tss_4_1 = 1024"
  "digest_buffer_size tss_4_1 = 64"
  "abi_version_current tss_4_1 =
     \<lparr>abi_creator = 1, abi_family = 2, abi_level = 1, abi_revision = 108\<rparr>"
  by (simp_all add: tss_4_1_def)

lemma tss_4_1_algs [simp]: "alg_ids_documented tss_4_1"
  by (simp add: alg_ids_documented_def tss_4_1_def)

lemma tss_4_1_sizes [simp]: "sizes_documented tss_4_1"
  by (simp add: sizes_documented_def tss_4_1_def)

lemma spec_tpm_rc_inj: "inj spec_tpm_rc"
  by (rule injI, case_tac x; case_tac y; simp)

lemma spec_base_rc_inj: "inj spec_base_rc"
  by (rule injI, case_tac x; case_tac y; simp)

lemma spec_layer_inj: "inj spec_layer"
  by (rule injI, case_tac x; case_tac y; simp)

lemma spec_base_rc_range: "spec_base_rc b \<noteq> 0 \<and> spec_base_rc b < 0x10000"
  by (cases b) simp_all

lemma spec_tpm_rc_range:
  "spec_tpm_rc c \<noteq> 0 \<and> spec_tpm_rc c < 0x10000"
  "format_one c \<Longrightarrow> spec_tpm_rc c AND 0xbf = spec_tpm_rc c \<and> spec_tpm_rc c AND 0x80 = 0x80"
  "\<not> format_one c \<Longrightarrow> spec_tpm_rc c AND 0x80 = 0"
  by (cases c; simp)+

lemma spec_layer_range: "spec_layer l AND 0xff0000 = spec_layer l"
  by (cases l) simp_all

lemma tss_4_1_rcs [simp]: "rcs_documented tss_4_1"
  by (simp add: rcs_documented_def tss_4_1_def spec_tpm_rc_inj spec_base_rc_inj spec_layer_inj
      spec_base_rc_range spec_tpm_rc_range spec_layer_range)

end
