(* ===== verification/Logger.thy ===== *)
theory Logger
  imports Prelude
begin

text \<open>
  The structured logging port of \<^verbatim>\<open>include/tpmkit/logging/logger.h\<close>: severities, fields, the
  contract every adapter keeps (locale \<open>logger_port\<close>), and the two adapters without an external
  sink: \<^verbatim>\<open>noop_logger\<close> and the test adapter \<^verbatim>\<open>recording_logger\<close>. Failure of memory allocation,
  on which the adapters drop the record, is not modelled.
\<close>

datatype log_level = trace | debug | info | warn | error_level | unlisted_level int

fun level_value :: "log_level \<Rightarrow> int" where
  "level_value trace = 0"
| "level_value debug = 1"
| "level_value info = 2"
| "level_value warn = 3"
| "level_value error_level = 4"
| "level_value (unlisted_level n) = n"

record log_field =
  field_key :: string
  field_value :: string

abbreviation fld :: "string \<Rightarrow> string \<Rightarrow> log_field" where
  "fld k v \<equiv> \<lparr>field_key = k, field_value = v\<rparr>"

text \<open>One call of the virtual member \<^verbatim>\<open>log(level, message, fields)\<close>.\<close>

record log_call =
  call_level :: log_level
  call_message :: string
  call_fields :: "log_field list"

definition field_lookup :: "string \<Rightarrow> log_call \<Rightarrow> string option" where
  "field_lookup k c = map_of (map (\<lambda>f. (field_key f, field_value f)) (call_fields c)) k"

definition listed_level :: "log_level \<Rightarrow> bool" where
  "listed_level l \<longleftrightarrow> l = trace \<or> l = debug \<or> l = info \<or> l = warn \<or> l = error_level"

lemma listed_level_simps [simp]:
  "listed_level trace" "listed_level debug" "listed_level info" "listed_level warn"
  "listed_level error_level" "\<not> listed_level (unlisted_level n)"
  by (auto simp: listed_level_def)

section \<open>The contract of an adapter\<close>

text \<open>
  \<open>ok s\<close> is what the adapter in state \<open>s\<close> relies on of the sink behind it; \<open>accepts s l\<close> says that
  it keeps records of severity \<open>l\<close>; \<open>lines s\<close> is what it has written so far and \<open>represents r c\<close>
  that the written item \<open>r\<close> shows the call \<open>c\<close>. A call writes one item that shows it, or nothing,
  and never changes what is accepted.
\<close>

locale logger_port =
  fixes log :: "'s \<Rightarrow> log_call \<Rightarrow> 's"
    and ok :: "'s \<Rightarrow> bool"
    and accepts :: "'s \<Rightarrow> log_level \<Rightarrow> bool"
    and lines :: "'s \<Rightarrow> 'r list"
    and represents :: "'r \<Rightarrow> log_call \<Rightarrow> bool"
  assumes log_accepted:
      "ok s \<Longrightarrow> accepts s (call_level c) \<Longrightarrow> \<exists>r. lines (log s c) = lines s @ [r] \<and> represents r c"
    and log_dropped: "ok s \<Longrightarrow> \<not> accepts s (call_level c) \<Longrightarrow> lines (log s c) = lines s"
    and accepts_log: "ok s \<Longrightarrow> accepts (log s c) = accepts s"
    and ok_log: "ok s \<Longrightarrow> ok (log s c)"
begin

lemma accepts_replay: "ok s \<Longrightarrow> accepts (foldl log s cs) = accepts s \<and> ok (foldl log s cs)"
  by (induction cs arbitrary: s) (simp_all add: accepts_log ok_log)

lemma replay:
  "ok s \<Longrightarrow> \<exists>rs. lines (foldl log s cs) = lines s @ rs \<and>
        list_all2 represents rs (filter (\<lambda>c. accepts s (call_level c)) cs)"
proof (induction cs arbitrary: s)
  case Nil
  show ?case by simp
next
  case (Cons c cs)
  from Cons(1) [OF ok_log [OF Cons(2)], of c] obtain rs
    where rs: "lines (foldl log (log s c) cs) = lines (log s c) @ rs"
    and reps: "list_all2 represents rs (filter (\<lambda>c. accepts s (call_level c)) cs)"
    by (auto simp: accepts_log [OF Cons(2)])
  show ?case
  proof (cases "accepts s (call_level c)")
    case True
    then obtain r where "lines (log s c) = lines s @ [r]" "represents r c"
      using log_accepted [OF Cons(2)] by blast
    with rs reps True show ?thesis by (intro exI [of _ "r # rs"]) simp
  next
    case False
    with rs reps Cons(2) show ?thesis by (simp add: log_dropped)
  qed
qed

lemma replay_length:
  assumes "ok s"
  shows "length (lines (foldl log s cs)) =
     length (lines s) + length (filter (\<lambda>c. accepts s (call_level c)) cs)"
proof -
  obtain rs where "lines (foldl log s cs) = lines s @ rs"
    and "list_all2 represents rs (filter (\<lambda>c. accepts s (call_level c)) cs)"
    using replay [OF assms] by blast
  then show ?thesis by (auto dest: list_all2_lengthD)
qed

end

text \<open>
  An adapter that filters by severity accepts every listed severity above one it accepts.
\<close>

locale threshold_logger_port = logger_port +
  assumes accepts_upward:
    "ok s \<Longrightarrow> accepts s l \<Longrightarrow> listed_level l \<Longrightarrow> listed_level l' \<Longrightarrow>
     level_value l \<le> level_value l' \<Longrightarrow> accepts s l'"
begin

lemma errors_kept:
  assumes "ok s" and "accepts s l" and "listed_level l" and "call_level c = error_level"
  shows "\<exists>r. lines (log s c) = lines s @ [r] \<and> represents r c"
proof -
  have "accepts s error_level"
    using assms(3) by (intro accepts_upward [OF assms(1,2)]) (auto simp: listed_level_def)
  then show ?thesis using log_accepted [OF assms(1), of c] assms(4) by simp
qed

end

section \<open>noop_logger\<close>

definition noop_log :: "unit \<Rightarrow> log_call \<Rightarrow> unit" where
  "noop_log s c = ()"

interpretation noop: threshold_logger_port noop_log "\<lambda>_. True" "\<lambda>_ _. False" "\<lambda>_. []" "\<lambda>(_::unit) _. False"
  by unfold_locales simp_all

section \<open>recording_logger\<close>

record log_record =
  lr_level :: log_level
  lr_message :: string
  lr_fields :: "(string \<times> string) list"

record recording_logger =
  captured :: "log_record list"

definition make_record :: "log_level \<Rightarrow> string \<Rightarrow> log_field list \<Rightarrow> log_record" where
  "make_record level msg fs =
     \<lparr>lr_level = level, lr_message = msg,
      lr_fields = foldl (\<lambda>acc f. acc @ [(field_key f, field_value f)]) [] fs\<rparr>"

definition recording_log :: "recording_logger \<Rightarrow> log_call \<Rightarrow> recording_logger" where
  "recording_log s c =
     s\<lparr>captured := captured s @ [make_record (call_level c) (call_message c) (call_fields c)]\<rparr>"

definition recording_clear :: "recording_logger \<Rightarrow> recording_logger" where
  "recording_clear s = s\<lparr>captured := []\<rparr>"

definition recording_snapshot :: "recording_logger \<Rightarrow> log_record list" where
  "recording_snapshot s = captured s"

definition records_call :: "log_record \<Rightarrow> log_call \<Rightarrow> bool" where
  "records_call r c \<longleftrightarrow>
     lr_level r = call_level c \<and> lr_message r = call_message c \<and>
     lr_fields r = map (\<lambda>f. (field_key f, field_value f)) (call_fields c)"

lemma make_record_fields:
  "foldl (\<lambda>acc f. acc @ [(field_key f, field_value f)]) acc fs =
     acc @ map (\<lambda>f. (field_key f, field_value f)) fs"
  by (induction fs arbitrary: acc) simp_all

lemma make_record_records: "records_call (make_record (call_level c) (call_message c) (call_fields c)) c"
  by (simp add: make_record_def records_call_def make_record_fields)

interpretation recording: threshold_logger_port
  recording_log "\<lambda>_. True" "\<lambda>_ _. True" recording_snapshot records_call
  by unfold_locales
     (simp_all add: recording_log_def recording_snapshot_def make_record_records)

lemma records_call_unique: "records_call r c \<Longrightarrow> records_call r' c \<Longrightarrow> r = r'"
  by (simp add: records_call_def)

lemma recording_replay:
  "recording_snapshot (foldl recording_log s cs) =
     recording_snapshot s @ map (\<lambda>c. make_record (call_level c) (call_message c) (call_fields c)) cs"
  by (induction cs arbitrary: s) (simp_all add: recording_log_def recording_snapshot_def)

end
