(* ===== verification/Log_Events.thy ===== *)
theory Log_Events
  imports Logger
begin

text \<open>
  The event vocabulary of \<^verbatim>\<open>src/adapters/tpm2_esys/support/log_events.h\<close> and the record
  templates of \<^verbatim>\<open>log_record.h\<close>. A function that logs returns the list of calls it makes on the
  logger port, in order; a null \<^verbatim>\<open>logger*\<close> is \<open>has_log = False\<close>.
\<close>

record event_descriptor =
  event_name :: string
  event_message :: string

abbreviation ev :: "string \<Rightarrow> string \<Rightarrow> event_descriptor" where
  "ev n m \<equiv> \<lparr>event_name = n, event_message = m\<rparr>"

definition ev_esys_initialized :: event_descriptor where
  "ev_esys_initialized = ev ''tpm.context.esys_initialized'' ''ESYS context initialized''"

definition ev_finalized :: event_descriptor where
  "ev_finalized = ev ''tpm.context.finalized'' ''TPM context finalized''"

definition ev_pcr_allocate_completed :: event_descriptor where
  "ev_pcr_allocate_completed = ev ''tpm.pcr.allocate_completed'' ''PCR allocation completed''"

definition ev_pcr_auth_policy_set :: event_descriptor where
  "ev_pcr_auth_policy_set = ev ''tpm.pcr.auth_policy_set'' ''PCR authorization policy set''"

definition ev_pcr_auth_value_set :: event_descriptor where
  "ev_pcr_auth_value_set = ev ''tpm.pcr.auth_value_set'' ''PCR authorization value set''"

definition ev_pcr_event_completed :: event_descriptor where
  "ev_pcr_event_completed = ev ''tpm.pcr.event_completed'' ''PCR event completed''"

definition ev_pcr_extend_completed :: event_descriptor where
  "ev_pcr_extend_completed = ev ''tpm.pcr.extend_completed'' ''PCR extend completed''"

definition ev_pcr_read_completed :: event_descriptor where
  "ev_pcr_read_completed = ev ''tpm.pcr.read_completed'' ''PCR read completed''"

definition ev_pcr_reset_completed :: event_descriptor where
  "ev_pcr_reset_completed = ev ''tpm.pcr.reset_completed'' ''PCR reset completed''"

definition ev_pcr_tss_error :: event_descriptor where
  "ev_pcr_tss_error = ev ''tpm.pcr.tss_error'' ''TPM backend call failed''"

definition ev_startup_completed :: event_descriptor where
  "ev_startup_completed = ev ''tpm.context.startup_completed'' ''TPM startup completed''"

definition ev_startup_invoked :: event_descriptor where
  "ev_startup_invoked = ev ''tpm.context.startup_invoked'' ''TPM startup invoked''"

definition ev_tcti_configured :: event_descriptor where
  "ev_tcti_configured = ev ''tpm.context.tcti_configured'' ''TCTI configured''"

definition ev_tcti_configuring :: event_descriptor where
  "ev_tcti_configuring = ev ''tpm.context.tcti_configuring'' ''TCTI configuring''"

definition ev_tss_error :: event_descriptor where
  "ev_tss_error = ev ''tpm.context.tss_error'' ''TPM backend call failed''"

definition component_tpm2_esys :: string where
  "component_tpm2_esys = ''tpm2_esys''"

text \<open>The namespaces \<^verbatim>\<open>fields\<close> and \<^verbatim>\<open>outcomes\<close>: the keys of the records and the values of some of them.\<close>

definition log_field_keys :: "string list" where
  "log_field_keys =
     [''abi_version'', ''allocation_success'', ''bank'', ''bank_count'', ''component'',
      ''backend_error_description'', ''error_category'', ''error_code'', ''event'', ''event_size'',
      ''operation'', ''outcome'', ''policy_algorithm'', ''pcr_count'', ''pcr_index'', ''result'',
      ''source'', ''startup_mode'', ''tcti_kind'', ''tcti_name'', ''tss_layer'']"

definition log_outcome_values :: "string list" where
  "log_outcome_values =
     [''backend_error'', ''failure'', ''input_error'', ''resource_error'', ''security_failure'', ''success'']"

section \<open>Record templates\<close>

text \<open>The merged array: three fixed fields, then the caller's fields at offset three.\<close>

definition emit_outcome_record ::
  "log_level \<Rightarrow> event_descriptor \<Rightarrow> string \<Rightarrow> log_field list \<Rightarrow> log_call list" where
  "emit_outcome_record level event outcome_text fs =
     (let merged = replicate (length fs + 3) (fld [] []);
          merged = merged[0 := fld ''event'' (event_name event)];
          merged = merged[1 := fld ''component'' component_tpm2_esys];
          merged = merged[2 := fld ''outcome'' outcome_text];
          merged = foldl (\<lambda>m i. m[i + 3 := fs ! i]) merged [0..<length fs]
      in [\<lparr>call_level = level, call_message = event_message event, call_fields = merged\<rparr>])"

definition emit_failure_record :: "bool \<Rightarrow> event_descriptor \<Rightarrow> log_field list \<Rightarrow> log_call list" where
  "emit_failure_record has_log event fs =
     (if \<not> has_log then [] else emit_outcome_record error_level event ''failure'' fs)"

definition emit_success_record :: "bool \<Rightarrow> event_descriptor \<Rightarrow> log_field list \<Rightarrow> log_call list" where
  "emit_success_record has_log event fs =
     (if \<not> has_log then [] else emit_outcome_record info event ''success'' fs)"

lemma fill_from_three:
  "n \<le> length fs \<Longrightarrow>
   foldl (\<lambda>m i. m[i + 3 := fs ! i]) (a # b # c # replicate (length fs) z) [0..<n] =
     a # b # c # take n fs @ replicate (length fs - n) z"
proof (induction n)
  case (Suc n)
  then have "replicate (length fs - n) z = z # replicate (length fs - Suc n) z"
    by (metis Suc_diff_Suc less_eq_Suc_le replicate_Suc)
  with Suc show ?case
    by (simp add: numeral_3_eq_3 list_update_append take_Suc_conv_app_nth)
qed simp

lemma emit_outcome_record_eq:
  "emit_outcome_record level event outcome_text fs =
     [\<lparr>call_level = level, call_message = event_message event,
       call_fields = [fld ''event'' (event_name event), fld ''component'' component_tpm2_esys,
                      fld ''outcome'' outcome_text] @ fs\<rparr>]"
  using fill_from_three [of "length fs" fs]
  by (simp add: emit_outcome_record_def Let_def numeral_3_eq_3)

lemma emit_failure_record_eq:
  "emit_failure_record has_log event fs =
     (if has_log
      then [\<lparr>call_level = error_level, call_message = event_message event,
              call_fields = [fld ''event'' (event_name event), fld ''component'' component_tpm2_esys,
                             fld ''outcome'' ''failure''] @ fs\<rparr>]
      else [])"
  by (simp add: emit_failure_record_def emit_outcome_record_eq)

lemma emit_success_record_eq:
  "emit_success_record has_log event fs =
     (if has_log
      then [\<lparr>call_level = info, call_message = event_message event,
              call_fields = [fld ''event'' (event_name event), fld ''component'' component_tpm2_esys,
                             fld ''outcome'' ''success''] @ fs\<rparr>]
      else [])"
  by (simp add: emit_success_record_def emit_outcome_record_eq)

text \<open>A record whose keys are of the vocabulary, each once, and whose outcome is one of its values.\<close>

definition in_vocabulary :: "log_call \<Rightarrow> bool" where
  "in_vocabulary c \<longleftrightarrow>
     (let keys = map field_key (call_fields c) in
      list_all (\<lambda>k. k \<in> set log_field_keys) keys \<and> distinct keys \<and>
      (\<exists>v \<in> set log_outcome_values. field_lookup ''outcome'' c = Some v))"

lemma emitted_in_vocabulary:
  assumes "list_all (\<lambda>f. field_key f \<in> set log_field_keys - {''event'', ''component'', ''outcome''}) fs"
    and "distinct (map field_key fs)"
  shows "list_all in_vocabulary (emit_success_record has_log event fs)"
    and "list_all in_vocabulary (emit_failure_record has_log event fs)"
proof -
  have "list_all (\<lambda>k. k \<in> set log_field_keys) (map field_key fs)"
    using assms(1) by (auto simp: list_all_iff)
  moreover have "\<not> list_ex (\<lambda>f. field_key f \<in> {''event'', ''component'', ''outcome''}) fs"
    using assms(1) by (auto simp: list_all_iff list_ex_iff)
  moreover have "''event'' \<in> set log_field_keys" "''component'' \<in> set log_field_keys" "''outcome'' \<in> set log_field_keys"
    "''success'' \<in> set log_outcome_values" "''failure'' \<in> set log_outcome_values"
    by (simp_all add: log_field_keys_def log_outcome_values_def)
  ultimately show "list_all in_vocabulary (emit_success_record has_log event fs)"
    and "list_all in_vocabulary (emit_failure_record has_log event fs)"
    using assms(2)
    by (auto simp: emit_success_record_eq emit_failure_record_eq in_vocabulary_def field_lookup_def
        list_ex_iff Let_def)
qed

end
