(* ===== verification/Error_Translation.thy ===== *)
theory Error_Translation
  imports Result Tss_Types Log_Events
begin

text \<open>
  \<^verbatim>\<open>src/adapters/tpm2_esys/support/error_translation.cpp\<close>: the translation of a TSS return code
  into a domain error and one structured log record. The decoder \<^verbatim>\<open>tss_error_decoder\<close> is a function
  pointer to third-party code: \<open>None\<close> is the null pointer, and its result \<open>None\<close> a null C string.
\<close>

record mapped_error =
  mapped_category :: error_category
  mapped_message :: string

record mapping_entry =
  entry_layer :: u32
  entry_base :: u32
  entry_error :: mapped_error

type_synonym decoder = "(u32 \<Rightarrow> string option) option"

definition input_message :: string where
  "input_message = ''input rejected by TPM''"

definition security_message :: string where
  "security_message = ''TPM verification failed''"

definition resource_message :: string where
  "resource_message = ''TPM operation cannot be completed''"

definition backend_message :: string where
  "backend_message = ''TPM backend reported an error''"

lemmas mapped_messages [simp] =
  input_message_def security_message_def resource_message_def backend_message_def

definition mapped_input :: mapped_error where
  "mapped_input = \<lparr>mapped_category = input_error, mapped_message = input_message\<rparr>"

definition mapped_security :: mapped_error where
  "mapped_security = \<lparr>mapped_category = security_failure, mapped_message = security_message\<rparr>"

definition mapped_resource :: mapped_error where
  "mapped_resource = \<lparr>mapped_category = resource_error, mapped_message = resource_message\<rparr>"

definition mapped_backend :: mapped_error where
  "mapped_backend = \<lparr>mapped_category = backend_error, mapped_message = backend_message\<rparr>"

definition unavailable_description :: string where
  "unavailable_description = ''unavailable''"

definition max_description_size :: nat where
  "max_description_size = 128"

definition map_entry :: "u32 \<Rightarrow> u32 \<Rightarrow> mapped_error \<Rightarrow> mapping_entry" where
  "map_entry l b e = \<lparr>entry_layer = l, entry_base = b, entry_error = e\<rparr>"

definition documented_mappings :: "tss \<Rightarrow> mapping_entry list" where
  "documented_mappings T =
    [map_entry (layer_code T TPM_layer) (tpm_rc_code T AUTH_FAIL) mapped_security,
     map_entry (layer_code T TPM_layer) (tpm_rc_code T BAD_AUTH) mapped_security,
     map_entry (layer_code T TPM_layer) (tpm_rc_code T HASH) mapped_input,
     map_entry (layer_code T TPM_layer) (tpm_rc_code T HANDLE) mapped_input,
     map_entry (layer_code T TPM_layer) (tpm_rc_code T LOCALITY) mapped_resource,
     map_entry (layer_code T TPM_layer) (tpm_rc_code T LOCKOUT) mapped_security,
     map_entry (layer_code T TPM_layer) (tpm_rc_code T TPM_MEMORY) mapped_resource,
     map_entry (layer_code T TPM_layer) (tpm_rc_code T POLICY_FAIL) mapped_security,
     map_entry (layer_code T TPM_layer) (tpm_rc_code T RANGE) mapped_input,
     map_entry (layer_code T TPM_layer) (tpm_rc_code T SIZE) mapped_input,
     map_entry (layer_code T TPM_layer) (tpm_rc_code T VALUE) mapped_input,
     map_entry (layer_code T ESAPI_layer) (base_rc_code T GENERAL_FAILURE) mapped_backend,
     map_entry (layer_code T ESAPI_layer) (base_rc_code T NOT_IMPLEMENTED) mapped_backend,
     map_entry (layer_code T ESAPI_layer) (base_rc_code T ABI_MISMATCH) mapped_backend,
     map_entry (layer_code T ESAPI_layer) (base_rc_code T BAD_REFERENCE) mapped_input,
     map_entry (layer_code T ESAPI_layer) (base_rc_code T INSUFFICIENT_BUFFER) mapped_input,
     map_entry (layer_code T ESAPI_layer) (base_rc_code T BAD_SEQUENCE) mapped_backend,
     map_entry (layer_code T ESAPI_layer) (base_rc_code T INVALID_SESSIONS) mapped_input,
     map_entry (layer_code T ESAPI_layer) (base_rc_code T TRY_AGAIN) mapped_resource,
     map_entry (layer_code T ESAPI_layer) (base_rc_code T IO_ERROR) mapped_resource,
     map_entry (layer_code T ESAPI_layer) (base_rc_code T BAD_VALUE) mapped_input,
     map_entry (layer_code T ESAPI_layer) (base_rc_code T NO_DECRYPT_PARAM) mapped_input,
     map_entry (layer_code T ESAPI_layer) (base_rc_code T NO_ENCRYPT_PARAM) mapped_input,
     map_entry (layer_code T ESAPI_layer) (base_rc_code T BAD_SIZE) mapped_input,
     map_entry (layer_code T ESAPI_layer) (base_rc_code T MALFORMED_RESPONSE) mapped_backend,
     map_entry (layer_code T ESAPI_layer) (base_rc_code T INSUFFICIENT_CONTEXT) mapped_backend,
     map_entry (layer_code T ESAPI_layer) (base_rc_code T INSUFFICIENT_RESPONSE) mapped_backend,
     map_entry (layer_code T ESAPI_layer) (base_rc_code T INCOMPATIBLE_TCTI) mapped_resource,
     map_entry (layer_code T ESAPI_layer) (base_rc_code T BAD_TCTI_STRUCTURE) mapped_backend,
     map_entry (layer_code T ESAPI_layer) (base_rc_code T MEMORY) mapped_resource,
     map_entry (layer_code T ESAPI_layer) (base_rc_code T BAD_TR) mapped_input,
     map_entry (layer_code T ESAPI_layer) (base_rc_code T MULTIPLE_DECRYPT_SESSIONS) mapped_input,
     map_entry (layer_code T ESAPI_layer) (base_rc_code T MULTIPLE_ENCRYPT_SESSIONS) mapped_input,
     map_entry (layer_code T ESAPI_layer) (base_rc_code T NOT_SUPPORTED) mapped_backend,
     map_entry (layer_code T ESAPI_layer) (base_rc_code T RSP_AUTH_FAILED) mapped_security,
     map_entry (layer_code T ESAPI_layer) (base_rc_code T CALLBACK_NULL) mapped_backend,
     map_entry (layer_code T TCTI_layer) (base_rc_code T GENERAL_FAILURE) mapped_backend,
     map_entry (layer_code T TCTI_layer) (base_rc_code T NOT_IMPLEMENTED) mapped_backend,
     map_entry (layer_code T TCTI_layer) (base_rc_code T BAD_CONTEXT) mapped_backend,
     map_entry (layer_code T TCTI_layer) (base_rc_code T ABI_MISMATCH) mapped_backend,
     map_entry (layer_code T TCTI_layer) (base_rc_code T BAD_REFERENCE) mapped_input,
     map_entry (layer_code T TCTI_layer) (base_rc_code T INSUFFICIENT_BUFFER) mapped_input,
     map_entry (layer_code T TCTI_layer) (base_rc_code T BAD_SEQUENCE) mapped_backend,
     map_entry (layer_code T TCTI_layer) (base_rc_code T NO_CONNECTION) mapped_resource,
     map_entry (layer_code T TCTI_layer) (base_rc_code T TRY_AGAIN) mapped_resource,
     map_entry (layer_code T TCTI_layer) (base_rc_code T IO_ERROR) mapped_resource,
     map_entry (layer_code T TCTI_layer) (base_rc_code T BAD_VALUE) mapped_input,
     map_entry (layer_code T TCTI_layer) (base_rc_code T NOT_PERMITTED) mapped_backend,
     map_entry (layer_code T TCTI_layer) (base_rc_code T MALFORMED_RESPONSE) mapped_backend,
     map_entry (layer_code T TCTI_layer) (base_rc_code T NOT_SUPPORTED) mapped_backend]"

definition rc_layer :: "tss \<Rightarrow> u32 \<Rightarrow> u32" where
  "rc_layer T rc = rc AND layer_mask T"

definition normalize_tpm_base :: "tss \<Rightarrow> u32 \<Rightarrow> u32" where
  "normalize_tpm_base T base =
     (if base AND fmt1_flag T = 0 then base else base AND (fmt1_flag T OR 0x3f))"

definition rc_base :: "tss \<Rightarrow> u32 \<Rightarrow> u32 \<Rightarrow> u32" where
  "rc_base T rc layer =
     (let base = rc AND 0xffff in
      if layer = layer_code T TPM_layer then normalize_tpm_base T base else base)"

definition layer_name :: "tss \<Rightarrow> u32 \<Rightarrow> string" where
  "layer_name T layer =
     (if layer = layer_code T TPM_layer then ''tpm''
      else if layer = layer_code T TCTI_layer then ''tcti''
      else if layer = layer_code T ESAPI_layer then ''esapi''
      else if layer = layer_code T SYS_layer then ''sys''
      else if layer = layer_code T MU_layer then ''mu''
      else ''unknown'')"

fun category_name :: "error_category \<Rightarrow> string" where
  "category_name input_error = ''input_error''"
| "category_name security_failure = ''security_failure''"
| "category_name resource_error = ''resource_error''"
| "category_name backend_error = ''backend_error''"
| "category_name (unlisted_category n) = ''backend_error''"

fun find_mapping :: "mapping_entry list \<Rightarrow> u32 \<Rightarrow> u32 \<Rightarrow> mapped_error" where
  "find_mapping [] layer base = mapped_backend"
| "find_mapping (e # es) layer base =
     (if entry_layer e = layer \<and> entry_base e = base then entry_error e
      else find_mapping es layer base)"

definition translate_layer_base :: "tss \<Rightarrow> u32 \<Rightarrow> u32 \<Rightarrow> mapped_error" where
  "translate_layer_base T layer base = find_mapping (documented_mappings T) layer base"

text \<open>\<^verbatim>\<open>snprintf("0x%08x")\<close> of a 32-bit value: eight digits, most significant first.\<close>

definition format_hex :: "u32 \<Rightarrow> string" where
  "format_hex rc = ''0x'' @ map (\<lambda>k. hex_digits ! unat (drop_bit (4 * k) rc AND 0x0f)) [7, 6, 5, 4, 3, 2, 1, 0]"

definition is_printable_ascii :: "char \<Rightarrow> bool" where
  "is_printable_ascii c \<longleftrightarrow> 0x20 \<le> (of_char c :: nat) \<and> (of_char c :: nat) < 0x7f"

fun sanitize_from :: "nat \<Rightarrow> string \<Rightarrow> string" where
  "sanitize_from index [] = []"
| "sanitize_from index (c # cs) =
     (if c \<noteq> CHR 0x00 \<and> index < max_description_size
      then (if is_printable_ascii c then c else CHR ''_'') # sanitize_from (index + 1) cs
      else [])"

definition sanitized_backend_error_description :: "string option \<Rightarrow> string" where
  "sanitized_backend_error_description decoded =
     (case decoded of
        None \<Rightarrow> unavailable_description
      | Some cs \<Rightarrow>
          if c_str cs = [] then unavailable_description
          else (let description = sanitize_from 0 cs in
                if description = [] then unavailable_description else description))"

definition decode_backend_error_description :: "u32 \<Rightarrow> decoder \<Rightarrow> string" where
  "decode_backend_error_description rc d =
     (case d of
        None \<Rightarrow> unavailable_description
      | Some f \<Rightarrow> sanitized_backend_error_description (f rc))"

definition log_tss_error ::
  "tss \<Rightarrow> bool \<Rightarrow> u32 \<Rightarrow> u32 \<Rightarrow> error_category \<Rightarrow> string \<Rightarrow> event_descriptor \<Rightarrow> decoder \<Rightarrow> log_call list"
where
  "log_tss_error T has_log rc layer cat operation error_event d =
     (if \<not> has_log then []
      else emit_failure_record has_log error_event
             [fld ''error_category'' (category_name cat),
              fld ''error_code'' (format_hex rc),
              fld ''backend_error_description'' (decode_backend_error_description rc d),
              fld ''operation'' operation,
              fld ''tss_layer'' (layer_name T layer)])"

definition translate_tss_rc ::
  "tss \<Rightarrow> u32 \<Rightarrow> string \<Rightarrow> bool \<Rightarrow> event_descriptor \<Rightarrow> decoder \<Rightarrow> unit outcome \<times> log_call list"
where
  "translate_tss_rc T rc operation has_log error_event d =
     (if rc = rc_success T then (Inr (), [])
      else let layer = rc_layer T rc;
               mapped = translate_layer_base T layer (rc_base T rc layer)
           in (Inl (err (mapped_category mapped) (mapped_message mapped)),
               log_tss_error T has_log rc layer (mapped_category mapped) operation error_event d))"

text \<open>
  The two shorter overloads: the library's own decoder \<^verbatim>\<open>Tss2_RC_Decode\<close>, an argument of the model,
  and for the shortest the event of the context.
\<close>

definition translate_tss_rc_event ::
  "tss \<Rightarrow> decoder \<Rightarrow> u32 \<Rightarrow> string \<Rightarrow> bool \<Rightarrow> event_descriptor \<Rightarrow> unit outcome \<times> log_call list" where
  "translate_tss_rc_event T rc_decode rc operation has_log error_event =
     translate_tss_rc T rc operation has_log error_event rc_decode"

definition translate_tss_rc_default ::
  "tss \<Rightarrow> decoder \<Rightarrow> u32 \<Rightarrow> string \<Rightarrow> bool \<Rightarrow> unit outcome \<times> log_call list" where
  "translate_tss_rc_default T rc_decode rc operation has_log =
     translate_tss_rc T rc operation has_log ev_tss_error rc_decode"

lemma log_tss_error_in_vocabulary: "list_all in_vocabulary (log_tss_error T has_log rc layer cat operation event d)"
  by (simp add: log_tss_error_def emitted_in_vocabulary(2) log_field_keys_def)

section \<open>The mapping table\<close>

text \<open>The error a return code is mapped to, apart from logging.\<close>

definition rc_error :: "tss \<Rightarrow> u32 \<Rightarrow> mapped_error" where
  "rc_error T rc = translate_layer_base T (rc_layer T rc) (rc_base T rc (rc_layer T rc))"

lemma translate_tss_rc_eq:
  "translate_tss_rc T rc operation has_log event d =
     (if rc = rc_success T then (Inr (), [])
      else (Inl (err (mapped_category (rc_error T rc)) (mapped_message (rc_error T rc))),
            log_tss_error T has_log rc (rc_layer T rc) (mapped_category (rc_error T rc))
              operation event d))"
  by (simp add: translate_tss_rc_def rc_error_def Let_def)

lemmas mapped_defs = mapped_input_def mapped_security_def mapped_resource_def mapped_backend_def

lemma find_mapping_in:
  "find_mapping es l b = mapped_backend \<or> find_mapping es l b \<in> entry_error ` set es"
  by (induction es) auto

lemma documented_errors:
  "entry_error ` set (documented_mappings T) \<subseteq>
     {mapped_input, mapped_security, mapped_resource, mapped_backend}"
  by (simp add: documented_mappings_def map_entry_def)

lemma translate_layer_base_range:
  "translate_layer_base T l b \<in> {mapped_input, mapped_security, mapped_resource, mapped_backend}"
  using find_mapping_in [of "documented_mappings T" l b] documented_errors [of T]
  unfolding translate_layer_base_def by blast

lemma rc_error_range: "rc_error T rc \<in> {mapped_input, mapped_security, mapped_resource, mapped_backend}"
  unfolding rc_error_def by (rule translate_layer_base_range)

lemma rc_error_listed: "listed_category (mapped_category (rc_error T rc))"
  using rc_error_range [of T rc] by (auto simp: mapped_defs)

lemma find_mapping_distinct:
  "distinct (map (\<lambda>e. (entry_layer e, entry_base e)) es) \<Longrightarrow> e \<in> set es \<Longrightarrow>
   find_mapping es (entry_layer e) (entry_base e) = entry_error e"
  by (induction es) force+

lemma find_mapping_absent:
  "(l, b) \<notin> set (map (\<lambda>e. (entry_layer e, entry_base e)) es) \<Longrightarrow> find_mapping es l b = mapped_backend"
  by (induction es) auto

lemma rcs_facts:
  assumes "rcs_documented T"
  shows "rc_success T = 0" and "layer_mask T = 0xff0000" and "fmt1_flag T = 0x80"
    and "layer_code T TPM_layer = 0" and "layer_code T l AND 0xff0000 = layer_code T l"
    and "base_rc_code T b \<noteq> 0" and "base_rc_code T b < 0x10000"
    and "tpm_rc_code T c \<noteq> 0" and "tpm_rc_code T c < 0x10000"
    and "tpm_rc_code T c AND 0x80 = 0 \<or> tpm_rc_code T c AND 0xbf = tpm_rc_code T c"
  using assms by (cases "format_one c"; simp add: rcs_documented_def)+

lemma rcs_inj:
  assumes "rcs_documented T"
  shows "layer_code T a = layer_code T b \<longleftrightarrow> a = b"
    and "tpm_rc_code T c = tpm_rc_code T d \<longleftrightarrow> c = d"
    and "base_rc_code T e = base_rc_code T f \<longleftrightarrow> e = f"
  using assms by (auto simp: rcs_documented_def dest: injD)

lemma documented_distinct:
  "rcs_documented T \<Longrightarrow> distinct (map (\<lambda>e. (entry_layer e, entry_base e)) (documented_mappings T))"
  by (simp add: documented_mappings_def map_entry_def rcs_inj)

section \<open>Composition of a return code from its layer and base\<close>

lemma low16:
  assumes "(b :: u32) < 0x10000"
  shows "b AND 0xffff = b" and "b AND 0xff0000 = 0"
proof -
  have "unat b < 2 ^ 16" using assms by (simp add: word_less_nat_alt)
  then have "take_bit 16 b = b"
    by (intro word_unat_eq_iff [THEN iffD2]) (simp add: unsigned_take_bit_eq take_bit_nat_eq_self_iff)
  then show b: "b AND 0xffff = b"
    by (simp add: take_bit_eq_mask mask_eq_exp_minus_1)
  have "(b AND 0xffff) AND 0xff0000 = b AND (0xffff AND 0xff0000)"
    by (simp only: and.assoc)
  then show "b AND 0xff0000 = 0" by (simp add: b)
qed

lemma layer_low16: "(l :: u32) AND 0xff0000 = l \<Longrightarrow> l AND 0xffff = 0"
proof -
  assume l: "l AND 0xff0000 = l"
  have "(l AND 0xff0000) AND 0xffff = l AND (0xff0000 AND 0xffff)"
    by (simp only: and.assoc)
  then show ?thesis by (simp add: l)
qed

lemma compose_layer:
  assumes T: "rcs_documented T" and b: "b < 0x10000"
  shows "rc_layer T (layer_code T l OR b) = layer_code T l"
    and "(layer_code T l OR b) AND 0xffff = b"
  using low16 [OF b] layer_low16 [OF rcs_facts(5) [OF T, of l]] rcs_facts(2,5) [OF T]
  by (simp_all add: rc_layer_def bit.conj_disj_distrib2)

lemma mask_fold: "(w AND 0xffff) AND 0x80 = w AND (0x80 :: u32)" "(w AND 0xffff) AND 0xbf = w AND (0xbf :: u32)"
  by (simp_all add: and.assoc)

lemma rc_base_eq:
  assumes T: "rcs_documented T"
  shows "rc_base T rc layer =
     (if layer = layer_code T TPM_layer
      then (if rc AND 0x80 = 0 then rc AND 0xffff else rc AND 0xbf)
      else rc AND 0xffff)"
  by (simp add: rc_base_def normalize_tpm_base_def rcs_facts [OF T] Let_def mask_fold)

lemma tpm_code_composed:
  assumes T: "rcs_documented T"
  shows "rc_base T (layer_code T TPM_layer OR tpm_rc_code T c) (layer_code T TPM_layer) = tpm_rc_code T c"
  using rcs_facts(10) [OF T, of c] low16 [OF rcs_facts(9) [OF T, of c]]
  by (auto simp: rc_base_eq [OF T] rcs_facts(4) [OF T])

lemma base_code_composed:
  assumes "rcs_documented T" and "l \<noteq> TPM_layer"
  shows "rc_base T (layer_code T l OR base_rc_code T b) (layer_code T l) = base_rc_code T b"
  using assms(2) compose_layer(2) [OF assms(1) rcs_facts(7) [OF assms(1)]]
  by (simp add: rc_base_eq [OF assms(1)] rcs_inj [OF assms(1)])

definition entry_composed :: "tss \<Rightarrow> mapping_entry \<Rightarrow> bool" where
  "entry_composed T e \<longleftrightarrow>
     rc_layer T (entry_layer e OR entry_base e) = entry_layer e \<and>
     rc_base T (entry_layer e OR entry_base e) (entry_layer e) = entry_base e \<and>
     entry_layer e OR entry_base e \<noteq> rc_success T"

lemma entry_composed_tpm:
  assumes T: "rcs_documented T"
  shows "entry_composed T (map_entry (layer_code T TPM_layer) (tpm_rc_code T c) m)"
  using compose_layer(1) [OF T rcs_facts(9) [OF T], where l = TPM_layer] tpm_code_composed [OF T]
  by (simp add: entry_composed_def map_entry_def rcs_facts(1,4,8) [OF T])

lemma entry_composed_base:
  assumes T: "rcs_documented T" and "l \<noteq> TPM_layer"
  shows "entry_composed T (map_entry (layer_code T l) (base_rc_code T b) m)"
proof -
  note b = rcs_facts(7) [OF T, of b]
  have "layer_code T l OR base_rc_code T b \<noteq> 0"
    using compose_layer(2) [OF T b, of l] rcs_facts(6) [OF T, of b] by auto
  then show ?thesis
    using compose_layer(1) [OF T b] base_code_composed [OF assms]
    by (simp add: entry_composed_def map_entry_def rcs_facts(1) [OF T])
qed

lemma documented_composed:
  "rcs_documented T \<Longrightarrow> list_all (entry_composed T) (documented_mappings T)"
  by (simp add: documented_mappings_def entry_composed_tpm entry_composed_base)

lemma find_mapping_such:
  "distinct (map (\<lambda>e. (entry_layer e, entry_base e)) es) \<Longrightarrow> \<not> P mapped_backend \<Longrightarrow>
   P (find_mapping es l b) \<longleftrightarrow>
     (l, b) \<in> set (map (\<lambda>e. (entry_layer e, entry_base e)) (filter (\<lambda>e. P (entry_error e)) es))"
  by (induction es) (auto simp: image_iff)

lemma security_entries:
  "map (\<lambda>e. (entry_layer e, entry_base e))
     (filter (\<lambda>e. mapped_category (entry_error e) = security_failure) (documented_mappings T)) =
   [(layer_code T TPM_layer, tpm_rc_code T AUTH_FAIL), (layer_code T TPM_layer, tpm_rc_code T BAD_AUTH),
    (layer_code T TPM_layer, tpm_rc_code T LOCKOUT), (layer_code T TPM_layer, tpm_rc_code T POLICY_FAIL),
    (layer_code T ESAPI_layer, base_rc_code T RSP_AUTH_FAILED)]"
  by (simp add: documented_mappings_def map_entry_def mapped_defs)

lemma rc_error_security:
  assumes "rcs_documented T"
  shows "mapped_category (rc_error T rc) = security_failure \<longleftrightarrow>
     (rc_layer T rc, rc_base T rc (rc_layer T rc)) \<in>
       {(layer_code T TPM_layer, tpm_rc_code T AUTH_FAIL), (layer_code T TPM_layer, tpm_rc_code T BAD_AUTH),
        (layer_code T TPM_layer, tpm_rc_code T LOCKOUT), (layer_code T TPM_layer, tpm_rc_code T POLICY_FAIL),
        (layer_code T ESAPI_layer, base_rc_code T RSP_AUTH_FAILED)}"
  unfolding rc_error_def translate_layer_base_def
  by (subst find_mapping_such [OF documented_distinct [OF assms]])
     (simp_all only: security_entries list.set, simp add: mapped_defs)

section \<open>Selector bits of format-one codes\<close>

lemma selector_bits_base:
  assumes T: "rcs_documented T" and tpm: "rc_layer T rc = layer_code T TPM_layer"
    and fmt1: "rc AND 0x80 \<noteq> 0" and sel: "s AND 0xff40 = s"
  shows "rc_layer T (rc OR s) = rc_layer T rc"
    and "rc_base T (rc OR s) (rc_layer T rc) = rc_base T rc (rc_layer T rc)"
proof -
  have clear: "s AND m = 0" if "0xff40 AND m = (0 :: u32)" for m
  proof -
    have "(s AND 0xff40) AND m = s AND (0xff40 AND m)" by (simp only: and.assoc)
    with that sel show ?thesis by simp
  qed
  then show layer: "rc_layer T (rc OR s) = rc_layer T rc"
    by (simp add: rc_layer_def rcs_facts(2) [OF T] bit.conj_disj_distrib2)
  show "rc_base T (rc OR s) (rc_layer T rc) = rc_base T rc (rc_layer T rc)"
    using tpm fmt1 clear by (simp add: rc_base_eq [OF T] bit.conj_disj_distrib2)
qed

section \<open>The record logged for a failure\<close>

lemma sanitize_from_length: "length (sanitize_from i cs) \<le> max_description_size - i"
  by (induction i cs rule: sanitize_from.induct) auto

lemma sanitize_from_printable: "list_all is_printable_ascii (sanitize_from i cs)"
  by (induction i cs rule: sanitize_from.induct) (auto simp: is_printable_ascii_def)

lemma description_safe:
  "decode_backend_error_description rc d \<noteq> [] \<and>
   length (decode_backend_error_description rc d) \<le> 128 \<and>
   list_all is_printable_ascii (decode_backend_error_description rc d)"
  using sanitize_from_length [of 0] sanitize_from_printable [of 0]
  by (auto simp: decode_backend_error_description_def sanitized_backend_error_description_def Let_def
      unavailable_description_def is_printable_ascii_def max_description_size_def
      split: option.splits)

text \<open>Reading the hexadecimal code back.\<close>

definition hex_digit_number :: "char \<Rightarrow> nat" where
  "hex_digit_number c = (let n = of_char c in if n < 58 then n - 48 else n - 87)"

definition hex_number :: "string \<Rightarrow> nat" where
  "hex_number cs = foldl (\<lambda>acc c. 16 * acc + hex_digit_number c) 0 cs"

lemma hex_digit_number_digit: "k < 16 \<Longrightarrow> hex_digit_number (hex_digits ! k) = k"
  by (auto simp: hex_digits_nth hex_digit_number_def Let_def)

lemma unat_nibble: "unat (drop_bit n (rc :: u32) AND 0x0f) = unat rc div 2 ^ n mod 16"
  by (simp only: unat_low_bits unat_drop_bit_eq) (simp add: drop_bit_eq_div)

lemma format_hex_number: "hex_number (drop 2 (format_hex rc)) = unat rc"
proof -
  let ?n = "unat rc"
  have top: "?n div 268435456 < 16"
    using unat_u32_less [of rc] by linarith
  have step: "16 * (?n div (16 * d)) + ?n div d mod 16 = ?n div d" for d
    by (metis div_mult2_eq mult.commute mult_div_mod_eq)
  show ?thesis
    unfolding format_hex_def hex_number_def
    using step [of 1] step [of 16] step [of 256] step [of 4096] step [of 65536] step [of 1048576]
      step [of 16777216] top
    by (simp add: hex_digit_number_digit unat_nibble)
qed

section \<open>Properties\<close>

text \<open>
  Every row of the mapping table is effective: a return code composed of the row's layer and
  base code is translated to the row's error, no earlier row shadows it, and normalization of
  format-one codes leaves it as it is.
\<close>
theorem documented_rows_effective:
  assumes "rcs_documented T" and "e \<in> set (documented_mappings T)"
  shows "fst (translate_tss_rc T (entry_layer e OR entry_base e) op has_log event d) =
    Inl (err (mapped_category (entry_error e)) (mapped_message (entry_error e)))"
proof -
  have "entry_composed T e"
    using documented_composed [OF assms(1)] assms(2) by (simp add: list_all_iff)
  then show ?thesis
    using find_mapping_distinct [OF documented_distinct [OF assms(1)] assms(2)]
    by (simp add: translate_tss_rc_eq rc_error_def translate_layer_base_def entry_composed_def)
qed

lemma documented_rows_effective_witness:
  "fst (translate_tss_rc tss_4_1 (0 OR 0x921) ''startup'' True ev_tss_error None) =
     Inl (err security_failure ''TPM verification failed'')"
  using documented_rows_effective [of tss_4_1 "map_entry 0 0x921 mapped_security" "''startup''" True
      ev_tss_error None]
  by (simp add: documented_mappings_def map_entry_def tss_4_1_fields mapped_security_def)

text \<open>
  C15: A failure is a verification failure exactly for the authorization, policy and lockout codes
  of the TPM layer, whatever parameter or session selector a format-one code carries, and for the
  response authorization failure of the ESAPI layer; no other code claims it.
\<close>
theorem security_failures_exact:
  assumes "rcs_documented T" and "rc \<noteq> rc_success T"
  shows "fst (translate_tss_rc T rc op has_log event d) = Inl (err security_failure ''TPM verification failed'')
     \<longleftrightarrow> (let base = (if rc AND 0x80 = 0 then rc AND 0xffff else rc AND 0xbf) in
          rc AND 0xff0000 = 0 \<and>
            base \<in> {tpm_rc_code T AUTH_FAIL, tpm_rc_code T BAD_AUTH, tpm_rc_code T LOCKOUT,
                    tpm_rc_code T POLICY_FAIL} \<or>
          rc AND 0xff0000 = layer_code T ESAPI_layer \<and> rc AND 0xffff = base_rc_code T RSP_AUTH_FAILED)"
proof -
  have "fst (translate_tss_rc T rc op has_log event d) = Inl (err security_failure ''TPM verification failed'')
     \<longleftrightarrow> mapped_category (rc_error T rc) = security_failure"
    using assms(2) rc_error_range [of T rc] by (auto simp: translate_tss_rc_eq mapped_defs)
  moreover have "layer_code T ESAPI_layer \<noteq> 0"
    using rcs_inj(1) [OF assms(1), of ESAPI_layer TPM_layer] rcs_facts(4) [OF assms(1)] by simp
  ultimately show ?thesis
    using rc_error_security [OF assms(1), of rc] rcs_facts(2,4) [OF assms(1)]
    by (auto simp: rc_layer_def rc_base_eq [OF assms(1)] Let_def)
qed

lemma security_failures_exact_witness:
  "fst (translate_tss_rc tss_4_1 0x98e ''pcr_extend'' False ev_pcr_tss_error None) =
     Inl (err security_failure ''TPM verification failed'')"
  by (subst security_failures_exact) (simp_all add: tss_4_1_fields Let_def)

text \<open>
  C17: The selector bits of a format-one code (the handle, session or parameter number in bits 6
  and 8 to 11 of the response code, and every other bit above the base) do not change the error it
  is translated to.
\<close>
theorem selector_bits_ignored:
  assumes "rcs_documented T" and "rc AND 0xff0000 = 0" and "rc AND 0x80 \<noteq> 0" and "s AND 0xff40 = s"
    and "rc \<noteq> rc_success T" and "rc OR s \<noteq> rc_success T"
  shows "fst (translate_tss_rc T (rc OR s) op has_log event d) = fst (translate_tss_rc T rc op has_log event d)"
  using assms(5,6) selector_bits_base [OF assms(1) _ assms(3,4)] assms(2) rcs_facts(2,4) [OF assms(1)]
  by (simp add: translate_tss_rc_eq rc_error_def rc_layer_def)

lemma selector_bits_ignored_witness:
  "fst (translate_tss_rc tss_4_1 (0x8e OR 0x940) ''pcr_reset'' True ev_pcr_tss_error None) =
     fst (translate_tss_rc tss_4_1 0x8e ''pcr_reset'' True ev_pcr_tss_error None)"
  by (rule selector_bits_ignored) (simp_all, simp_all add: tss_4_1_fields)

text \<open>
  C16: A failed call is reported in one error record: it names the event, the operation, the
  category of the error that is returned and the exact return code, and its description of the
  back end is printable ASCII, never empty and at most 128 characters long, whatever the decoder
  returns.
\<close>
theorem failure_record_faithful:
  assumes "rc \<noteq> rc_success T"
  shows "\<exists>e c code desc. translate_tss_rc T rc op True event d = (Inl e, [c]) \<and>
    listed_category (category e) \<and> call_level c = error_level \<and>
    field_lookup ''event'' c = Some (event_name event) \<and> field_lookup ''outcome'' c = Some ''failure'' \<and>
    field_lookup ''operation'' c = Some op \<and>
    field_lookup ''error_category'' c = Some (error_category_name (category e)) \<and>
    field_lookup ''error_code'' c = Some code \<and> hex_number (drop 2 code) = unat rc \<and>
    field_lookup ''backend_error_description'' c = Some desc \<and>
    desc \<noteq> [] \<and> length desc \<le> 128 \<and> list_all is_printable_ascii desc"
proof -
  have "category_name c = error_category_name c" if "listed_category c" for c
    using that by (cases c) simp_all
  then show ?thesis
    using assms description_safe [of rc d] rc_error_listed [of T rc]
    by (simp add: translate_tss_rc_eq log_tss_error_def emit_failure_record_eq field_lookup_def
        format_hex_number)
qed

lemma failure_record_faithful_witness:
  "\<exists>e c code desc. translate_tss_rc tss_4_1 0x70007 ''pcr_read'' True ev_pcr_tss_error (Some (\<lambda>_. Some [CHR 0x07])) = (Inl e, [c]) \<and>
    listed_category (category e) \<and> call_level c = error_level \<and>
    field_lookup ''event'' c = Some (event_name ev_pcr_tss_error) \<and> field_lookup ''outcome'' c = Some ''failure'' \<and>
    field_lookup ''operation'' c = Some ''pcr_read'' \<and>
    field_lookup ''error_category'' c = Some (error_category_name (category e)) \<and>
    field_lookup ''error_code'' c = Some code \<and> hex_number (drop 2 code) = unat (0x70007 :: u32) \<and>
    field_lookup ''backend_error_description'' c = Some desc \<and>
    desc \<noteq> [] \<and> length desc \<le> 128 \<and> list_all is_printable_ascii desc"
  by (rule failure_record_faithful) (simp add: tss_4_1_fields)

end
