(* ===== verification/Esys_Api.thy ===== *)
theory Esys_Api
  imports Error_Translation
begin

text \<open>
  \<^verbatim>\<open>src/adapters/tpm2_esys/support/esys_api.h\<close> and \<^verbatim>\<open>esys_api.cpp\<close>: the table of function
  pointers through which the adapter reaches the ESYS library. The library itself is third-party
  code: it is a record of functions over an arbitrary state \<open>'b\<close>, an argument of the model. An
  in/out or out parameter of the C function is a component of its result; a pointer is an
  optional address, and a pointer to a structure the library allocated comes with the structure.

  The state of the world is the library's own state and the list of the externally visible
  actions so far: log records, observer calls, library calls, buffers handed back.
\<close>

type_synonym ptr = "nat option"

type_synonym 'a buffer = "(nat \<times> 'a) option"

record allocate_out =
  out_success :: byte
  out_max_pcr :: u32
  out_size_needed :: u32
  out_size_available :: u32

record read_out =
  out_update_counter :: u32
  out_selection :: "tpml_pcr_selection buffer"
  out_values :: "tpml_digest buffer"

record 'b esys_api =
  api_initialize :: "ptr \<Rightarrow> abi_version \<Rightarrow> 'b \<Rightarrow> (u32 \<times> ptr \<times> abi_version) \<times> 'b"
  api_finalize :: "ptr \<Rightarrow> 'b \<Rightarrow> 'b"
  api_free :: "ptr \<Rightarrow> 'b \<Rightarrow> 'b"
  api_pcr_allocate :: "ptr \<Rightarrow> u32 \<Rightarrow> u32 \<Rightarrow> u32 \<Rightarrow> u32 \<Rightarrow> tpml_pcr_selection \<Rightarrow> allocate_out \<Rightarrow> 'b \<Rightarrow>
    (u32 \<times> allocate_out) \<times> 'b"
  api_pcr_event :: "ptr \<Rightarrow> u32 \<Rightarrow> u32 \<Rightarrow> u32 \<Rightarrow> u32 \<Rightarrow> tpm2b \<Rightarrow> 'b \<Rightarrow>
    (u32 \<times> tpml_digest_values buffer) \<times> 'b"
  api_pcr_extend :: "ptr \<Rightarrow> u32 \<Rightarrow> u32 \<Rightarrow> u32 \<Rightarrow> u32 \<Rightarrow> tpml_digest_values \<Rightarrow> 'b \<Rightarrow> u32 \<times> 'b"
  api_pcr_read :: "ptr \<Rightarrow> u32 \<Rightarrow> u32 \<Rightarrow> u32 \<Rightarrow> tpml_pcr_selection \<Rightarrow> read_out \<Rightarrow> 'b \<Rightarrow>
    (u32 \<times> read_out) \<times> 'b"
  api_pcr_reset :: "ptr \<Rightarrow> u32 \<Rightarrow> u32 \<Rightarrow> u32 \<Rightarrow> u32 \<Rightarrow> 'b \<Rightarrow> u32 \<times> 'b"
  api_pcr_set_auth_policy :: "ptr \<Rightarrow> u32 \<Rightarrow> u32 \<Rightarrow> u32 \<Rightarrow> u32 \<Rightarrow> tpm2b \<Rightarrow> u16 \<Rightarrow> u32 \<Rightarrow> 'b \<Rightarrow> u32 \<times> 'b"
  api_pcr_set_auth_value :: "ptr \<Rightarrow> u32 \<Rightarrow> u32 \<Rightarrow> u32 \<Rightarrow> u32 \<Rightarrow> tpm2b \<Rightarrow> 'b \<Rightarrow> u32 \<times> 'b"
  api_startup :: "ptr \<Rightarrow> u16 \<Rightarrow> 'b \<Rightarrow> u32 \<times> 'b"
  api_tr_set_auth :: "ptr \<Rightarrow> u32 \<Rightarrow> tpm2b \<Rightarrow> 'b \<Rightarrow> u32 \<times> 'b"
  api_decode_error :: decoder

section \<open>The default table\<close>

text \<open>
  The wrappers of the unnamed namespace. \<open>lib\<close> is the record of the library's own functions
  \<^verbatim>\<open>Esys_Initialize\<close>, \<^verbatim>\<open>Esys_Finalize\<close>, \dots, \<^verbatim>\<open>Tss2_RC_Decode\<close>.
\<close>

definition wrap_initialize ::
  "'b esys_api \<Rightarrow> ptr \<Rightarrow> abi_version \<Rightarrow> 'b \<Rightarrow> (u32 \<times> ptr \<times> abi_version) \<times> 'b" where
  "wrap_initialize lib tcti version = api_initialize lib tcti version"

definition wrap_finalize :: "'b esys_api \<Rightarrow> ptr \<Rightarrow> 'b \<Rightarrow> 'b" where
  "wrap_finalize lib esys_context = api_finalize lib esys_context"

definition free_esys :: "'b esys_api \<Rightarrow> ptr \<Rightarrow> 'b \<Rightarrow> 'b" where
  "free_esys lib p = api_free lib p"

definition wrap_pcr_allocate where
  "wrap_pcr_allocate lib esys_context auth_handle shandle1 shandle2 shandle3 allocation out =
     api_pcr_allocate lib esys_context auth_handle shandle1 shandle2 shandle3 allocation out"

definition wrap_pcr_event where
  "wrap_pcr_event lib esys_context handle shandle1 shandle2 shandle3 event_data =
     api_pcr_event lib esys_context handle shandle1 shandle2 shandle3 event_data"

definition wrap_pcr_extend where
  "wrap_pcr_extend lib esys_context handle shandle1 shandle2 shandle3 digests =
     api_pcr_extend lib esys_context handle shandle1 shandle2 shandle3 digests"

definition wrap_pcr_read where
  "wrap_pcr_read lib esys_context shandle1 shandle2 shandle3 selection_in out =
     api_pcr_read lib esys_context shandle1 shandle2 shandle3 selection_in out"

definition wrap_pcr_reset where
  "wrap_pcr_reset lib esys_context handle shandle1 shandle2 shandle3 =
     api_pcr_reset lib esys_context handle shandle1 shandle2 shandle3"

definition wrap_pcr_set_auth_policy where
  "wrap_pcr_set_auth_policy lib esys_context auth_handle shandle1 shandle2 shandle3 auth_policy
     alg pcr_num =
   api_pcr_set_auth_policy lib esys_context auth_handle shandle1 shandle2 shandle3 auth_policy
     alg pcr_num"

definition wrap_pcr_set_auth_value where
  "wrap_pcr_set_auth_value lib esys_context handle shandle1 shandle2 shandle3 auth =
     api_pcr_set_auth_value lib esys_context handle shandle1 shandle2 shandle3 auth"

definition wrap_startup where
  "wrap_startup lib esys_context startup_type = api_startup lib esys_context startup_type"

definition wrap_tr_set_auth where
  "wrap_tr_set_auth lib esys_context handle auth_value =
     api_tr_set_auth lib esys_context handle auth_value"

definition default_esys_api :: "'b esys_api \<Rightarrow> 'b esys_api" where
  "default_esys_api lib =
     \<lparr>api_initialize = wrap_initialize lib, api_finalize = wrap_finalize lib,
      api_free = free_esys lib, api_pcr_allocate = wrap_pcr_allocate lib,
      api_pcr_event = wrap_pcr_event lib, api_pcr_extend = wrap_pcr_extend lib,
      api_pcr_read = wrap_pcr_read lib, api_pcr_reset = wrap_pcr_reset lib,
      api_pcr_set_auth_policy = wrap_pcr_set_auth_policy lib,
      api_pcr_set_auth_value = wrap_pcr_set_auth_value lib,
      api_startup = wrap_startup lib, api_tr_set_auth = wrap_tr_set_auth lib,
      api_decode_error = api_decode_error lib\<rparr>"

lemma default_esys_api_forwards: "default_esys_api lib = lib"
  by (cases lib) (simp add: default_esys_api_def fun_eq_iff wrap_initialize_def wrap_finalize_def
      free_esys_def wrap_pcr_allocate_def wrap_pcr_event_def wrap_pcr_extend_def wrap_pcr_read_def
      wrap_pcr_reset_def wrap_pcr_set_auth_policy_def wrap_pcr_set_auth_value_def wrap_startup_def
      wrap_tr_set_auth_def)

section \<open>The world and its visible actions\<close>

text \<open>
  The calls of the TCTI loader library, of the allocator and of a deleter the caller supplied stand
  beside those of ESYS; \<open>Calloc\<close> and \<open>Esys_Initialize\<close> carry the pointer they produced.
\<close>

datatype esys_command =
    Tcti_GetInfo string
  | Tcti_FreeInfo ptr
  | Tcti_Init ptr u64 "string option"
  | Tcti_Finalize ptr
  | Calloc u64 ptr
  | Free ptr
  | Owner_Delete nat ptr
  | Esys_Initialize ptr ptr
  | Esys_Finalize ptr
  | Esys_Startup ptr u16
  | Esys_PCR_Allocate ptr u32 u32 u32 u32 tpml_pcr_selection
  | Esys_PCR_Event ptr u32 u32 u32 u32 tpm2b
  | Esys_PCR_Extend ptr u32 u32 u32 u32 tpml_digest_values
  | Esys_PCR_Read ptr u32 u32 u32 tpml_pcr_selection
  | Esys_PCR_Reset ptr u32 u32 u32 u32
  | Esys_PCR_SetAuthPolicy ptr u32 u32 u32 u32 tpm2b u16 u32
  | Esys_PCR_SetAuthValue ptr u32 u32 u32 u32 tpm2b
  | Esys_TR_SetAuth ptr u32 tpm2b

datatype 'e action =
    Logged log_call
  | Called esys_command
  | Freed nat
  | Notified 'e

record ('b, 'e) world =
  backend :: 'b
  actions :: "'e action list"

definition act :: "'e action \<Rightarrow> ('b, 'e) world \<Rightarrow> ('b, 'e) world" where
  "act a w = w\<lparr>actions := actions w @ [a]\<rparr>"

definition write_log :: "log_call list \<Rightarrow> ('b, 'e) world \<Rightarrow> ('b, 'e) world" where
  "write_log cs w = w\<lparr>actions := actions w @ map Logged cs\<rparr>"

text \<open>A call through the table.\<close>

definition invoke :: "esys_command \<Rightarrow> ('b \<Rightarrow> 'r \<times> 'b) \<Rightarrow> ('b, 'e) world \<Rightarrow> 'r \<times> ('b, 'e) world" where
  "invoke c f w =
     (let (r, b) = f (backend w) in (r, w\<lparr>backend := b, actions := actions w @ [Called c]\<rparr>))"

text \<open>The end of the scope of a \<^verbatim>\<open>std::unique_ptr\<close> whose deleter is \<^verbatim>\<open>api.free\<close>.\<close>

fun release_buffer :: "'b esys_api \<Rightarrow> 'a buffer \<Rightarrow> ('b, 'e) world \<Rightarrow> ('b, 'e) world" where
  "release_buffer api None w = w"
| "release_buffer api (Some (p, x)) w =
     w\<lparr>backend := api_free api (Some p) (backend w), actions := actions w @ [Freed p]\<rparr>"

text \<open>
  \<^verbatim>\<open>esys_context_deleter\<close>; an \<open>api\<close> of \<open>None\<close> is the null pointer. The function pointers of a
  table are never null in this model.
\<close>

definition esys_context_delete :: "'b esys_api option \<Rightarrow> ptr \<Rightarrow> ('b, 'e) world \<Rightarrow> ('b, 'e) world" where
  "esys_context_delete api context w =
     (case api of
        None \<Rightarrow> w
      | Some a \<Rightarrow>
          if context = None then w
          else w\<lparr>backend := api_finalize a context (backend w),
                 actions := actions w @ [Called (Esys_Finalize context)]\<rparr>)"

section \<open>Early returns over the world\<close>

text \<open>The three ways a statement ends the enclosing function, with the world so far.\<close>

type_synonym ('b, 'e, 'a) operation = "('b, 'e) world \<Rightarrow> 'a call \<times> ('b, 'e) world"

definition ensure :: "unit outcome \<Rightarrow> ('b, 'e, 'a) operation \<Rightarrow> ('b, 'e, 'a) operation" where
  "ensure check rest w = (case check of Inl e \<Rightarrow> (fails e, w) | Inr _ \<Rightarrow> rest w)"

definition compute :: "fault + 'x \<Rightarrow> ('x \<Rightarrow> ('b, 'e, 'a) operation) \<Rightarrow> ('b, 'e, 'a) operation" where
  "compute m rest w = (case m of Inl f \<Rightarrow> (Inl f, w) | Inr x \<Rightarrow> rest x w)"

definition attempt :: "'x call \<Rightarrow> ('x \<Rightarrow> ('b, 'e, 'a) operation) \<Rightarrow> ('b, 'e, 'a) operation" where
  "attempt m rest w =
     (case m of
        Inl f \<Rightarrow> (Inl f, w)
      | Inr (Inl e) \<Rightarrow> (fails e, w)
      | Inr (Inr x) \<Rightarrow> rest x w)"

definition yields :: "'a call \<Rightarrow> ('b, 'e, 'a) operation" where
  "yields r w = (r, w)"

lemma ensure_simps [simp]:
  "ensure (Inr u) rest w = rest w" "ensure (Inl e) rest w = (fails e, w)"
  by (simp_all add: ensure_def)

lemma compute_simps [simp]:
  "compute (Inr x) rest w = rest x w" "compute (Inl f) rest w = (Inl f, w)"
  by (simp_all add: compute_def)

lemma attempt_simps [simp]:
  "attempt (returns x) rest w = rest x w" "attempt (fails e) rest w = (fails e, w)"
  "attempt (Inl f) rest w = (Inl f, w)"
  by (simp_all add: attempt_def)

lemma yields_simp [simp]: "yields r w = (r, w)"
  by (simp add: yields_def)

lemma actions_simps [simp]:
  "actions (write_log cs w) = actions w @ map Logged cs"
  "actions (act a w) = actions w @ [a]"
  "actions (release_buffer api buf w) = actions w @ (case buf of None \<Rightarrow> [] | Some (p, x) \<Rightarrow> [Freed p])"
  "actions (snd (invoke c f w)) = actions w @ [Called c]"
  "fst (invoke c f w) = fst (f (backend w))"
  by (simp_all add: write_log_def act_def invoke_def split: option.splits prod.splits)

text \<open>The actions of one kind in a trace.\<close>

definition notifications :: "'e action list \<Rightarrow> 'e list" where
  "notifications as = concat (map (\<lambda>a. case a of Notified n \<Rightarrow> [n] | _ \<Rightarrow> []) as)"

definition commands :: "'e action list \<Rightarrow> esys_command list" where
  "commands as = concat (map (\<lambda>a. case a of Called c \<Rightarrow> [c] | _ \<Rightarrow> []) as)"

definition records :: "'e action list \<Rightarrow> log_call list" where
  "records as = concat (map (\<lambda>a. case a of Logged c \<Rightarrow> [c] | _ \<Rightarrow> []) as)"

definition handed_back :: "'e action list \<Rightarrow> nat list" where
  "handed_back as = concat (map (\<lambda>a. case a of Freed x \<Rightarrow> [x] | _ \<Rightarrow> []) as)"

lemma action_kinds [simp]:
  "notifications [] = []" "commands [] = []" "records [] = []" "handed_back [] = []"
  "notifications (Logged c # as) = notifications as" "commands (Logged c # as2) = commands as2"
  "notifications (Called d # as) = notifications as" "commands (Called d # as2) = d # commands as2"
  "notifications (Freed x # as) = notifications as" "commands (Freed x # as2) = commands as2"
  "notifications (Notified n # as) = n # notifications as" "commands (Notified m # as2) = commands as2"
  "records (Logged c # as2) = c # records as2" "handed_back (Logged c # as2) = handed_back as2"
  "records (Called d # as2) = records as2" "handed_back (Called d # as2) = handed_back as2"
  "records (Freed x # as2) = records as2" "handed_back (Freed x # as2) = x # handed_back as2"
  "records (Notified m # as2) = records as2" "handed_back (Notified m # as2) = handed_back as2"
  "notifications (as @ bs) = notifications as @ notifications bs"
  "commands (as2 @ bs2) = commands as2 @ commands bs2"
  "records (as2 @ bs2) = records as2 @ records bs2"
  "handed_back (as2 @ bs2) = handed_back as2 @ handed_back bs2"
  by (simp_all add: notifications_def commands_def records_def handed_back_def)

lemma action_kinds_logged [simp]:
  "notifications (map Logged cs) = []" "commands (map Logged cs) = []"
  "records (map Logged cs) = cs" "handed_back (map Logged cs) = []"
  by (induction cs) simp_all

end
