(* ===== verification/Tcti_Loader.thy ===== *)
theory Tcti_Loader
  imports Esys_Api
begin

text \<open>
  \<^verbatim>\<open>src/adapters/tpm2_esys/context/tcti_loader.cpp\<close>: validation of a TCTI configuration string and
  the loading of the TCTI it names. The TCTI loader library and the allocator are third-party code:
  records of functions, arguments of the model. \<^verbatim>\<open>std::size_t\<close> has 64 bits. Strings are passed to
  the library as C strings, up to their first NUL.
\<close>

record 'b tcti_loader_api =
  ld_get_info :: "string \<Rightarrow> 'b \<Rightarrow> (u32 \<times> ptr) \<times> 'b"
  ld_free_info :: "ptr \<Rightarrow> 'b \<Rightarrow> 'b"
  ld_init :: "ptr \<Rightarrow> u64 \<Rightarrow> string option \<Rightarrow> 'b \<Rightarrow> (u32 \<times> u64) \<times> 'b"
  ld_decode_error :: decoder

text \<open>
  The functions called by name: \<^verbatim>\<open>Tss2_TctiLdr_Finalize\<close>, which may null the pointer it is given,
  \<^verbatim>\<open>std::calloc\<close>, \<^verbatim>\<open>std::free\<close>, and the deleters that callers supply, by address.
\<close>

record 'b host =
  tctildr_finalize :: "ptr \<Rightarrow> 'b \<Rightarrow> ptr \<times> 'b"
  host_calloc :: "u64 \<Rightarrow> 'b \<Rightarrow> ptr \<times> 'b"
  host_free :: "ptr \<Rightarrow> 'b \<Rightarrow> 'b"
  owner_deleter :: "nat \<Rightarrow> ptr \<Rightarrow> 'b \<Rightarrow> 'b"

definition tcti_invalid_message :: string where
  "tcti_invalid_message = ''TCTI configuration must use name:args format''"

section \<open>The configuration string\<close>

text \<open>\<^verbatim>\<open>std::isspace\<close> in the C locale.\<close>

definition is_space :: "char \<Rightarrow> bool" where
  "is_space c \<longleftrightarrow> (let n = (of_char c :: nat) in n = 32 \<or> 9 \<le> n \<and> n \<le> 13)"

function trim_first :: "string \<Rightarrow> nat \<Rightarrow> nat \<Rightarrow> nat" where
  "trim_first value lo hi =
     (if lo < hi \<and> is_space (value ! lo) then trim_first value (lo + 1) hi else lo)"
  by pat_completeness auto
termination by (relation "measure (\<lambda>(value, lo, hi). hi - lo)") auto

function trim_last :: "string \<Rightarrow> nat \<Rightarrow> nat \<Rightarrow> nat" where
  "trim_last value lo hi =
     (if hi > lo \<and> is_space (value ! (hi - 1)) then trim_last value lo (hi - 1) else hi)"
  by pat_completeness auto
termination by (relation "measure (\<lambda>(value, lo, hi). hi)") auto

declare trim_first.simps [simp del] trim_last.simps [simp del]

definition trim :: "string \<Rightarrow> string" where
  "trim value =
     (let lo = trim_first value 0 (length value);
          hi = trim_last value lo (length value)
      in take (hi - lo) (drop lo value))"

definition has_name_args_shape :: "string \<Rightarrow> bool" where
  "has_name_args_shape value \<longleftrightarrow>
     (case find_char (CHR '':'') value of None \<Rightarrow> False | Some colon \<Rightarrow> colon > 0)"

text \<open>\<^verbatim>\<open>substr(0, npos)\<close> is the whole string.\<close>

definition tcti_name :: "string \<Rightarrow> string" where
  "tcti_name value =
     (case find_char (CHR '':'') value of None \<Rightarrow> value | Some colon \<Rightarrow> take colon value)"

definition validate_config :: "string \<Rightarrow> string outcome" where
  "validate_config config =
     (let trimmed = trim config in
      if trimmed = [] then Inl (err input_error tcti_invalid_message)
      else if length trimmed \<noteq> length config then Inl (err input_error tcti_invalid_message)
      else if \<not> has_name_args_shape trimmed then Inl (err input_error tcti_invalid_message)
      else Inr trimmed)"

section \<open>Owners of a TCTI context\<close>

datatype tcti_deleter =
    Finalize_loaded_tcti
  | Release_failed_tcti_init
  | Owner_supplied nat

record tcti_handle =
  tcti_pointer :: ptr
  tcti_delete_with :: tcti_deleter

definition finalize_loaded_tcti :: "'b host \<Rightarrow> ptr \<Rightarrow> ('b, 'e) world \<Rightarrow> ('b, 'e) world" where
  "finalize_loaded_tcti H context w = snd (invoke (Tcti_Finalize context) (tctildr_finalize H context) w)"

definition release_failed_tcti_init :: "'b host \<Rightarrow> ptr \<Rightarrow> ('b, 'e) world \<Rightarrow> ('b, 'e) world" where
  "release_failed_tcti_init H context w =
     (if context = None then w
      else let (cleanup_context, w) = invoke (Tcti_Finalize context) (tctildr_finalize H context) w
           in if cleanup_context \<noteq> None
              then snd (invoke (Free cleanup_context) (\<lambda>b. ((), host_free H cleanup_context b)) w)
              else w)"

text \<open>The destructor of \<^verbatim>\<open>unique_tcti_ptr\<close>.\<close>

definition delete_tcti :: "'b host \<Rightarrow> tcti_handle \<Rightarrow> ('b, 'e) world \<Rightarrow> ('b, 'e) world" where
  "delete_tcti H h w =
     (if tcti_pointer h = None then w
      else case tcti_delete_with h of
        Finalize_loaded_tcti \<Rightarrow> finalize_loaded_tcti H (tcti_pointer h) w
      | Release_failed_tcti_init \<Rightarrow> release_failed_tcti_init H (tcti_pointer h) w
      | Owner_supplied f \<Rightarrow>
          snd (invoke (Owner_Delete f (tcti_pointer h))
                 (\<lambda>b. ((), owner_deleter H f (tcti_pointer h) b)) w))"

section \<open>The default table\<close>

definition get_tcti_info :: "'b tcti_loader_api \<Rightarrow> string \<Rightarrow> 'b \<Rightarrow> (u32 \<times> ptr) \<times> 'b" where
  "get_tcti_info lib name = ld_get_info lib name"

definition free_tcti_loader_info :: "'b tcti_loader_api \<Rightarrow> ptr \<Rightarrow> 'b \<Rightarrow> 'b" where
  "free_tcti_loader_info lib tcti_info = ld_free_info lib tcti_info"

definition initialize_tcti_loader ::
  "'b tcti_loader_api \<Rightarrow> ptr \<Rightarrow> u64 \<Rightarrow> string option \<Rightarrow> 'b \<Rightarrow> (u32 \<times> u64) \<times> 'b" where
  "initialize_tcti_loader lib context sz conf = ld_init lib context sz conf"

definition default_tcti_loader_api :: "'b tcti_loader_api \<Rightarrow> 'b tcti_loader_api" where
  "default_tcti_loader_api lib =
     \<lparr>ld_get_info = get_tcti_info lib, ld_free_info = free_tcti_loader_info lib,
      ld_init = initialize_tcti_loader lib, ld_decode_error = ld_decode_error lib\<rparr>"

lemma default_tcti_loader_api_forwards: "default_tcti_loader_api lib = lib"
  by (cases lib) (simp add: default_tcti_loader_api_def fun_eq_iff get_tcti_info_def
      free_tcti_loader_info_def initialize_tcti_loader_def)

section \<open>Loading\<close>

text \<open>A failed call during the creation of a context: translate, log, return the error.\<close>

definition report_context_failure ::
  "tss \<Rightarrow> decoder \<Rightarrow> u32 \<Rightarrow> string \<Rightarrow> ('b, 'e, 'a) operation" where
  "report_context_failure T d rc op w =
     (let (translated, records) = translate_tss_rc T rc op True ev_tss_error d;
          w = write_log records w
      in case translated of Inl e \<Rightarrow> (fails e, w) | Inr _ \<Rightarrow> (Inl bad_dereference, w))"

definition allocate_tcti_loader_context ::
  "tss \<Rightarrow> 'b host \<Rightarrow> 'b tcti_loader_api \<Rightarrow> ('b, 'e, tcti_handle \<times> u64) operation" where
  "allocate_tcti_loader_context T H api w =
     (let (reply, w) = invoke (Tcti_Init None 0 None) (ld_init api None 0 None) w;
          rc = fst reply; context_size = snd reply
      in if rc \<noteq> rc_success T
         then report_context_failure T (ld_decode_error api) rc ''tcti_init'' w
         else if context_size = 0
         then (fails (err backend_error ''TCTI loader returned invalid context size''), w)
         else let (storage, b) = host_calloc H context_size (backend w);
                  w = act (Called (Calloc context_size storage)) (w\<lparr>backend := b\<rparr>)
              in if storage = None
                 then (fails (err resource_error ''TCTI loader context allocation failed''), w)
                 else (returns (\<lparr>tcti_pointer = storage, tcti_delete_with = Release_failed_tcti_init\<rparr>,
                                context_size), w))"

definition load_tcti ::
  "tss \<Rightarrow> 'b host \<Rightarrow> 'b tcti_loader_api \<Rightarrow> string \<Rightarrow> ('b, 'e, tcti_handle) operation" where
  "load_tcti T H api config w =
     (case validate_config config of
        Inl e \<Rightarrow> (fails e, w)
      | Inr validated \<Rightarrow>
          let name = c_str (tcti_name validated);
              (reply, w) = invoke (Tcti_GetInfo name) (ld_get_info api name) w;
              info_rc = fst reply; tcti_info = snd reply;
              (u, w) = invoke (Tcti_FreeInfo tcti_info) (\<lambda>b. ((), ld_free_info api tcti_info b)) w
          in if info_rc \<noteq> rc_success T
             then let (translated, records) =
                        translate_tss_rc T info_rc ''tcti_init'' True ev_tss_error (ld_decode_error api)
                  in (fails (err input_error ''Unknown TCTI name''), write_log records w)
             else
               (case allocate_tcti_loader_context T H api w of
                  (Inl f, w) \<Rightarrow> (Inl f, w)
                | (Inr (Inl e), w) \<Rightarrow> (fails e, w)
                | (Inr (Inr (pending, sz)), w) \<Rightarrow>
                    let conf = Some (c_str validated);
                        (reply, w) = invoke (Tcti_Init (tcti_pointer pending) sz conf)
                                       (ld_init api (tcti_pointer pending) sz conf) w;
                        rc = fst reply
                    in if rc \<noteq> rc_success T
                       then let (r, w) = report_context_failure T (ld_decode_error api) rc ''tcti_init'' w
                            in (r, delete_tcti H pending w)
                       else (returns \<lparr>tcti_pointer = tcti_pointer pending,
                                      tcti_delete_with = Finalize_loaded_tcti\<rparr>, w)))"

text \<open>The overload without a table takes the library's own.\<close>

definition load_tcti_default ::
  "tss \<Rightarrow> 'b host \<Rightarrow> 'b tcti_loader_api \<Rightarrow> string \<Rightarrow> ('b, 'e, tcti_handle) operation" where
  "load_tcti_default T H lib config = load_tcti T H (default_tcti_loader_api lib) config"

section \<open>What is accepted\<close>

lemma trim_first_range: "lo \<le> hi \<Longrightarrow> lo \<le> trim_first v lo hi \<and> trim_first v lo hi \<le> hi"
proof (induction v lo hi rule: trim_first.induct)
  case (1 v lo hi)
  show ?case
  proof (cases "lo < hi \<and> is_space (v ! lo)")
    case True
    then have "lo + 1 \<le> hi" by linarith
    with 1(1) [OF True this] True show ?thesis
      unfolding trim_first.simps [of v lo hi] by (simp only: if_True simp_thms) linarith
  next
    case False
    with 1(2) show ?thesis by (auto simp: trim_first.simps [of v lo hi])
  qed
qed

lemma trim_last_range: "lo \<le> hi \<Longrightarrow> lo \<le> trim_last v lo hi \<and> trim_last v lo hi \<le> hi"
proof (induction v lo hi rule: trim_last.induct)
  case (1 v lo hi)
  show ?case
  proof (cases "hi > lo \<and> is_space (v ! (hi - 1))")
    case True
    then have "lo \<le> hi - 1" by linarith
    with 1(1) [OF True this] True show ?thesis
      unfolding trim_last.simps [of v lo hi] by (simp only: if_True simp_thms) linarith
  next
    case False
    with 1(2) show ?thesis by (auto simp: trim_last.simps [of v lo hi])
  qed
qed

lemma trim_first_stays: "trim_first v lo hi = lo \<longleftrightarrow> \<not> (lo < hi \<and> is_space (v ! lo))"
proof
  assume stays: "trim_first v lo hi = lo"
  show "\<not> (lo < hi \<and> is_space (v ! lo))"
  proof
    assume more: "lo < hi \<and> is_space (v ! lo)"
    then have "trim_first v lo hi = trim_first v (lo + 1) hi" by (simp add: trim_first.simps [of v lo hi])
    moreover have "lo + 1 \<le> trim_first v (lo + 1) hi" using trim_first_range [of "lo + 1" hi v] more by simp
    ultimately show False using stays by simp
  qed
qed (auto simp: trim_first.simps [of v lo hi])

lemma trim_last_stays: "lo \<le> hi \<Longrightarrow> trim_last v lo hi = hi \<longleftrightarrow> \<not> (lo < hi \<and> is_space (v ! (hi - 1)))"
proof
  assume le: "lo \<le> hi" and stays: "trim_last v lo hi = hi"
  show "\<not> (lo < hi \<and> is_space (v ! (hi - 1)))"
  proof
    assume more: "lo < hi \<and> is_space (v ! (hi - 1))"
    then have "trim_last v lo hi = trim_last v lo (hi - 1)" by (simp add: trim_last.simps [of v lo hi])
    moreover have "lo \<le> hi - 1" using more by linarith
    from trim_last_range [OF this, of v] have "trim_last v lo (hi - 1) \<le> hi - 1" by blast
    ultimately show False using stays more by linarith
  qed
qed (auto simp: trim_last.simps [of v lo hi])

lemma trim_length:
  "length (trim v) = length v \<longleftrightarrow> trim_first v 0 (length v) = 0 \<and> trim_last v 0 (length v) = length v"
proof -
  let ?n = "length v"
  let ?f = "trim_first v 0 ?n"
  let ?l = "trim_last v ?f ?n"
  have f: "?f \<le> ?n" using trim_first_range [of 0 ?n v] by simp
  then have l: "?f \<le> ?l" "?l \<le> ?n" using trim_last_range [of ?f ?n v] by simp_all
  have "length (trim v) = ?l - ?f" using f l by (simp add: trim_def Let_def)
  then have "length (trim v) = ?n \<longleftrightarrow> ?f = 0 \<and> ?l = ?n" using f l by linarith
  then show ?thesis by auto
qed

lemma trim_length_iff:
  "length (trim v) = length v \<longleftrightarrow> v = [] \<or> \<not> is_space (hd v) \<and> \<not> is_space (last v)"
  unfolding trim_length
  by (cases "v = []") (simp_all add: trim_first_stays trim_last_stays hd_conv_nth last_conv_nth)

lemma trim_whole: "length (trim v) = length v \<Longrightarrow> trim v = v"
  unfolding trim_length by (simp add: trim_def)

text \<open>The format the message asks for.\<close>

definition wf_tcti_config :: "string \<Rightarrow> bool" where
  "wf_tcti_config v \<longleftrightarrow>
     v \<noteq> [] \<and> \<not> is_space (hd v) \<and> \<not> is_space (last v) \<and> hd v \<noteq> CHR '':'' \<and> CHR '':'' \<in> set v"

lemma has_shape_iff: "v \<noteq> [] \<Longrightarrow> has_name_args_shape v \<longleftrightarrow> hd v \<noteq> CHR '':'' \<and> CHR '':'' \<in> set v"
  using find_char_None_iff [of "CHR '':''" v]
  by (cases v) (auto simp: has_name_args_shape_def split: option.splits)

lemma validate_config_eq:
  "validate_config v = (if wf_tcti_config v then Inr v else Inl (err input_error tcti_invalid_message))"
proof (cases "v \<noteq> [] \<and> length (trim v) = length v")
  case True
  then have "trim v = v" "trim v \<noteq> []" using trim_whole by auto
  with True show ?thesis
    using trim_length_iff [of v] has_shape_iff [of v]
    by (simp add: validate_config_def wf_tcti_config_def Let_def)
next
  case False
  then show ?thesis
    using trim_length_iff [of v] by (auto simp: validate_config_def wf_tcti_config_def Let_def)
qed

lemma tcti_name_split:
  "wf_tcti_config v \<Longrightarrow> \<exists>args. v = tcti_name v @ CHR '':'' # args \<and> tcti_name v \<noteq> [] \<and> CHR '':'' \<notin> set (tcti_name v)"
proof -
  assume v: "wf_tcti_config v"
  then obtain n where n: "find_char (CHR '':'') v = Some n"
    using find_char_None_iff [of "CHR '':''" v] by (auto simp: wf_tcti_config_def)
  from find_char_Some_split [OF n] have "n < length v" "v ! n = CHR '':''" "CHR '':'' \<notin> set (take n v)" by auto
  moreover from this have "v = take n v @ CHR '':'' # drop (Suc n) v" using id_take_nth_drop [of n v] by simp
  moreover have "n \<noteq> 0"
    using v \<open>v ! n = CHR '':''\<close> by (cases n) (auto simp: wf_tcti_config_def hd_conv_nth)
  ultimately show ?thesis
    using n v by (intro exI [of _ "drop (Suc n) v"]) (auto simp: tcti_name_def wf_tcti_config_def)
qed

section \<open>Handles opened and closed in a trace\<close>

definition tcti_opened :: "'e action list \<Rightarrow> nat list" where
  "tcti_opened as = concat (map (\<lambda>a. case a of Called (Calloc n (Some p)) \<Rightarrow> [p] | _ \<Rightarrow> []) as)"

definition tcti_closed :: "'e action list \<Rightarrow> nat list" where
  "tcti_closed as = concat (map (\<lambda>a. case a of
     Called (Tcti_Finalize (Some p)) \<Rightarrow> [p] | Called (Owner_Delete f (Some p)) \<Rightarrow> [p] | _ \<Rightarrow> []) as)"

definition esys_opened :: "'e action list \<Rightarrow> nat list" where
  "esys_opened as = concat (map (\<lambda>a. case a of Called (Esys_Initialize t (Some p)) \<Rightarrow> [p] | _ \<Rightarrow> []) as)"

definition esys_closed :: "'e action list \<Rightarrow> nat list" where
  "esys_closed as = concat (map (\<lambda>a. case a of Called (Esys_Finalize (Some p)) \<Rightarrow> [p] | _ \<Rightarrow> []) as)"

lemmas handle_traces = tcti_opened_def tcti_closed_def esys_opened_def esys_closed_def

lemma handles_append [simp]:
  "tcti_opened (as @ bs) = tcti_opened as @ tcti_opened bs"
  "tcti_closed (as @ bs) = tcti_closed as @ tcti_closed bs"
  "esys_opened (as @ bs) = esys_opened as @ esys_opened bs"
  "esys_closed (as @ bs) = esys_closed as @ esys_closed bs"
  by (simp_all add: handle_traces)

lemma handles_Cons [simp]:
  "tcti_opened (a # as) = (case a of Called (Calloc n (Some p)) \<Rightarrow> [p] | _ \<Rightarrow> []) @ tcti_opened as"
  "tcti_closed (a # as) = (case a of
     Called (Tcti_Finalize (Some p)) \<Rightarrow> [p] | Called (Owner_Delete f (Some p)) \<Rightarrow> [p] | _ \<Rightarrow> []) @
     tcti_closed as"
  "esys_opened (a # as) = (case a of Called (Esys_Initialize t (Some p)) \<Rightarrow> [p] | _ \<Rightarrow> []) @ esys_opened as"
  "esys_closed (a # as) = (case a of Called (Esys_Finalize (Some p)) \<Rightarrow> [p] | _ \<Rightarrow> []) @ esys_closed as"
  "tcti_opened [] = []" "tcti_closed [] = []" "esys_opened [] = []" "esys_closed [] = []"
  by (simp_all add: handle_traces)

lemma handles_logged [simp]:
  "tcti_opened (map Logged cs) = []" "tcti_closed (map Logged cs) = []"
  "esys_opened (map Logged cs) = []" "esys_closed (map Logged cs) = []"
  by (induction cs) (simp_all add: handle_traces)

text \<open>The names of TCTIs that may appear in the log.\<close>

definition public_tcti_names :: "string set" where
  "public_tcti_names = {''device'', ''mssim'', ''swtpm'', ''tabrmd'', ''<custom>'', ''<owned>''}"

definition discreet :: "'e action list \<Rightarrow> bool" where
  "discreet as \<longleftrightarrow>
     (\<forall>c \<in> set (records as). \<forall>f \<in> set (call_fields c).
        field_key f = ''tcti_name'' \<longrightarrow> field_value f \<in> public_tcti_names)"

lemma discreet_simps [simp]:
  "discreet []" "discreet (as @ bs) \<longleftrightarrow> discreet as \<and> discreet bs"
  "discreet (Called c # as) = discreet as"
  by (auto simp: discreet_def)

lemma discreet_logged:
  "discreet (map Logged cs) \<longleftrightarrow>
     (\<forall>c \<in> set cs. \<forall>f \<in> set (call_fields c). field_key f = ''tcti_name'' \<longrightarrow> field_value f \<in> public_tcti_names)"
  by (simp add: discreet_def)

lemma discreet_failure [simp]: "discreet (map Logged (log_tss_error T has_log rc layer cat op event d))"
  by (simp add: discreet_logged log_tss_error_def emit_failure_record_eq)

text \<open>What an operation adds to the trace, together with its result.\<close>

definition leaves :: "('b, 'e) world \<Rightarrow> ('e action list \<Rightarrow> 'r \<Rightarrow> bool) \<Rightarrow> 'r \<times> ('b, 'e) world \<Rightarrow> bool" where
  "leaves w Q x \<longleftrightarrow> (\<exists>new. actions (snd x) = actions w @ new \<and> Q new (fst x))"

lemma leavesI: "actions (snd x) = actions w @ new \<Longrightarrow> Q new (fst x) \<Longrightarrow> leaves w Q x"
  unfolding leaves_def by blast

lemma leavesE:
  assumes "leaves w Q x"
  obtains r w' new where "x = (r, w')" "actions w' = actions w @ new" "Q new r"
  using assms unfolding leaves_def by (cases x) auto

section \<open>Deletion and loading, exactly\<close>

text \<open>Deleting a handle closes it, once.\<close>

lemma delete_tcti_leaves:
  "leaves w (\<lambda>new (u :: unit). tcti_closed new = (case tcti_pointer h of None \<Rightarrow> [] | Some p \<Rightarrow> [p]) \<and>
      tcti_opened new = [] \<and> esys_opened new = [] \<and> esys_closed new = [] \<and> discreet new) ((), delete_tcti H h w)"
proof (cases "tcti_pointer h")
  case None
  then show ?thesis by (intro leavesI [of _ _ "[]"]) (simp_all add: delete_tcti_def handle_traces discreet_def)
next
  case (Some p)
  show ?thesis
  proof (cases "tcti_delete_with h")
    case Finalize_loaded_tcti
    with Some show ?thesis
      by (intro leavesI [of _ _ "[Called (Tcti_Finalize (Some p))]"])
         (simp_all add: delete_tcti_def finalize_loaded_tcti_def handle_traces)
  next
    case Release_failed_tcti_init
    obtain c b where "tctildr_finalize H (Some p) (backend w) = (c, b)" by (metis prod.exhaust)
    with Some Release_failed_tcti_init show ?thesis
      by (intro leavesI [of _ _ "Called (Tcti_Finalize (Some p)) # (if c = None then [] else [Called (Free c)])"])
         (simp_all add: delete_tcti_def release_failed_tcti_init_def handle_traces invoke_def)
  next
    case (Owner_supplied f)
    with Some show ?thesis
      by (intro leavesI [of _ _ "[Called (Owner_Delete f (Some p))]"])
         (simp_all add: delete_tcti_def handle_traces)
  qed
qed

lemma report_context_failure_eq:
  "rc \<noteq> rc_success T \<Longrightarrow>
   report_context_failure T d rc op w =
     (fails (err (mapped_category (rc_error T rc)) (mapped_message (rc_error T rc))),
      write_log (log_tss_error T True rc (rc_layer T rc) (mapped_category (rc_error T rc)) op ev_tss_error d) w)"
  by (simp add: report_context_failure_def translate_tss_rc_eq Let_def)

text \<open>
  A creation step that fails leaves nothing open; one that succeeds leaves open what its result owns.
  The name of a TCTI appears in the log only if it is one of the well-known names, otherwise as a
  placeholder.
\<close>

definition no_leak :: "('a \<Rightarrow> 'e action list \<Rightarrow> bool) \<Rightarrow> 'e action list \<Rightarrow> 'a call \<Rightarrow> bool" where
  "no_leak P new r \<longleftrightarrow> discreet new \<and>
     (case r of
        Inl f \<Rightarrow> False
      | Inr (Inl e) \<Rightarrow> listed_category (category e) \<and> tcti_closed new = tcti_opened new \<and>
          esys_closed new = esys_opened new
      | Inr (Inr x) \<Rightarrow> P x new)"

lemma no_leak_simps [simp]:
  "no_leak P new (fails e) \<longleftrightarrow> discreet new \<and> listed_category (category e) \<and> tcti_closed new = tcti_opened new \<and>
     esys_closed new = esys_opened new"
  "no_leak P new (returns x) \<longleftrightarrow> discreet new \<and> P x new"
  "\<not> no_leak P new (Inl f)"
  by (simp_all add: no_leak_def)

definition loaded :: "tcti_handle \<Rightarrow> 'e action list \<Rightarrow> bool" where
  "loaded h new \<longleftrightarrow>
     (\<exists>p. h = \<lparr>tcti_pointer = Some p, tcti_delete_with = Finalize_loaded_tcti\<rparr> \<and>
        tcti_opened new = [p] \<and> tcti_closed new = [] \<and> esys_opened new = [] \<and> esys_closed new = [])"

lemma load_tcti_trace:
  "leaves w (\<lambda>new r. no_leak loaded new r \<and>
       (wf_tcti_config config \<longrightarrow> (\<exists>rest. new = Called (Tcti_GetInfo (c_str (tcti_name config))) # rest)))
     (load_tcti T H api config w)"
proof (cases "wf_tcti_config config")
  case False
  then show ?thesis
    by (intro leavesI [of _ _ "[]"]) (simp_all add: load_tcti_def validate_config_eq handle_traces)
next
  case True
  let ?name = "c_str (tcti_name config)"
  let ?conf = "Some (c_str config)"
  obtain rc1 tinfo b1 where r1: "ld_get_info api ?name (backend w) = ((rc1, tinfo), b1)" by (metis prod.exhaust)
  let ?b2 = "ld_free_info api tinfo b1"
  obtain rc2 sz b3 where r2: "ld_init api None 0 None ?b2 = ((rc2, sz), b3)" by (metis prod.exhaust)
  obtain storage b4 where r3: "host_calloc H sz b3 = (storage, b4)" by (metis prod.exhaust)
  obtain rc5 sz' b5 where r5: "ld_init api storage sz ?conf b4 = ((rc5, sz'), b5)" by (metis prod.exhaust)
  note eqs = load_tcti_def validate_config_eq True allocate_tcti_loader_context_def invoke_def
    report_context_failure_eq translate_tss_rc_eq write_log_def act_def r1 r2 r3 Let_def
  let ?pre = "[Called (Tcti_GetInfo ?name), Called (Tcti_FreeInfo tinfo)]"
  let ?pre2 = "?pre @ [Called (Tcti_Init None 0 None)]"
  consider "rc1 \<noteq> rc_success T" | "rc1 = rc_success T" "rc2 \<noteq> rc_success T"
    | "rc1 = rc_success T" "rc2 = rc_success T" "sz = 0"
    | "rc1 = rc_success T" "rc2 = rc_success T" "sz \<noteq> 0" "storage = None"
    | p where "rc1 = rc_success T" "rc2 = rc_success T" "sz \<noteq> 0" "storage = Some p" "rc5 \<noteq> rc_success T"
    | p where "rc1 = rc_success T" "rc2 = rc_success T" "sz \<noteq> 0" "storage = Some p" "rc5 = rc_success T"
    by (cases storage) auto
  then show ?thesis
  proof cases
    case 1
    then show ?thesis by (intro leavesI) (simp_all add: eqs, simp_all add: handle_traces log_tss_error_def emit_failure_record_eq discreet_def)
  next
    case 2
    then show ?thesis
      by (intro leavesI) (simp_all add: eqs, simp_all add: handle_traces log_tss_error_def
          emit_failure_record_eq rc_error_listed discreet_def)
  next
    case 3
    then show ?thesis by (intro leavesI) (simp_all add: eqs, simp_all add: handle_traces)
  next
    case 4
    then show ?thesis by (intro leavesI) (simp_all add: eqs, simp_all add: handle_traces)
  next
    case (5 p)
    let ?h = "\<lparr>tcti_pointer = Some p, tcti_delete_with = Release_failed_tcti_init\<rparr>"
    let ?rec = "log_tss_error T True rc5 (rc_layer T rc5) (mapped_category (rc_error T rc5)) ''tcti_init''
        ev_tss_error (ld_decode_error api)"
    let ?new = "?pre2 @ [Called (Calloc sz (Some p)), Called (Tcti_Init (Some p) sz ?conf)] @ map Logged ?rec"
    let ?w5 = "w\<lparr>backend := b5, actions := actions w @ ?new\<rparr>"
    have eq: "load_tcti T H api config w =
       (fails (err (mapped_category (rc_error T rc5)) (mapped_message (rc_error T rc5))), delete_tcti H ?h ?w5)"
      using 5 r5 by (simp add: eqs)
    from delete_tcti_leaves [of ?w5 ?h H] obtain d where
      d: "actions (delete_tcti H ?h ?w5) = actions ?w5 @ d" "tcti_closed d = [p]" "tcti_opened d = []"
        "esys_opened d = []" "esys_closed d = []" "discreet d"
      by (auto simp: leaves_def)
    have "tcti_closed ?new = []" "tcti_opened ?new = [p]" "esys_opened ?new = []" "esys_closed ?new = []"
      by (simp_all add: handle_traces log_tss_error_def emit_failure_record_eq)
    then show ?thesis
      unfolding eq using d by (intro leavesI [of _ _ "?new @ d"]) (simp_all add: rc_error_listed)
  next
    case (6 p)
    with r5 show ?thesis
      by (intro leavesI) (simp_all add: eqs, simp_all add: handle_traces loaded_def)
  qed
qed

lemma load_tcti_leaves: "leaves w (no_leak loaded) (load_tcti T H api config w)"
  using load_tcti_trace [of w config T H api] unfolding leaves_def by blast

lemma load_tcti_asks_name:
  assumes "wf_tcti_config config"
  shows "\<exists>rest. actions (snd (load_tcti T H api config w)) =
    actions w @ Called (Tcti_GetInfo (c_str (tcti_name config))) # rest"
  using load_tcti_trace [of w config T H api] assms unfolding leaves_def by auto

section \<open>Properties\<close>

text \<open>
  C21: A configuration string is used exactly when it has the form name:args with a non-empty name
  and no white space at either end: then the loader is asked first for the name, which is the text
  before the first colon; otherwise the loader is not called, nothing is logged and the caller gets
  an input error with the documented message.
\<close>
theorem tcti_config_checked:
  "if wf_tcti_config config
   then (\<exists>rest. actions (snd (load_tcti T H api config w)) =
            actions w @ Called (Tcti_GetInfo (c_str (tcti_name config))) # rest) \<and>
        (\<exists>args. config = tcti_name config @ CHR '':'' # args \<and> tcti_name config \<noteq> [] \<and>
            CHR '':'' \<notin> set (tcti_name config))
   else load_tcti T H api config w =
          (fails (err input_error ''TCTI configuration must use name:args format''), w)"
proof (cases "wf_tcti_config config")
  case True
  have "\<exists>rest. actions (snd (load_tcti T H api config w)) =
            actions w @ Called (Tcti_GetInfo (c_str (tcti_name config))) # rest"
    by (rule load_tcti_asks_name [OF True])
  with True tcti_name_split [OF True] show ?thesis by simp
next
  case False
  then show ?thesis by (simp add: load_tcti_def validate_config_eq tcti_invalid_message_def)
qed

text \<open>
  Loading a TCTI leaks nothing and never crashes, whatever the loader library and the
  allocator answer: on every failure the context that was allocated has been finalized, once, and
  the error has a listed category; on success exactly one context is open, owned by the result with
  the finalizer of loaded contexts.
\<close>
theorem load_tcti_no_leak:
  "\<exists>new. actions (snd (load_tcti T H api config w)) = actions w @ new \<and>
     (case fst (load_tcti T H api config w) of
        Inl f \<Rightarrow> False
      | Inr (Inl e) \<Rightarrow> listed_category (category e) \<and> tcti_closed new = tcti_opened new
      | Inr (Inr h) \<Rightarrow> \<exists>p. h = \<lparr>tcti_pointer = Some p, tcti_delete_with = Finalize_loaded_tcti\<rparr> \<and>
          tcti_opened new = [p] \<and> tcti_closed new = [])"
proof -
  obtain new where new: "actions (snd (load_tcti T H api config w)) = actions w @ new"
    "no_leak loaded new (fst (load_tcti T H api config w))"
    using load_tcti_leaves [of w T H api config] unfolding leaves_def by blast
  then show ?thesis
    by (intro exI [of _ new]) (auto simp: no_leak_def loaded_def split: sum.splits)
qed

end
