(* ===== verification/Hash_Algorithm.thy ===== *)
theory Hash_Algorithm
  imports Prelude
begin

text \<open>
  \<^verbatim>\<open>include/tpmkit/hash_algorithm.h\<close>, \<^verbatim>\<open>src/domain/hash_algorithm.cpp\<close>. The build option
  \<^verbatim>\<open>legacy_sha1_pcr_enabled\<close> of \<^verbatim>\<open>src/support/build_options.h\<close> is fixed when the library is
  compiled; the model takes it as the argument \<open>legacy\<close>.
\<close>

datatype hash_algorithm =
    sha1
  | sha256
  | sha384
  | sha512
  | unlisted_hash int

text \<open>\<^verbatim>\<open>std::set<hash_algorithm>\<close> orders by the underlying integer.\<close>

fun hash_underlying :: "hash_algorithm \<Rightarrow> int" where
  "hash_underlying sha1 = 0"
| "hash_underlying sha256 = 1"
| "hash_underlying sha384 = 2"
| "hash_underlying sha512 = 3"
| "hash_underlying (unlisted_hash n) = n"

fun hash_algorithm_name :: "hash_algorithm \<Rightarrow> string" where
  "hash_algorithm_name sha1 = ''sha1''"
| "hash_algorithm_name sha256 = ''sha256''"
| "hash_algorithm_name sha384 = ''sha384''"
| "hash_algorithm_name sha512 = ''sha512''"
| "hash_algorithm_name (unlisted_hash n) = ''unknown''"

fun digest_size :: "bool \<Rightarrow> hash_algorithm \<Rightarrow> fault + nat" where
  "digest_size legacy sha1 =
     (if legacy then Inr 20
      else Inl (tpmkit_error ''SHA-1 PCR support requires TPMKIT_ENABLE_LEGACY_SHA1_PCR''))"
| "digest_size legacy sha256 = Inr 32"
| "digest_size legacy sha384 = Inr 48"
| "digest_size legacy sha512 = Inr 64"
| "digest_size legacy (unlisted_hash n) = Inl (tpmkit_error ''unsupported hash algorithm'')"

text \<open>The algorithms a build supports, as a specification.\<close>

fun supported_hash :: "bool \<Rightarrow> hash_algorithm \<Rightarrow> bool" where
  "supported_hash legacy sha1 = legacy"
| "supported_hash legacy (unlisted_hash n) = False"
| "supported_hash legacy _ = True"

lemma digest_size_total_iff: "(\<exists>n. digest_size legacy a = Inr n) \<longleftrightarrow> supported_hash legacy a"
  by (cases a) auto

lemma digest_size_bound: "digest_size legacy a = Inr n \<Longrightarrow> 20 \<le> n \<and> n \<le> 64"
  by (cases a) (auto split: if_splits)

lemma digest_size_fault: "digest_size legacy a = Inl f \<Longrightarrow> is_tpmkit_error f"
  by (cases a) (auto split: if_splits)

lemma digest_size_inject:
  "digest_size legacy a = Inr n \<Longrightarrow> digest_size legacy b = Inr n \<Longrightarrow> a = b"
  by (cases a; cases b) (auto split: if_splits)

lemma hash_algorithm_name_inject:
  "supported_hash legacy a \<Longrightarrow> hash_algorithm_name a = hash_algorithm_name b \<Longrightarrow> a = b"
  by (cases a; cases b) auto

text \<open>
  The validating constructors (\<^verbatim>\<open>validate_digest_size\<close>, \<^verbatim>\<open>validate_algorithm\<close>) all call
  \<^verbatim>\<open>digest_size\<close> inside \<^verbatim>\<open>try\<close> and rethrow a \<^verbatim>\<open>tpmkit_error\<close> as an \<^verbatim>\<open>input_validation_error\<close>
  with their own text.
\<close>

definition validated_digest_size :: "bool \<Rightarrow> string \<Rightarrow> hash_algorithm \<Rightarrow> fault + nat" where
  "validated_digest_size legacy text algorithm =
     (case digest_size legacy algorithm of
        Inl f \<Rightarrow> (if is_tpmkit_error f then Inl (input_validation_error text) else Inl f)
      | Inr n \<Rightarrow> Inr n)"

lemma validated_digest_size_Inr [simp]:
  "validated_digest_size legacy text a = Inr n \<longleftrightarrow> digest_size legacy a = Inr n"
  by (auto simp: validated_digest_size_def split: sum.splits)

lemma validated_digest_size_Inl:
  "validated_digest_size legacy text a = Inl f \<longleftrightarrow>
     \<not> supported_hash legacy a \<and> f = input_validation_error text"
  by (cases a) (auto simp: validated_digest_size_def)

end
