(* ===== verification/Pcr_Values.thy ===== *)
theory Pcr_Values
  imports Result Hash_Algorithm
begin

text \<open>
  The PCR value objects of \<^verbatim>\<open>include/tpmkit/pcr\<close> and \<^verbatim>\<open>src/domain/pcr\<close>: \<^verbatim>\<open>index\<close>, \<^verbatim>\<open>bank\<close>,
  \<^verbatim>\<open>digest_value\<close>, \<^verbatim>\<open>selection\<close> and the result structures. Each class is a data type with its
  private members; its validating constructor is a function \<open>new_\<dots>\<close> that returns the object or
  the exception thrown. A \<^verbatim>\<open>std::set<index>\<close> is a set of indices whose iteration order is
  \<open>sorted_list_of_set\<close>, for the order \<^verbatim>\<open>index::operator<\<close> gives.
\<close>

section \<open>PCR index\<close>

datatype index = Index (index_value: byte)

definition max_index_value :: byte where
  "max_index_value = 31"

definition new_index :: "u32 \<Rightarrow> fault + index" where
  "new_index v =
     (if v > ucast max_index_value
      then Inl (input_validation_error ''PCR index must be in the range 0-31'')
      else Inr (Index (ucast v)))"

definition index_eq :: "index \<Rightarrow> index \<Rightarrow> bool" where
  "index_eq a b \<longleftrightarrow> index_value a = index_value b"

definition index_ne :: "index \<Rightarrow> index \<Rightarrow> bool" where
  "index_ne a b \<longleftrightarrow> \<not> index_eq a b"

definition index_less :: "index \<Rightarrow> index \<Rightarrow> bool" where
  "index_less a b \<longleftrightarrow> index_value a < index_value b"

text \<open>The order of \<^verbatim>\<open>std::set<index>\<close> is the one of \<^verbatim>\<open>operator<\<close>.\<close>

instantiation index :: linorder
begin

definition less_eq_index :: "index \<Rightarrow> index \<Rightarrow> bool" where
  "less_eq_index a b \<longleftrightarrow> \<not> index_less b a"

definition less_index :: "index \<Rightarrow> index \<Rightarrow> bool" where
  "less_index a b \<longleftrightarrow> index_less a b"

instance
  by standard (auto simp: less_eq_index_def less_index_def index_less_def index.expand)

end

instance index :: finite
proof
  have "(UNIV :: index set) = range Index"
    by (metis index.exhaust surjI)
  then show "finite (UNIV :: index set)"
    using finite_code by (metis finite finite_imageI)
qed

definition well_known_indices :: "(string \<times> index) list" where
  "well_known_indices =
     [(''application'', Index 23), (''bootloader_8'', Index 8), (''bootloader_9'', Index 9),
      (''debug'', Index 16), (''drtm_17'', Index 17), (''drtm_18'', Index 18),
      (''drtm_19'', Index 19), (''drtm_20'', Index 20), (''drtm_21'', Index 21),
      (''drtm_22'', Index 22), (''firmware_0'', Index 0), (''firmware_1'', Index 1),
      (''firmware_2'', Index 2), (''firmware_3'', Index 3), (''firmware_4'', Index 4),
      (''firmware_5'', Index 5), (''firmware_6'', Index 6), (''firmware_7'', Index 7),
      (''ima'', Index 10), (''os_11'', Index 11), (''os_12'', Index 12), (''os_13'', Index 13),
      (''os_14'', Index 14), (''os_15'', Index 15)]"

definition wf_index :: "index \<Rightarrow> bool" where
  "wf_index i \<longleftrightarrow> index_value i \<le> max_index_value"

lemma wf_index_unat: "wf_index i \<longleftrightarrow> unat (index_value i) < 32"
  by (auto simp: wf_index_def max_index_value_def word_le_nat_alt)

lemma new_index_cases:
  "new_index v =
     (if unat v < 32 then Inr (Index (ucast v))
      else Inl (input_validation_error ''PCR index must be in the range 0-31''))"
  by (auto simp: new_index_def max_index_value_def word_less_nat_alt)

lemma unat_narrow_index: "unat v < 32 \<Longrightarrow> unat (ucast (v :: u32) :: byte) = unat v"
  by (simp add: unsigned_ucast_eq take_bit_nat_eq_self_iff)

lemma new_index_wf [wf_intros]: "new_index v = Inr i \<Longrightarrow> wf_index i"
  by (auto simp: new_index_cases wf_index_unat unat_narrow_index split: if_splits)

lemma new_index_value: "new_index v = Inr i \<Longrightarrow> unat (index_value i) = unat v"
  by (auto simp: new_index_cases unat_narrow_index split: if_splits)

lemma new_index_surj: "wf_index i \<Longrightarrow> new_index (ucast (index_value i)) = Inr i"
  by (simp add: new_index_cases wf_index_unat)

text \<open>
  \<^verbatim>\<open>std::hash<tpmkit::pcr::index>\<close>: the hash of the byte, which the implementation defines; it agrees
  with \<^verbatim>\<open>operator==\<close>, as unordered containers require.
\<close>

definition hash_index :: "(byte \<Rightarrow> u64) \<Rightarrow> index \<Rightarrow> u64" where
  "hash_index hash_byte i = hash_byte (index_value i)"

lemma hash_index_respects_eq: "index_eq a b \<Longrightarrow> hash_index h a = hash_index h b"
  by (simp add: hash_index_def index_eq_def)

section \<open>Index ranges\<close>

definition validate_index_range :: "u32 \<Rightarrow> u32 \<Rightarrow> fault + unit" where
  "validate_index_range first count =
     (if count = 0 then Inr ()
      else if first > ucast max_index_value \<or> count > ucast max_index_value + 1 - first
      then Inl (input_validation_error ''PCR index range must be in the range 0-31'')
      else Inr ())"

function insert_range :: "u32 \<Rightarrow> u32 \<Rightarrow> u32 \<Rightarrow> index set \<Rightarrow> fault + index set" where
  "insert_range first count offset indices =
     (if offset < count
      then bind_ok (new_index (first + offset))
             (\<lambda>i. insert_range first count (offset + 1) (insert i indices))
      else Inr indices)"
  by pat_completeness auto

termination
  by (relation "measure (\<lambda>(first, count, offset, indices). unat count - unat offset)")
     (auto simp: unat_add_1 word_less_nat_alt)

declare insert_range.simps [simp del]

definition make_index_range :: "u32 \<Rightarrow> u32 \<Rightarrow> fault + index set" where
  "make_index_range first count =
     bind_ok (validate_index_range first count) (\<lambda>_. insert_range first count 0 {})"

lemma insert_range_eq:
  "unat first + unat count \<le> 32 \<Longrightarrow> unat offset \<le> unat count \<Longrightarrow>
   insert_range first count offset indices =
     Inr (indices \<union> {i. unat first + unat offset \<le> unat (index_value i) \<and>
                         unat (index_value i) < unat first + unat count})"
proof (induction first count offset indices rule: insert_range.induct)
  case (1 first count offset indices)
  show ?case
  proof (cases "offset < count")
    case False
    with "1.prems" have "unat offset = unat count" by (simp add: word_less_nat_alt)
    with False show ?thesis by (auto simp: insert_range.simps [of first])
  next
    case True
    then have less: "unat offset < unat count" by (simp add: word_less_nat_alt)
    with "1.prems" have sum: "unat (first + offset) = unat first + unat offset"
      by (intro unat_add_lem [THEN iffD1]) simp
    with "1.prems" less obtain i where i: "new_index (first + offset) = Inr i"
      and iv: "unat (index_value i) = unat first + unat offset"
      using new_index_value [of "first + offset"] by (fastforce simp: new_index_cases split: if_splits)
    have ext: "insert i (indices \<union> {j. unat first + unat (offset + 1) \<le> unat (index_value j) \<and>
                 unat (index_value j) < unat first + unat count}) =
          indices \<union> {j. unat first + unat offset \<le> unat (index_value j) \<and>
                 unat (index_value j) < unat first + unat count}"
      using iv less unat_add_1 [OF True]
      by (auto simp: index.expand intro!: index.expand word_unat_eq_iff [THEN iffD2])
    have "insert_range first count (offset + 1) (insert i indices) =
          Inr (insert i indices \<union> {j. unat first + unat (offset + 1) \<le> unat (index_value j) \<and>
                 unat (index_value j) < unat first + unat count})"
      using 1 i True less by (simp add: unat_add_1)
    with True i ext show ?thesis by (simp add: insert_range.simps [of first count offset])
  qed
qed

lemma validate_index_range_iff:
  "validate_index_range first count = Inr () \<longleftrightarrow> count = 0 \<or> unat first + unat count \<le> 32"
proof (cases "unat first < 32")
  case True
  then have "unat (32 - first) = 32 - unat first"
    by (subst unat_sub) (auto simp: word_le_nat_alt)
  with True show ?thesis
    by (auto simp: validate_index_range_def max_index_value_def word_less_nat_alt)
next
  case False
  moreover have "count \<noteq> 0 \<Longrightarrow> unat count > 0" by (simp add: unat_gt_0)
  ultimately show ?thesis
    by (auto simp: validate_index_range_def max_index_value_def word_less_nat_alt)
qed

section \<open>Bank\<close>

record bank =
  bank_algorithm :: hash_algorithm
  bank_digest_size :: nat

definition new_bank :: "bool \<Rightarrow> hash_algorithm \<Rightarrow> fault + bank" where
  "new_bank legacy algorithm =
     bind_ok (validated_digest_size legacy ''unsupported PCR bank hash algorithm'' algorithm)
       (\<lambda>size. Inr \<lparr>bank_algorithm = algorithm, bank_digest_size = size\<rparr>)"

definition bank_eq :: "bank \<Rightarrow> bank \<Rightarrow> bool" where
  "bank_eq a b \<longleftrightarrow> bank_algorithm a = bank_algorithm b \<and> bank_digest_size a = bank_digest_size b"

definition bank_ne :: "bank \<Rightarrow> bank \<Rightarrow> bool" where
  "bank_ne a b \<longleftrightarrow> \<not> bank_eq a b"

definition wf_bank :: "bool \<Rightarrow> bank \<Rightarrow> bool" where
  "wf_bank legacy b \<longleftrightarrow> digest_size legacy (bank_algorithm b) = Inr (bank_digest_size b)"

lemma new_bank_wf [wf_intros]: "new_bank legacy a = Inr b \<Longrightarrow> wf_bank legacy b"
  by (auto simp: new_bank_def wf_bank_def bind_ok_Inr_iff)

lemma wf_bank_supported: "wf_bank legacy b \<Longrightarrow> supported_hash legacy (bank_algorithm b)"
  by (auto simp: wf_bank_def digest_size_total_iff [symmetric])

section \<open>Digest value\<close>

record digest_value =
  dv_algorithm :: hash_algorithm
  dv_digest :: "byte list"

definition new_digest_value :: "bool \<Rightarrow> hash_algorithm \<Rightarrow> byte list \<Rightarrow> fault + digest_value" where
  "new_digest_value legacy algorithm digest =
     bind_ok (validated_digest_size legacy ''unsupported PCR digest hash algorithm'' algorithm)
       (\<lambda>size. if length digest \<noteq> size
               then Inl (input_validation_error ''PCR digest size does not match hash algorithm'')
               else Inr \<lparr>dv_algorithm = algorithm, dv_digest = digest\<rparr>)"

definition digest_value_eq :: "digest_value \<Rightarrow> digest_value \<Rightarrow> bool" where
  "digest_value_eq a b \<longleftrightarrow> dv_algorithm a = dv_algorithm b \<and> dv_digest a = dv_digest b"

definition digest_value_ne :: "digest_value \<Rightarrow> digest_value \<Rightarrow> bool" where
  "digest_value_ne a b \<longleftrightarrow> \<not> digest_value_eq a b"

definition wf_digest_value :: "bool \<Rightarrow> digest_value \<Rightarrow> bool" where
  "wf_digest_value legacy d \<longleftrightarrow> digest_size legacy (dv_algorithm d) = Inr (length (dv_digest d))"

lemma new_digest_value_wf [wf_intros]:
  "new_digest_value legacy a ds = Inr d \<Longrightarrow> wf_digest_value legacy d"
  by (auto simp: new_digest_value_def wf_digest_value_def bind_ok_Inr_iff split: if_splits)

lemma new_digest_value_ok:
  "digest_size legacy a = Inr (length ds) \<Longrightarrow>
   new_digest_value legacy a ds = Inr \<lparr>dv_algorithm = a, dv_digest = ds\<rparr>"
  by (simp add: new_digest_value_def validated_digest_size_def)

lemma wf_digest_value_supported:
  "wf_digest_value legacy d \<Longrightarrow> supported_hash legacy (dv_algorithm d)"
  by (auto simp: wf_digest_value_def digest_size_total_iff [symmetric])

lemma wf_digest_value_bound:
  "wf_digest_value legacy d \<Longrightarrow> 20 \<le> length (dv_digest d) \<and> length (dv_digest d) \<le> 64"
  unfolding wf_digest_value_def by (rule digest_size_bound)

section \<open>Selection\<close>

record selection =
  sel_algorithm :: hash_algorithm
  sel_indices :: "index set"

definition validate_selection_algorithm :: "bool \<Rightarrow> hash_algorithm \<Rightarrow> fault + unit" where
  "validate_selection_algorithm legacy algorithm =
     bind_ok (validated_digest_size legacy ''unsupported PCR selection hash algorithm'' algorithm)
       (\<lambda>_. Inr ())"

definition new_selection :: "bool \<Rightarrow> hash_algorithm \<Rightarrow> index set \<Rightarrow> fault + selection" where
  "new_selection legacy algorithm indices =
     bind_ok (validate_selection_algorithm legacy algorithm)
       (\<lambda>_. Inr \<lparr>sel_algorithm = algorithm, sel_indices = indices\<rparr>)"

definition new_empty_selection :: "bool \<Rightarrow> hash_algorithm \<Rightarrow> fault + selection" where
  "new_empty_selection legacy algorithm = new_selection legacy algorithm {}"

definition new_list_selection :: "bool \<Rightarrow> hash_algorithm \<Rightarrow> index list \<Rightarrow> fault + selection" where
  "new_list_selection legacy algorithm indices = new_selection legacy algorithm (set indices)"

definition selection_eq :: "selection \<Rightarrow> selection \<Rightarrow> bool" where
  "selection_eq a b \<longleftrightarrow> sel_algorithm a = sel_algorithm b \<and> sel_indices a = sel_indices b"

definition selection_ne :: "selection \<Rightarrow> selection \<Rightarrow> bool" where
  "selection_ne a b \<longleftrightarrow> \<not> selection_eq a b"

definition wf_selection :: "bool \<Rightarrow> selection \<Rightarrow> bool" where
  "wf_selection legacy s \<longleftrightarrow>
     supported_hash legacy (sel_algorithm s) \<and> (\<forall>i \<in> sel_indices s. wf_index i)"

lemma new_selection_cases:
  "new_selection legacy a is =
     (if supported_hash legacy a then Inr \<lparr>sel_algorithm = a, sel_indices = is\<rparr>
      else Inl (input_validation_error ''unsupported PCR selection hash algorithm''))"
  by (cases a)
     (auto simp: new_selection_def validate_selection_algorithm_def validated_digest_size_def)

lemma new_selection_wf [wf_intros]:
  "new_selection legacy a is = Inr s \<Longrightarrow> \<forall>i \<in> is. wf_index i \<Longrightarrow> wf_selection legacy s"
  by (auto simp: new_selection_cases wf_selection_def split: if_splits)

section \<open>Results of provider operations\<close>

record pcr_value =
  pv_index :: index
  pv_digest :: digest_value

record read_result =
  actual_selection :: selection
  update_counter :: u32
  read_values :: "pcr_value list"

record event_result =
  er_digests :: "digest_value list"

record allocate_result =
  allocation_success :: bool
  max_pcr :: u32
  size_needed :: u32
  size_available :: u32

definition value_eq :: "pcr_value \<Rightarrow> pcr_value \<Rightarrow> bool" where
  "value_eq a b \<longleftrightarrow>
     index_eq (pv_index a) (pv_index b) \<and> digest_value_eq (pv_digest a) (pv_digest b)"

definition read_result_eq :: "read_result \<Rightarrow> read_result \<Rightarrow> bool" where
  "read_result_eq a b \<longleftrightarrow>
     selection_eq (actual_selection a) (actual_selection b) \<and>
     update_counter a = update_counter b \<and>
     list_all2 value_eq (read_values a) (read_values b)"

definition event_result_eq :: "event_result \<Rightarrow> event_result \<Rightarrow> bool" where
  "event_result_eq a b \<longleftrightarrow> list_all2 digest_value_eq (er_digests a) (er_digests b)"

definition allocate_result_eq :: "allocate_result \<Rightarrow> allocate_result \<Rightarrow> bool" where
  "allocate_result_eq a b \<longleftrightarrow>
     allocation_success a = allocation_success b \<and> max_pcr a = max_pcr b \<and>
     size_needed a = size_needed b \<and> size_available a = size_available b"

definition value_ne :: "pcr_value \<Rightarrow> pcr_value \<Rightarrow> bool" where
  "value_ne a b \<longleftrightarrow> \<not> value_eq a b"

definition read_result_ne :: "read_result \<Rightarrow> read_result \<Rightarrow> bool" where
  "read_result_ne a b \<longleftrightarrow> \<not> read_result_eq a b"

definition event_result_ne :: "event_result \<Rightarrow> event_result \<Rightarrow> bool" where
  "event_result_ne a b \<longleftrightarrow> \<not> event_result_eq a b"

definition allocate_result_ne :: "allocate_result \<Rightarrow> allocate_result \<Rightarrow> bool" where
  "allocate_result_ne a b \<longleftrightarrow> \<not> allocate_result_eq a b"

text \<open>The hand-written comparison operators are equality of the objects.\<close>

lemma index_eq_iff [simp]: "index_eq a b \<longleftrightarrow> a = b"
  by (cases a; cases b) (simp add: index_eq_def)

lemma bank_eq_iff [simp]: "bank_eq a b \<longleftrightarrow> a = b"
  by (cases a; cases b) (simp add: bank_eq_def)

lemma digest_value_eq_iff [simp]: "digest_value_eq a b \<longleftrightarrow> a = b"
  by (cases a; cases b) (simp add: digest_value_eq_def)

lemma selection_eq_iff [simp]: "selection_eq a b \<longleftrightarrow> a = b"
  by (cases a; cases b) (simp add: selection_eq_def)

lemma value_eq_iff [simp]: "value_eq a b \<longleftrightarrow> a = b"
  by (cases a; cases b) (simp add: value_eq_def)

lemma read_result_eq_iff [simp]: "read_result_eq a b \<longleftrightarrow> a = b"
proof -
  have "value_eq = (=)" by (simp add: fun_eq_iff)
  then show ?thesis by (cases a; cases b) (simp add: read_result_eq_def list.rel_eq)
qed

lemma event_result_eq_iff [simp]: "event_result_eq a b \<longleftrightarrow> a = b"
proof -
  have "digest_value_eq = (=)" by (simp add: fun_eq_iff)
  then show ?thesis by (cases a; cases b) (simp add: event_result_eq_def list.rel_eq)
qed

lemma allocate_result_eq_iff [simp]: "allocate_result_eq a b \<longleftrightarrow> a = b"
  by (cases a; cases b) (simp add: allocate_result_eq_def)

text \<open>A result the provider may hand out.\<close>

definition wf_read_result :: "bool \<Rightarrow> read_result \<Rightarrow> bool" where
  "wf_read_result legacy r \<longleftrightarrow>
     wf_selection legacy (actual_selection r) \<and>
     map pv_index (read_values r) = sorted_list_of_set (sel_indices (actual_selection r)) \<and>
     (\<forall>v \<in> set (read_values r).
        wf_digest_value legacy (pv_digest v) \<and>
        dv_algorithm (pv_digest v) = sel_algorithm (actual_selection r))"

definition wf_event_result :: "bool \<Rightarrow> event_result \<Rightarrow> bool" where
  "wf_event_result legacy r \<longleftrightarrow> (\<forall>d \<in> set (er_digests r). wf_digest_value legacy d)"

section \<open>Properties\<close>

text \<open>
  C24: A range of PCR indices is built exactly when it is empty or ends at register 31 or before,
  for every pair of 32-bit arguments (first and count may be anything, their sum may wrap); it then
  holds the registers from first up to first + count - 1 and nothing else, each of them valid, and
  otherwise the call throws an input validation error.
\<close>
theorem make_index_range_exact:
  "make_index_range first count =
     (if count = 0 \<or> unat first + unat count \<le> 32
      then Inr {i. unat first \<le> unat (index_value i) \<and> unat (index_value i) < unat first + unat count}
      else Inl (input_validation_error ''PCR index range must be in the range 0-31''))"
proof (cases "validate_index_range first count")
  case (Inl f)
  then have "f = input_validation_error ''PCR index range must be in the range 0-31''"
    by (simp add: validate_index_range_def split: if_splits)
  with Inl validate_index_range_iff [of first count] show ?thesis
    by (auto simp: make_index_range_def)
next
  case (Inr u)
  then have ok: "count = 0 \<or> unat first + unat count \<le> 32"
    using validate_index_range_iff [of first count] by simp
  show ?thesis
  proof (cases "count = 0")
    case True
    then have "{i. unat first \<le> unat (index_value i) \<and> unat (index_value i) < unat first + unat count} = {}"
      by auto
    with True show ?thesis
      by (simp add: make_index_range_def validate_index_range_def insert_range.simps)
  next
    case False
    with ok Inr show ?thesis
      by (simp add: make_index_range_def insert_range_eq)
  qed
qed

text \<open>
  C25: The validating constructors of the domain values decide exactly and keep their arguments. An
  index is built from 0 to 31 and has that number; a digest value is built from the number of bytes
  its algorithm prescribes and has that algorithm and those bytes; a bank and a selection are built
  for every supported algorithm, the bank with the algorithm's digest size, the selection with the
  registers given. For every other argument the constructor throws an input validation error that
  says which value was refused.
\<close>
theorem constructors_exact:
  "(case new_index v of
      Inr i \<Rightarrow> unat v < 32 \<and> unat (index_value i) = unat v
    | Inl f \<Rightarrow> 32 \<le> unat v \<and> f = input_validation_error ''PCR index must be in the range 0-31'') \<and>
   (case new_digest_value legacy a bs of
      Inr d \<Rightarrow> digest_size legacy a = Inr (length bs) \<and> dv_algorithm d = a \<and> dv_digest d = bs
    | Inl f \<Rightarrow>
        (if supported_hash legacy a
         then digest_size legacy a \<noteq> Inr (length bs) \<and>
              f = input_validation_error ''PCR digest size does not match hash algorithm''
         else f = input_validation_error ''unsupported PCR digest hash algorithm'')) \<and>
   (case new_bank legacy a of
      Inr b \<Rightarrow> supported_hash legacy a \<and> bank_algorithm b = a \<and> digest_size legacy a = Inr (bank_digest_size b)
    | Inl f \<Rightarrow> \<not> supported_hash legacy a \<and>
        f = input_validation_error ''unsupported PCR bank hash algorithm'') \<and>
   (case new_selection legacy a is of
      Inr s \<Rightarrow> supported_hash legacy a \<and> sel_algorithm s = a \<and> sel_indices s = is
    | Inl f \<Rightarrow> \<not> supported_hash legacy a \<and>
        f = input_validation_error ''unsupported PCR selection hash algorithm'')"
proof (intro conjI)
  show "case new_index v of
      Inr i \<Rightarrow> unat v < 32 \<and> unat (index_value i) = unat v
    | Inl f \<Rightarrow> 32 \<le> unat v \<and> f = input_validation_error ''PCR index must be in the range 0-31''"
    by (simp add: new_index_cases unat_narrow_index)
  show "case new_digest_value legacy a bs of
      Inr d \<Rightarrow> digest_size legacy a = Inr (length bs) \<and> dv_algorithm d = a \<and> dv_digest d = bs
    | Inl f \<Rightarrow>
        (if supported_hash legacy a
         then digest_size legacy a \<noteq> Inr (length bs) \<and>
              f = input_validation_error ''PCR digest size does not match hash algorithm''
         else f = input_validation_error ''unsupported PCR digest hash algorithm'')"
    by (cases a) (auto simp: new_digest_value_def validated_digest_size_def)
  show "case new_bank legacy a of
      Inr b \<Rightarrow> supported_hash legacy a \<and> bank_algorithm b = a \<and> digest_size legacy a = Inr (bank_digest_size b)
    | Inl f \<Rightarrow> \<not> supported_hash legacy a \<and>
        f = input_validation_error ''unsupported PCR bank hash algorithm''"
    by (cases a) (auto simp: new_bank_def validated_digest_size_def)
  show "case new_selection legacy a is of
      Inr s \<Rightarrow> supported_hash legacy a \<and> sel_algorithm s = a \<and> sel_indices s = is
    | Inl f \<Rightarrow> \<not> supported_hash legacy a \<and>
        f = input_validation_error ''unsupported PCR selection hash algorithm''"
    by (simp add: new_selection_cases)
qed

end
