(* ===== verification/Pcr_Marshalling.thy ===== *)
theory Pcr_Marshalling
  imports Pcr_Values Tss_Types
begin

text \<open>
  \<^verbatim>\<open>src/adapters/tpm2_esys/pcr/pcr_marshalling.cpp\<close>: conversion between the domain values and
  the TPM structures, in both directions. Every array access of the source is checked against
  the array's size; an access outside it is the fault \<open>out_of_bounds\<close>.
\<close>

definition pcr_select_min_size :: byte where
  "pcr_select_min_size = 3"

definition selection_size_for_pcr :: "byte \<Rightarrow> byte" where
  "selection_size_for_pcr pcr = max pcr_select_min_size (pcr div 8 + 1)"

section \<open>Hash algorithm identifiers\<close>

definition algorithm_from_tpm :: "bool \<Rightarrow> tss \<Rightarrow> u16 \<Rightarrow> hash_algorithm outcome" where
  "algorithm_from_tpm legacy T a =
     (if a = alg_id T ALG_SHA1
      then (if legacy then Inr sha1
            else Inl (err backend_error ''TPM returned disabled legacy SHA-1 PCR bank''))
      else if a = alg_id T ALG_SHA256 then Inr sha256
      else if a = alg_id T ALG_SHA384 then Inr sha384
      else if a = alg_id T ALG_SHA512 then Inr sha512
      else Inl (err backend_error ''TPM returned unsupported PCR hash algorithm''))"

fun algorithm_to_tpm :: "bool \<Rightarrow> tss \<Rightarrow> hash_algorithm \<Rightarrow> u16" where
  "algorithm_to_tpm legacy T sha1 = (if legacy then alg_id T ALG_SHA1 else alg_id T ALG_ERROR)"
| "algorithm_to_tpm legacy T sha256 = alg_id T ALG_SHA256"
| "algorithm_to_tpm legacy T sha384 = alg_id T ALG_SHA384"
| "algorithm_to_tpm legacy T sha512 = alg_id T ALG_SHA512"
| "algorithm_to_tpm legacy T (unlisted_hash n) = alg_id T ALG_ERROR"

definition is_supported_algorithm :: "bool \<Rightarrow> tss \<Rightarrow> hash_algorithm \<Rightarrow> bool" where
  "is_supported_algorithm legacy T a \<longleftrightarrow> algorithm_to_tpm legacy T a \<noteq> alg_id T ALG_ERROR"

definition pcr_handle :: "tss \<Rightarrow> index \<Rightarrow> u32" where
  "pcr_handle T i = tr_pcr0 T + ucast (index_value i)"

definition should_skip_disabled_pcr_algorithm :: "bool \<Rightarrow> tss \<Rightarrow> u16 \<Rightarrow> bool" where
  "should_skip_disabled_pcr_algorithm legacy T a \<longleftrightarrow> \<not> legacy \<and> a = alg_id T ALG_SHA1"

section \<open>From the TPM\<close>

text \<open>\<open>None\<close> is a null data pointer.\<close>

definition make_digest_value ::
  "bool \<Rightarrow> hash_algorithm \<Rightarrow> byte list option \<Rightarrow> nat \<Rightarrow> digest_value call" where
  "make_digest_value legacy algorithm data sz =
     (if data = None \<and> sz > 0
      then fails (err backend_error ''TPM returned malformed PCR digest'')
      else bind_try (or_throw (digest_size legacy algorithm))
        (\<lambda>n. if sz \<noteq> n
             then fails (err backend_error ''TPM returned PCR digest with unexpected size'')
             else bind_try (or_throw (read_front sz (case data of None \<Rightarrow> [] | Some bs \<Rightarrow> bs)))
               (\<lambda>bs. or_throw (new_digest_value legacy algorithm bs))))"

definition make_digest_value_ha :: "bool \<Rightarrow> tss \<Rightarrow> tpmt_ha \<Rightarrow> digest_value call" where
  "make_digest_value_ha legacy T d =
     bind_try (Inr (algorithm_from_tpm legacy T (hash_alg d)))
       (\<lambda>a. case a of
          sha1 \<Rightarrow> make_digest_value legacy a (Some (ha_bytes d)) (sha1_digest_size T)
        | sha256 \<Rightarrow> make_digest_value legacy a (Some (ha_bytes d)) (sha256_digest_size T)
        | sha384 \<Rightarrow> make_digest_value legacy a (Some (ha_bytes d)) (sha384_digest_size T)
        | sha512 \<Rightarrow> make_digest_value legacy a (Some (ha_bytes d)) (sha512_digest_size T)
        | unlisted_hash n \<Rightarrow>
            fails (err backend_error ''TPM returned unsupported PCR hash algorithm''))"

fun domain_digests_loop ::
  "bool \<Rightarrow> tss \<Rightarrow> tpmt_ha list \<Rightarrow> nat list \<Rightarrow> digest_value list \<Rightarrow> digest_value list call" where
  "domain_digests_loop legacy T digests [] result = returns result"
| "domain_digests_loop legacy T digests (index # rest) result =
     bind_try (or_throw (array_read index digests)) (\<lambda>d.
       if should_skip_disabled_pcr_algorithm legacy T (hash_alg d)
       then domain_digests_loop legacy T digests rest result
       else bind_try (make_digest_value_ha legacy T d)
              (\<lambda>v. domain_digests_loop legacy T digests rest (result @ [v])))"

definition to_domain_digests :: "bool \<Rightarrow> tss \<Rightarrow> tpml_digest_values \<Rightarrow> digest_value list call" where
  "to_domain_digests legacy T digests =
     (if unat (dvs_count digests) > length (dvs_digests digests)
      then fails (err backend_error ''TPM returned too many PCR event digests'')
      else domain_digests_loop legacy T (dvs_digests digests) [0..<unat (dvs_count digests)] [])"

text \<open>\<open>selected_index\<close> is the rest of the selected registers; at their end it may not be read.\<close>

fun read_values_loop ::
  "bool \<Rightarrow> hash_algorithm \<Rightarrow> tpm2b list \<Rightarrow> nat list \<Rightarrow> index list \<Rightarrow> pcr_value list \<Rightarrow> pcr_value list call" where
  "read_values_loop legacy a digests [] selected_index result = returns result"
| "read_values_loop legacy a digests (index # rest) selected_index result =
     bind_try (or_throw (array_read index digests)) (\<lambda>d.
       bind_try (make_digest_value legacy a (Some (tpm2b_buffer d)) (unat (tpm2b_size d)))
         (\<lambda>v. case selected_index of
            [] \<Rightarrow> Inl out_of_bounds
          | i # others \<Rightarrow>
              read_values_loop legacy a digests rest others (result @ [\<lparr>pv_index = i, pv_digest = v\<rparr>])))"

definition to_domain_read_values :: "bool \<Rightarrow> tpml_digest \<Rightarrow> selection \<Rightarrow> pcr_value list call" where
  "to_domain_read_values legacy vs sel =
     (if unat (digs_count vs) > length (digs_digests vs)
      then fails (err backend_error ''TPM returned too many PCR read digests'')
      else if unat (digs_count vs) \<noteq> card (sel_indices sel)
      then fails (err backend_error ''TPM returned PCR digest count mismatch'')
      else read_values_loop legacy (sel_algorithm sel) (digs_digests vs) [0..<unat (digs_count vs)]
             (sorted_list_of_set (sel_indices sel)) [])"

text \<open>The two nested loops over select bytes and bits.\<close>

fun select_bits :: "nat \<Rightarrow> byte \<Rightarrow> nat list \<Rightarrow> index set \<Rightarrow> index set call" where
  "select_bits byte_index b [] indices = returns indices"
| "select_bits byte_index b (k # ks) indices =
     (if (ucast b :: u32) AND push_bit k 1 = 0 then select_bits byte_index b ks indices
      else let pcr_number = byte_index * 8 + k in
        if pcr_number > unat max_index_value
        then fails (err backend_error ''TPM returned invalid PCR index'')
        else bind_try (or_throw (new_index (of_nat pcr_number)))
               (\<lambda>i. select_bits byte_index b ks (insert i indices)))"

fun select_bytes :: "byte list \<Rightarrow> nat list \<Rightarrow> index set \<Rightarrow> index set call" where
  "select_bytes sel [] indices = returns indices"
| "select_bytes sel (byte_index # rest) indices =
     bind_try (or_throw (array_read byte_index sel))
       (\<lambda>b. bind_try (select_bits byte_index b [0..<8] indices)
              (\<lambda>is. select_bytes sel rest is))"

definition to_domain_selection ::
  "bool \<Rightarrow> tss \<Rightarrow> tpml_pcr_selection \<Rightarrow> hash_algorithm \<Rightarrow> selection call" where
  "to_domain_selection legacy T sel fallback =
     (if psel_count sel = 0 then or_throw (new_empty_selection legacy fallback)
      else if psel_count sel \<noteq> 1
      then fails (err backend_error ''TPM returned multiple PCR selections'')
      else bind_try (or_throw (array_read 0 (pcr_selections sel)))
        (\<lambda>s. bind_try (Inr (algorithm_from_tpm legacy T (sel_hash s)))
          (\<lambda>a. if unat (sizeof_select s) > pcr_select_max T
               then fails (err backend_error ''TPM returned malformed PCR selection size'')
               else bind_try (select_bytes (pcr_select s) [0..<unat (sizeof_select s)] {})
                 (\<lambda>is. or_throw (new_selection legacy a is)))))"

section \<open>To the TPM\<close>

definition set_digest_bytes :: "bool \<Rightarrow> tss \<Rightarrow> tpmt_ha \<Rightarrow> digest_value \<Rightarrow> fault + tpmt_ha" where
  "set_digest_bytes legacy T destination source =
     (let destination = destination\<lparr>hash_alg := algorithm_to_tpm legacy T (dv_algorithm source)\<rparr>;
          copy = (\<lambda>n. if length (dv_digest source) > n then Inl out_of_bounds
                      else bind_ok (copy_to_front (dv_digest source) (ha_bytes destination))
                             (\<lambda>bs. Inr (destination\<lparr>ha_bytes := bs\<rparr>)))
      in case dv_algorithm source of
           sha1 \<Rightarrow> copy (sha1_digest_size T)
         | sha256 \<Rightarrow> copy (sha256_digest_size T)
         | sha384 \<Rightarrow> copy (sha384_digest_size T)
         | sha512 \<Rightarrow> copy (sha512_digest_size T)
         | unlisted_hash n \<Rightarrow> Inr destination)"

fun write_each :: "nat list \<Rightarrow> 'a \<Rightarrow> 'a list \<Rightarrow> fault + 'a list" where
  "write_each [] x xs = Inr xs"
| "write_each (i # is) x xs = bind_ok (array_write i x xs) (write_each is x)"

definition select_all_pcrs :: "tpms_pcr_selection \<Rightarrow> fault + tpms_pcr_selection" where
  "select_all_pcrs s =
     bind_ok (write_each [0..<unat pcr_select_min_size] 0xff (pcr_select s))
       (\<lambda>bs. Inr (s\<lparr>sizeof_select := pcr_select_min_size, pcr_select := bs\<rparr>))"

fun allocation_loop ::
  "bool \<Rightarrow> tss \<Rightarrow> nat \<Rightarrow> bank list \<Rightarrow> tpms_pcr_selection list \<Rightarrow> fault + tpms_pcr_selection list"
where
  "allocation_loop legacy T i [] sels = Inr sels"
| "allocation_loop legacy T i (b # bs) sels =
     bind_ok (array_read i sels)
       (\<lambda>s. bind_ok (select_all_pcrs (s\<lparr>sel_hash := algorithm_to_tpm legacy T (bank_algorithm b)\<rparr>))
         (\<lambda>s'. bind_ok (array_write i s' sels)
           (\<lambda>sels'. allocation_loop legacy T (i + 1) bs sels')))"

definition to_tpm_allocation :: "bool \<Rightarrow> tss \<Rightarrow> bank list \<Rightarrow> fault + tpml_pcr_selection" where
  "to_tpm_allocation legacy T banks =
     (let result = (zero_tpml_pcr_selection T)\<lparr>psel_count := of_nat (length banks)\<rparr> in
      bind_ok (allocation_loop legacy T 0 banks (pcr_selections result))
        (\<lambda>sels. Inr (result\<lparr>pcr_selections := sels\<rparr>)))"

fun digest_values_loop ::
  "bool \<Rightarrow> tss \<Rightarrow> nat \<Rightarrow> digest_value list \<Rightarrow> tpmt_ha list \<Rightarrow> fault + tpmt_ha list" where
  "digest_values_loop legacy T i [] out = Inr out"
| "digest_values_loop legacy T i (d # ds) out =
     bind_ok (array_read i out)
       (\<lambda>h. bind_ok (set_digest_bytes legacy T h d)
         (\<lambda>h'. bind_ok (array_write i h' out)
           (\<lambda>out'. digest_values_loop legacy T (i + 1) ds out')))"

definition to_tpm_digest_values ::
  "bool \<Rightarrow> tss \<Rightarrow> digest_value list \<Rightarrow> fault + tpml_digest_values" where
  "to_tpm_digest_values legacy T digests =
     (let result = (zero_tpml_digest_values T)\<lparr>dvs_count := of_nat (length digests)\<rparr> in
      bind_ok (digest_values_loop legacy T 0 digests (dvs_digests result))
        (\<lambda>out. Inr (result\<lparr>dvs_digests := out\<rparr>)))"

definition fill_tpm2b :: "nat \<Rightarrow> byte list \<Rightarrow> fault + tpm2b" where
  "fill_tpm2b capacity bs =
     (let result = (zero_tpm2b capacity)\<lparr>tpm2b_size := of_nat (length bs)\<rparr> in
      if bs \<noteq> []
      then bind_ok (copy_to_front bs (tpm2b_buffer result))
             (\<lambda>buf. Inr (result\<lparr>tpm2b_buffer := buf\<rparr>))
      else Inr result)"

definition to_tpm_event :: "tss \<Rightarrow> byte list \<Rightarrow> fault + tpm2b" where
  "to_tpm_event T event_data = fill_tpm2b (event_buffer_size T) event_data"

definition to_tpm_sized_digest :: "tss \<Rightarrow> byte list \<Rightarrow> fault + tpm2b" where
  "to_tpm_sized_digest T bs = fill_tpm2b (digest_buffer_size T) bs"

fun select_indices :: "index list \<Rightarrow> tpms_pcr_selection \<Rightarrow> fault + tpms_pcr_selection" where
  "select_indices [] s = Inr s"
| "select_indices (i # is) s =
     (let v = index_value i;
          s = s\<lparr>sizeof_select := max (sizeof_select s) (selection_size_for_pcr v)\<rparr>;
          pos = unat (v div 8)
      in bind_ok (array_read pos (pcr_select s))
           (\<lambda>old. bind_ok (array_write pos
                     (ucast ((ucast old :: u32) OR push_bit (unat (v mod 8)) 1)) (pcr_select s))
             (\<lambda>bs. select_indices is (s\<lparr>pcr_select := bs\<rparr>))))"

definition to_tpm_selection :: "bool \<Rightarrow> tss \<Rightarrow> selection \<Rightarrow> fault + tpml_pcr_selection" where
  "to_tpm_selection legacy T sel =
     (let result = (zero_tpml_pcr_selection T)\<lparr>psel_count := 1\<rparr> in
      bind_ok (array_read 0 (pcr_selections result))
        (\<lambda>s. bind_ok (select_indices (sorted_list_of_set (sel_indices sel))
                       (s\<lparr>sel_hash := algorithm_to_tpm legacy T (sel_algorithm sel),
                          sizeof_select := pcr_select_min_size\<rparr>))
          (\<lambda>s'. bind_ok (array_write 0 s' (pcr_selections result))
            (\<lambda>sels. Inr (result\<lparr>pcr_selections := sels\<rparr>)))))"

section \<open>The loops over an answer, without their indices\<close>

text \<open>
  With a count within the array, the loops convert the front of the array; the lemmas below work on
  these recursions over the elements.
\<close>

fun convert_digests ::
  "bool \<Rightarrow> tss \<Rightarrow> tpmt_ha list \<Rightarrow> digest_value list \<Rightarrow> digest_value list call" where
  "convert_digests legacy T [] acc = returns acc"
| "convert_digests legacy T (d # ds) acc =
     (if should_skip_disabled_pcr_algorithm legacy T (hash_alg d)
      then convert_digests legacy T ds acc
      else bind_try (make_digest_value_ha legacy T d) (\<lambda>v. convert_digests legacy T ds (acc @ [v])))"

fun convert_values ::
  "bool \<Rightarrow> hash_algorithm \<Rightarrow> tpm2b list \<Rightarrow> index list \<Rightarrow> pcr_value list \<Rightarrow> pcr_value list call" where
  "convert_values legacy a [] selected acc = returns acc"
| "convert_values legacy a (d # ds) selected acc =
     bind_try (make_digest_value legacy a (Some (tpm2b_buffer d)) (unat (tpm2b_size d)))
       (\<lambda>v. case selected of
          [] \<Rightarrow> Inl out_of_bounds
        | i # rest \<Rightarrow> convert_values legacy a ds rest (acc @ [\<lparr>pv_index = i, pv_digest = v\<rparr>]))"

lemma digests_loop_within:
  "list_all (\<lambda>i. i < length ds) is \<Longrightarrow>
   domain_digests_loop legacy T ds is acc = convert_digests legacy T (map ((!) ds) is) acc"
  by (induction "is" arbitrary: acc) simp_all

lemma values_loop_within:
  "list_all (\<lambda>i. i < length ds) is \<Longrightarrow>
   read_values_loop legacy a ds is selected acc = convert_values legacy a (map ((!) ds) is) selected acc"
proof (induction "is" arbitrary: selected acc)
  case (Cons i "is")
  then have "i < length ds" by simp
  with Cons show ?case by (cases selected) simp_all
qed simp

lemma front_read:
  "n \<le> length xs \<Longrightarrow> list_all (\<lambda>i. i < length xs) [0..<n]"
  "n \<le> length xs \<Longrightarrow> map ((!) xs) [0..<n] = take n xs"
  by (auto simp: list_all_iff intro: nth_equalityI)

lemma to_domain_digests_eq:
  "to_domain_digests legacy T digests =
     (if unat (dvs_count digests) > length (dvs_digests digests)
      then fails (err backend_error ''TPM returned too many PCR event digests'')
      else convert_digests legacy T (take (unat (dvs_count digests)) (dvs_digests digests)) [])"
  by (simp add: to_domain_digests_def digests_loop_within front_read)

lemma to_domain_read_values_eq:
  "to_domain_read_values legacy vs sel =
     (if unat (digs_count vs) > length (digs_digests vs)
      then fails (err backend_error ''TPM returned too many PCR read digests'')
      else if unat (digs_count vs) \<noteq> card (sel_indices sel)
      then fails (err backend_error ''TPM returned PCR digest count mismatch'')
      else convert_values legacy (sel_algorithm sel) (take (unat (digs_count vs)) (digs_digests vs))
             (sorted_list_of_set (sel_indices sel)) [])"
  by (simp add: to_domain_read_values_def values_loop_within front_read)

section \<open>PCR selections as bit masks\<close>

lemma test_bit:
  assumes "k < 8"
  shows "(ucast (b :: byte) :: u32) AND push_bit k 1 = 0 \<longleftrightarrow> \<not> bit b k"
proof -
  have "(ucast b :: u32) AND push_bit k 1 = 0 \<longleftrightarrow> \<not> bit (ucast b :: u32) k"
    using and_exp_eq_0_iff_not_bit [of "ucast b :: u32" k] by (simp add: push_bit_eq_mult mult.commute)
  with assms show ?thesis by (simp add: bit_simps)
qed

lemma set_bit_byte:
  "k < 8 \<Longrightarrow> j < 8 \<Longrightarrow>
   bit (ucast ((ucast (old :: byte) :: u32) OR push_bit k 1) :: byte) j \<longleftrightarrow> bit old j \<or> j = k"
  by (auto simp: bit_simps)

definition wf_ha :: "tss \<Rightarrow> tpmt_ha \<Rightarrow> bool" where
  "wf_ha T d \<longleftrightarrow> length (ha_bytes d) = ha_union_size T"

lemma algorithm_round:
  "alg_ids_documented T \<Longrightarrow> supported_hash legacy a \<Longrightarrow>
   algorithm_from_tpm legacy T (algorithm_to_tpm legacy T a) = Inr a"
  by (cases a) (auto simp: algorithm_from_tpm_def alg_ids_documented_def)

definition pcr_at :: "nat \<Rightarrow> index" where
  "pcr_at n = Index (of_nat n)"

lemma unat_pcr_at: "n < 32 \<Longrightarrow> unat (index_value (pcr_at n)) = n"
  by (simp add: pcr_at_def unat_of_nat)

lemma pcr_at_unat [simp]: "pcr_at (unat (index_value i)) = i"
  by (cases i) (simp add: pcr_at_def)

lemma wf_pcr_at: "n < 32 \<Longrightarrow> wf_index (pcr_at n)"
  by (simp add: wf_index_unat unat_pcr_at)

lemma new_index_of_nat: "n < 32 \<Longrightarrow> new_index (of_nat n) = Inr (pcr_at n)"
  by (simp add: new_index_cases pcr_at_def unat_of_nat)
     (simp add: word_unat_eq_iff unsigned_ucast_eq unat_of_nat take_bit_nat_eq_self_iff)

lemma pcr_at_eq_iff: "m < 32 \<Longrightarrow> n < 32 \<Longrightarrow> pcr_at m = pcr_at n \<longleftrightarrow> m = n"
  by (metis unat_pcr_at)

lemma select_bits_eq:
  assumes "bi < 4"
  shows "list_all (\<lambda>k. k < 8) ks \<Longrightarrow>
    select_bits bi b ks is = returns (is \<union> (\<lambda>k. pcr_at (bi * 8 + k)) ` {k \<in> set ks. bit b k})"
proof (induction ks arbitrary: "is")
  case (Cons k ks)
  then have "k < 8" by simp
  with assms have n: "bi * 8 + k < 32" by simp
  have sel: "{x \<in> set (k # ks). bit b x} = (if bit b k then insert k {x \<in> set ks. bit b x} else {x \<in> set ks. bit b x})"
    by auto
  show ?case
    using Cons n unfolding sel select_bits.simps test_bit [OF \<open>k < 8\<close>]
    by (simp add: Let_def max_index_value_def new_index_of_nat del: of_nat_add of_nat_mult)
qed simp

definition selected :: "byte list \<Rightarrow> nat \<Rightarrow> index set" where
  "selected bs n = {pcr_at m |m. m < n * 8 \<and> bit (bs ! (m div 8)) (m mod 8)}"

lemma selected_Suc:
  "selected bs (Suc n) = selected bs n \<union> (\<lambda>k. pcr_at (n * 8 + k)) ` {k \<in> set [0..<8]. bit (bs ! n) k}"
proof -
  have "m < Suc n * 8 \<and> bit (bs ! (m div 8)) (m mod 8) \<longleftrightarrow>
      (m < n * 8 \<and> bit (bs ! (m div 8)) (m mod 8)) \<or> (\<exists>k<8. m = n * 8 + k \<and> bit (bs ! n) k)" for m
  proof -
    have "m < Suc n * 8 \<longleftrightarrow> m < n * 8 \<or> (\<exists>k<8. m = n * 8 + k)" by presburger
    moreover have "(n * 8 + k) div 8 = n" and "(n * 8 + k) mod 8 = k" if "k < 8" for k
      using that by simp_all
    ultimately show ?thesis by (metis add.commute not_add_less1)
  qed
  then show ?thesis by (auto simp: selected_def)
qed

lemma select_bytes_append:
  "select_bytes sel (xs @ ys) is = bind_try (select_bytes sel xs is) (select_bytes sel ys)"
proof (induction xs arbitrary: "is")
  case (Cons x xs)
  show ?case
  proof (cases "array_read x sel")
    case (Inr b)
    then show ?thesis using Cons
      by (cases "(select_bits x b [0..<8] is, select_bytes sel xs)" rule: bind_try.cases) simp_all
  qed simp
qed simp

lemma select_bytes_eq:
  "n \<le> 4 \<Longrightarrow> n \<le> length bs \<Longrightarrow> select_bytes bs [0..<n] {} = returns (selected bs n)"
proof (induction n)
  case (Suc n)
  have "list_all (\<lambda>k. k < 8) [0..<8]" by (simp add: list_all_iff)
  from select_bits_eq [OF _ this, of n "bs ! n" "selected bs n"] Suc show ?case
    by (simp add: select_bytes_append selected_Suc)
qed (simp add: selected_def)

lemma unat_selection_size:
  "wf_index i \<Longrightarrow> unat (selection_size_for_pcr (index_value i)) = max 3 (unat (index_value i) div 8 + 1)"
proof -
  assume "wf_index i"
  then have v: "unat (index_value i) < 32" by (simp add: wf_index_unat)
  then have "unat (index_value i div 8 + 1) = unat (index_value i) div 8 + 1"
    by (simp add: unat_word_ariths unat_div)
  then show ?thesis
    by (simp add: selection_size_for_pcr_def pcr_select_min_size_def max_def word_le_nat_alt)
qed

definition pcr_bit :: "byte list \<Rightarrow> nat \<Rightarrow> bool" where
  "pcr_bit bs m \<longleftrightarrow> bit (bs ! (m div 8)) (m mod 8)"

lemma pcr_bit_set:
  assumes "m < 32" and "v < 32" and "length bs = 4"
  shows "pcr_bit (bs[v div 8 := ucast ((ucast (bs ! (v div 8)) :: u32) OR push_bit (v mod 8) 1)]) m
     \<longleftrightarrow> pcr_bit bs m \<or> m = v"
proof (cases "m div 8 = v div 8")
  case True
  then have "m mod 8 = v mod 8 \<longleftrightarrow> m = v" by (metis div_mult_mod_eq)
  moreover have "v div 8 < length bs" using assms by simp
  ultimately show ?thesis unfolding pcr_bit_def True by (simp add: set_bit_byte del: push_bit_of_1)
next
  case False
  then show ?thesis by (auto simp: pcr_bit_def)
qed

lemma select_indices_spec:
  "list_all wf_index is \<Longrightarrow> length (pcr_select s) = 4 \<Longrightarrow> 3 \<le> unat (sizeof_select s) \<Longrightarrow>
     unat (sizeof_select s) \<le> 4 \<Longrightarrow>
   \<exists>s'. select_indices is s = Inr s' \<and> sel_hash s' = sel_hash s \<and> length (pcr_select s') = 4 \<and>
     unat (sizeof_select s) \<le> unat (sizeof_select s') \<and> unat (sizeof_select s') \<le> 4 \<and>
     (\<forall>m<32. pcr_bit (pcr_select s') m \<longleftrightarrow> pcr_bit (pcr_select s) m \<or> pcr_at m \<in> set is) \<and>
     (\<forall>i \<in> set is. unat (index_value i) < unat (sizeof_select s') * 8)"
proof (induction "is" arbitrary: s)
  case (Cons i "is")
  define v where "v = unat (index_value i)"
  have v: "v < 32" and wf: "wf_index i" using Cons.prems by (simp_all add: v_def wf_index_unat)
  define t where "t = s\<lparr>sizeof_select := max (sizeof_select s) (selection_size_for_pcr (index_value i)),
    pcr_select := (pcr_select s)[v div 8 :=
      ucast ((ucast (pcr_select s ! (v div 8)) :: u32) OR push_bit (v mod 8) 1)]\<rparr>"
  have size: "unat (sizeof_select t) = max (unat (sizeof_select s)) (max 3 (v div 8 + 1))"
    using unat_selection_size [OF wf] by (simp add: t_def v_def max_def word_le_nat_alt)
  have step: "select_indices (i # is) s = select_indices is t"
    using v Cons.prems by (simp add: t_def v_def Let_def unat_div unat_mod)
  have "\<exists>s'. select_indices is t = Inr s' \<and> sel_hash s' = sel_hash t \<and> length (pcr_select s') = 4 \<and>
     unat (sizeof_select t) \<le> unat (sizeof_select s') \<and> unat (sizeof_select s') \<le> 4 \<and>
     (\<forall>m<32. pcr_bit (pcr_select s') m \<longleftrightarrow> pcr_bit (pcr_select t) m \<or> pcr_at m \<in> set is) \<and>
     (\<forall>i \<in> set is. unat (index_value i) < unat (sizeof_select s') * 8)"
    using Cons.prems v by (intro Cons.IH) (auto simp: size, auto simp: t_def)
  then obtain s' where s': "select_indices is t = Inr s'" "sel_hash s' = sel_hash t"
     "length (pcr_select s') = 4" "unat (sizeof_select t) \<le> unat (sizeof_select s')"
     "unat (sizeof_select s') \<le> 4"
     "\<forall>m<32. pcr_bit (pcr_select s') m \<longleftrightarrow> pcr_bit (pcr_select t) m \<or> pcr_at m \<in> set is"
     "\<forall>i \<in> set is. unat (index_value i) < unat (sizeof_select s') * 8" by blast
  have "pcr_bit (pcr_select t) m \<longleftrightarrow> pcr_bit (pcr_select s) m \<or> pcr_at m = i" if "m < 32" for m
    using pcr_bit_set [OF that v Cons.prems(2)] that v
    by (simp add: t_def v_def) (metis pcr_at_unat unat_pcr_at)
  then have "\<forall>m<32. pcr_bit (pcr_select s') m \<longleftrightarrow> pcr_bit (pcr_select s) m \<or> pcr_at m \<in> set (i # is)"
    using s'(6) by auto
  moreover have "v < unat (sizeof_select s') * 8"
    using s'(4) size by linarith
  ultimately show ?case
    using step s' size by (auto simp: t_def v_def)
qed auto

lemma to_tpm_selection_spec:
  assumes "sizes_documented T" and "wf_selection legacy sel"
  shows "\<exists>s. to_tpm_selection legacy T sel =
      Inr \<lparr>psel_count = 1, pcr_selections = s # replicate (num_pcr_banks T - 1) (zero_pcr_selection T)\<rparr> \<and>
    sel_hash s = algorithm_to_tpm legacy T (sel_algorithm sel) \<and>
    3 \<le> unat (sizeof_select s) \<and> unat (sizeof_select s) \<le> 4 \<and> length (pcr_select s) = 4 \<and>
    selected (pcr_select s) (unat (sizeof_select s)) = sel_indices sel"
proof -
  let ?z = "(zero_pcr_selection T)\<lparr>sel_hash := algorithm_to_tpm legacy T (sel_algorithm sel),
                          sizeof_select := pcr_select_min_size\<rparr>"
  let ?is = "sorted_list_of_set (sel_indices sel)"
  have set: "set ?is = sel_indices sel" by simp
  have "list_all wf_index ?is" using assms by (simp add: list_all_iff wf_selection_def)
  moreover have "length (pcr_select ?z) = 4" "unat (sizeof_select ?z) = 3"
    using assms by (simp_all add: zero_pcr_selection_def sizes_documented_def pcr_select_min_size_def)
  ultimately obtain s where s: "select_indices ?is ?z = Inr s" "sel_hash s = sel_hash ?z"
     "length (pcr_select s) = 4" "3 \<le> unat (sizeof_select s)" "unat (sizeof_select s) \<le> 4"
     "\<forall>m<32. pcr_bit (pcr_select s) m \<longleftrightarrow> pcr_bit (pcr_select ?z) m \<or> pcr_at m \<in> set ?is"
     "\<forall>i \<in> set ?is. unat (index_value i) < unat (sizeof_select s) * 8"
    using select_indices_spec [of ?is ?z] by auto
  have "\<not> pcr_bit (pcr_select ?z) m" if "m < 32" for m
    using that assms by (simp add: pcr_bit_def zero_pcr_selection_def sizes_documented_def)
  then have bits: "pcr_bit (pcr_select s) m \<longleftrightarrow> pcr_at m \<in> sel_indices sel" if "m < 32" for m
    using s(6) that set by simp
  have "selected (pcr_select s) (unat (sizeof_select s)) = sel_indices sel"
  proof (rule set_eqI)
    fix i
    have "(\<exists>m. i = pcr_at m \<and> m < unat (sizeof_select s) * 8 \<and> pcr_bit (pcr_select s) m) \<longleftrightarrow> i \<in> sel_indices sel"
    proof
      assume "\<exists>m. i = pcr_at m \<and> m < unat (sizeof_select s) * 8 \<and> pcr_bit (pcr_select s) m"
      then show "i \<in> sel_indices sel" using bits s(5) by fastforce
    next
      assume i: "i \<in> sel_indices sel"
      then have "unat (index_value i) < 32" using assms by (auto simp: wf_selection_def wf_index_unat)
      with i bits [of "unat (index_value i)"] s(7) set show
        "\<exists>m. i = pcr_at m \<and> m < unat (sizeof_select s) * 8 \<and> pcr_bit (pcr_select s) m"
        by (intro exI [of _ "unat (index_value i)"]) auto
    qed
    then show "i \<in> selected (pcr_select s) (unat (sizeof_select s)) \<longleftrightarrow> i \<in> sel_indices sel"
      by (auto simp: selected_def pcr_bit_def)
  qed
  moreover obtain m where "num_pcr_banks T = Suc m" using assms by (cases "num_pcr_banks T") (auto simp: sizes_documented_def)
  ultimately show ?thesis
    using s by (auto simp: to_tpm_selection_def zero_tpml_pcr_selection_def Let_def)
qed

lemma selected_wf: "i \<in> selected bs n \<Longrightarrow> n \<le> 4 \<Longrightarrow> wf_index i"
  by (auto simp: selected_def intro!: wf_pcr_at)

text \<open>Structures as the TPM stack hands them over: every array has its static size.\<close>

definition wf_tpml_pcr_selection :: "tss \<Rightarrow> tpml_pcr_selection \<Rightarrow> bool" where
  "wf_tpml_pcr_selection T s \<longleftrightarrow> length (pcr_selections s) = num_pcr_banks T \<and>
     list_all (\<lambda>x. length (pcr_select x) = pcr_select_max T) (pcr_selections s)"

definition wf_tpml_digest_values :: "tss \<Rightarrow> tpml_digest_values \<Rightarrow> bool" where
  "wf_tpml_digest_values T d \<longleftrightarrow>
     length (dvs_digests d) = num_pcr_banks T \<and> list_all (wf_ha T) (dvs_digests d)"

definition wf_tpml_digest :: "tss \<Rightarrow> tpml_digest \<Rightarrow> bool" where
  "wf_tpml_digest T d \<longleftrightarrow>
     list_all (\<lambda>x. length (tpm2b_buffer x) = digest_buffer_size T) (digs_digests d)"

lemma to_domain_selection_eq:
  assumes "sizes_documented T" and "wf_tpml_pcr_selection T s" and "psel_count s = 1"
    and "sel_hash (pcr_selections s ! 0) = algorithm_to_tpm legacy T a" and "supported_hash legacy a"
    and "alg_ids_documented T" and "unat (sizeof_select (pcr_selections s ! 0)) \<le> 4"
  shows "to_domain_selection legacy T s fallback = returns
     \<lparr>sel_algorithm = a,
      sel_indices = selected (pcr_select (pcr_selections s ! 0)) (unat (sizeof_select (pcr_selections s ! 0)))\<rparr>"
proof -
  have "0 < length (pcr_selections s)" using assms by (simp add: wf_tpml_pcr_selection_def sizes_documented_def)
  moreover from this have "length (pcr_select (pcr_selections s ! 0)) = 4"
    using assms by (auto simp: wf_tpml_pcr_selection_def sizes_documented_def list_all_length)
  ultimately show ?thesis
    using assms by (simp add: to_domain_selection_def algorithm_round select_bytes_eq
        new_selection_cases sizes_documented_def)
qed

section \<open>Digest lists\<close>

lemma algorithm_from_tpm_inv:
  "algorithm_from_tpm legacy T i = Inr a \<Longrightarrow> algorithm_to_tpm legacy T a = i \<and> supported_hash legacy a"
  by (auto simp: algorithm_from_tpm_def split: if_splits)

lemma is_supported_algorithm_iff:
  "alg_ids_documented T \<Longrightarrow> is_supported_algorithm legacy T a \<longleftrightarrow> supported_hash legacy a"
  by (cases a) (auto simp: is_supported_algorithm_def alg_ids_documented_def)

lemma algorithm_from_tpm_error:
  "algorithm_from_tpm legacy T i = Inl e \<Longrightarrow> category e = backend_error"
  by (auto simp: algorithm_from_tpm_def split: if_splits)

lemma make_digest_value_sized:
  "digest_size legacy a = Inr n \<Longrightarrow> n \<le> length bs \<Longrightarrow>
   make_digest_value legacy a (Some bs) sz =
     (if sz = n then returns \<lparr>dv_algorithm = a, dv_digest = take n bs\<rparr>
      else fails (err backend_error ''TPM returned PCR digest with unexpected size''))"
  by (auto simp: make_digest_value_def new_digest_value_ok)

lemma make_digest_value_wf:
  "make_digest_value legacy a data sz = returns d \<Longrightarrow> wf_digest_value legacy d \<and> dv_algorithm d = a"
  by (auto simp: make_digest_value_def bind_try_value_iff new_digest_value_def wf_digest_value_def
      bind_ok_Inr_iff split: if_splits)

lemma make_digest_value_ha_eq:
  assumes "sizes_documented T" and "wf_ha T d"
  shows "make_digest_value_ha legacy T d =
     (case algorithm_from_tpm legacy T (hash_alg d) of
        Inl e \<Rightarrow> fails e
      | Inr a \<Rightarrow> returns \<lparr>dv_algorithm = a, dv_digest = take (projr (digest_size legacy a)) (ha_bytes d)\<rparr>)"
proof (cases "algorithm_from_tpm legacy T (hash_alg d)")
  case (Inl e)
  then show ?thesis by (simp add: make_digest_value_ha_def)
next
  case (Inr a)
  then have "supported_hash legacy a" using algorithm_from_tpm_inv by blast
  with Inr assms show ?thesis
    by (cases a) (auto simp: make_digest_value_ha_def make_digest_value_sized wf_ha_def sizes_documented_def)
qed

lemma domain_digests_loop_wf:
  assumes "sizes_documented T"
  shows "list_all (wf_ha T) ds \<Longrightarrow> list_all (wf_digest_value legacy) acc \<Longrightarrow>
    (\<exists>e. convert_digests legacy T ds acc = fails e \<and> category e = backend_error) \<or>
    (\<exists>vs. convert_digests legacy T ds acc = returns vs \<and> list_all (wf_digest_value legacy) vs)"
proof (induction ds arbitrary: acc)
  case (Cons d ds)
  show ?case
  proof (cases "algorithm_from_tpm legacy T (hash_alg d)")
    case (Inl e)
    with Cons assms show ?thesis
      by (auto simp: make_digest_value_ha_eq algorithm_from_tpm_error)
  next
    case (Inr a)
    then have "supported_hash legacy a" using algorithm_from_tpm_inv by blast
    then have "wf_digest_value legacy \<lparr>dv_algorithm = a, dv_digest = take (projr (digest_size legacy a)) (ha_bytes d)\<rparr>"
      using assms Cons.prems by (cases a) (auto simp: wf_digest_value_def wf_ha_def sizes_documented_def)
    with Inr Cons assms show ?thesis
      by (simp add: make_digest_value_ha_eq)
  qed
qed simp

definition ha_of :: "bool \<Rightarrow> tss \<Rightarrow> digest_value \<Rightarrow> tpmt_ha" where
  "ha_of legacy T d =
     \<lparr>hash_alg = algorithm_to_tpm legacy T (dv_algorithm d),
      ha_bytes = dv_digest d @ replicate (ha_union_size T - length (dv_digest d)) 0\<rparr>"

lemma set_digest_bytes_zero:
  assumes "sizes_documented T" and "wf_digest_value legacy d"
  shows "set_digest_bytes legacy T (zero_tpmt_ha T) d = Inr (ha_of legacy T d)"
  using assms wf_digest_value_bound [OF assms(2)]
  by (cases "dv_algorithm d")
     (auto simp: set_digest_bytes_def zero_tpmt_ha_def ha_of_def sizes_documented_def
        wf_digest_value_def Let_def split: if_splits)

lemma digest_values_loop_eq:
  assumes "sizes_documented T"
  shows "list_all (wf_digest_value legacy) ds \<Longrightarrow> length ds \<le> m \<Longrightarrow>
    digest_values_loop legacy T (length done_ha) ds (done_ha @ replicate m (zero_tpmt_ha T)) =
      Inr (done_ha @ map (ha_of legacy T) ds @ replicate (m - length ds) (zero_tpmt_ha T))"
proof (induction ds arbitrary: done_ha m)
  case (Cons d ds)
  then obtain m' where m: "m = Suc m'" by (cases m) auto
  have "digest_values_loop legacy T (length (done_ha @ [ha_of legacy T d])) ds
      ((done_ha @ [ha_of legacy T d]) @ replicate m' (zero_tpmt_ha T)) =
    Inr ((done_ha @ [ha_of legacy T d]) @ map (ha_of legacy T) ds @ replicate (m' - length ds) (zero_tpmt_ha T))"
    using Cons.prems m by (intro Cons.IH) auto
  with Cons.prems assms m show ?case
    by (simp add: set_digest_bytes_zero nth_append list_update_append)
qed simp

lemma to_tpm_digest_values_eq:
  assumes "sizes_documented T" and "list_all (wf_digest_value legacy) ds" and "length ds \<le> num_pcr_banks T"
  shows "to_tpm_digest_values legacy T ds =
     Inr \<lparr>dvs_count = of_nat (length ds),
          dvs_digests = map (ha_of legacy T) ds @ replicate (num_pcr_banks T - length ds) (zero_tpmt_ha T)\<rparr>"
  using digest_values_loop_eq [OF assms(1,2,3), of "[]"]
  by (simp add: to_tpm_digest_values_def zero_tpml_digest_values_def Let_def)

section \<open>What the conversions promise\<close>

text \<open>An answer of the conversions: a well-formed value, or an error of the back end.\<close>

definition good_answer :: "('a \<Rightarrow> bool) \<Rightarrow> 'a call \<Rightarrow> bool" where
  "good_answer P r \<longleftrightarrow>
     (case r of Inl _ \<Rightarrow> False | Inr (Inl e) \<Rightarrow> category e = backend_error | Inr (Inr x) \<Rightarrow> P x)"

lemma good_answer_simps [simp]:
  "good_answer P (fails e) \<longleftrightarrow> category e = backend_error"
  "good_answer P (returns x) \<longleftrightarrow> P x"
  "\<not> good_answer P (Inl f)"
  by (simp_all add: good_answer_def)

lemma good_answer_bind:
  "good_answer P m \<Longrightarrow> (\<And>x. P x \<Longrightarrow> good_answer Q (f x)) \<Longrightarrow> good_answer Q (bind_try m f)"
  by (cases "(m, f)" rule: bind_try.cases) simp_all

lemma good_answer_cases:
  "good_answer P r \<longleftrightarrow>
     (\<exists>e. r = fails e \<and> category e = backend_error) \<or> (\<exists>x. r = returns x \<and> P x)"
  by (auto simp: good_answer_def split: sum.splits)

lemma good_algorithm: "good_answer (supported_hash legacy) (Inr (algorithm_from_tpm legacy T i))"
  by (cases "algorithm_from_tpm legacy T i")
     (auto dest: algorithm_from_tpm_inv algorithm_from_tpm_error)

lemma good_digest_value:
  assumes "supported_hash legacy a" and "64 \<le> length bs"
  shows "good_answer (\<lambda>d. wf_digest_value legacy d \<and> dv_algorithm d = a)
           (make_digest_value legacy a (Some bs) sz)"
proof -
  obtain n where n: "digest_size legacy a = Inr n" "n \<le> 64"
    using assms digest_size_total_iff digest_size_bound by metis
  with assms show ?thesis by (simp add: make_digest_value_sized wf_digest_value_def min_def)
qed

lemma good_domain_selection:
  assumes "sizes_documented T" and "wf_tpml_pcr_selection T s" and "supported_hash legacy fallback"
  shows "good_answer (wf_selection legacy) (to_domain_selection legacy T s fallback)"
proof -
  have len: "0 < length (pcr_selections s)"
    using assms by (simp add: wf_tpml_pcr_selection_def sizes_documented_def)
  then have "length (pcr_select (pcr_selections s ! 0)) = 4"
    using assms by (auto simp: wf_tpml_pcr_selection_def sizes_documented_def list_all_length)
  moreover have "pcr_select_max T = 4" using assms by (simp add: sizes_documented_def)
  ultimately have *: "good_answer (wf_selection legacy)
     (if unat (sizeof_select (pcr_selections s ! 0)) > pcr_select_max T
      then fails (err backend_error ''TPM returned malformed PCR selection size'')
      else bind_try (select_bytes (pcr_select (pcr_selections s ! 0))
                       [0..<unat (sizeof_select (pcr_selections s ! 0))] {})
             (\<lambda>is. or_throw (new_selection legacy a is)))" if "supported_hash legacy a" for a
    using that by (auto simp: select_bytes_eq new_selection_cases wf_selection_def not_less dest: selected_wf)
  show ?thesis
    using assms(3) len good_answer_bind [OF good_algorithm *]
    by (simp add: to_domain_selection_def new_empty_selection_def new_selection_cases wf_selection_def)
qed

lemma good_domain_digests:
  assumes "sizes_documented T" and "wf_tpml_digest_values T d"
  shows "good_answer (list_all (wf_digest_value legacy)) (to_domain_digests legacy T d)"
proof -
  have "list_all (wf_ha T) (take (unat (dvs_count d)) (dvs_digests d))"
    using assms by (auto simp: wf_tpml_digest_values_def list_all_iff dest: in_set_takeD)
  from domain_digests_loop_wf [OF assms(1) this, of legacy "[]"] show ?thesis
    by (auto simp: to_domain_digests_eq)
qed

lemma good_read_values_loop:
  assumes "supported_hash legacy a"
  shows "list_all (\<lambda>x. 64 \<le> length (tpm2b_buffer x)) ds \<Longrightarrow> length ds = length is \<Longrightarrow>
    good_answer (\<lambda>vs. \<exists>ws. vs = acc @ ws \<and> map pv_index ws = is \<and>
        (\<forall>v \<in> set ws. wf_digest_value legacy (pv_digest v) \<and> dv_algorithm (pv_digest v) = a))
      (convert_values legacy a ds is acc)"
proof (induction ds arbitrary: "is" acc)
  case (Cons d ds)
  then obtain i rest where rest: "is = i # rest" by (cases "is") auto
  have good: "good_answer (\<lambda>v. wf_digest_value legacy v \<and> dv_algorithm v = a)
      (make_digest_value legacy a (Some (tpm2b_buffer d)) (unat (tpm2b_size d)))"
    using Cons.prems assms by (intro good_digest_value) auto
  have "good_answer (\<lambda>vs. \<exists>ws. vs = acc @ ws \<and> map pv_index ws = is \<and>
        (\<forall>v \<in> set ws. wf_digest_value legacy (pv_digest v) \<and> dv_algorithm (pv_digest v) = a))
      (convert_values legacy a ds rest (acc @ [\<lparr>pv_index = i, pv_digest = v\<rparr>]))"
    if v: "wf_digest_value legacy v \<and> dv_algorithm v = a" for v
    using Cons.IH [of rest "acc @ [\<lparr>pv_index = i, pv_digest = v\<rparr>]"] Cons.prems v rest
    unfolding good_answer_cases by (auto 4 4)
  then show ?case
    unfolding rest convert_values.simps by (intro good_answer_bind [OF good]) simp
qed (simp add: good_answer_def)

lemma good_domain_read_values:
  assumes "sizes_documented T" and "wf_tpml_digest T d" and "wf_selection legacy sel"
  shows "good_answer (\<lambda>vs. map pv_index vs = sorted_list_of_set (sel_indices sel) \<and>
      (\<forall>v \<in> set vs. wf_digest_value legacy (pv_digest v) \<and>
         dv_algorithm (pv_digest v) = sel_algorithm sel))
    (to_domain_read_values legacy d sel)"
proof -
  let ?ds = "take (unat (digs_count d)) (digs_digests d)"
  have wf: "list_all (\<lambda>x. 64 \<le> length (tpm2b_buffer x)) ?ds"
    using assms by (auto simp: wf_tpml_digest_def sizes_documented_def list_all_iff dest: in_set_takeD)
  have "supported_hash legacy (sel_algorithm sel)" using assms by (simp add: wf_selection_def)
  from good_read_values_loop [OF this wf, of "sorted_list_of_set (sel_indices sel)" "[]"] show ?thesis
    by (auto simp: to_domain_read_values_eq)
qed

lemma fill_tpm2b_eq:
  "length bs \<le> n \<Longrightarrow>
   fill_tpm2b n bs =
     Inr \<lparr>tpm2b_size = of_nat (length bs), tpm2b_buffer = bs @ replicate (n - length bs) 0\<rparr>"
  by (simp add: fill_tpm2b_def zero_tpm2b_def Let_def)

text \<open>The sized buffer read back: the bytes its size field announces.\<close>

definition tpm2b_bytes :: "tpm2b \<Rightarrow> byte list" where
  "tpm2b_bytes b = take (unat (tpm2b_size b)) (tpm2b_buffer b)"

lemma fill_tpm2b_bytes:
  "length bs \<le> n \<Longrightarrow> n < 2 ^ 16 \<Longrightarrow>
   \<exists>b. fill_tpm2b n bs = Inr b \<and> tpm2b_bytes b = bs \<and> length (tpm2b_buffer b) = n"
  by (simp add: fill_tpm2b_eq tpm2b_bytes_def unat_of_nat)

definition allocation_of :: "bool \<Rightarrow> tss \<Rightarrow> bank \<Rightarrow> tpms_pcr_selection" where
  "allocation_of legacy T b =
     \<lparr>sel_hash = algorithm_to_tpm legacy T (bank_algorithm b), sizeof_select = 3,
      pcr_select = [0xff, 0xff, 0xff, 0]\<rparr>"

lemma upt_3: "[0..<3] = [0, 1, 2 :: nat]"
  by (simp add: upt_rec)

lemma replicate_4: "replicate 4 x = [x, x, x, x]"
  by (simp add: numeral_eq_Suc)

lemma select_all_zero:
  "sizes_documented T \<Longrightarrow>
   select_all_pcrs ((zero_pcr_selection T)\<lparr>sel_hash := algorithm_to_tpm legacy T (bank_algorithm b)\<rparr>)
     = Inr (allocation_of legacy T b)"
  by (simp add: select_all_pcrs_def zero_pcr_selection_def sizes_documented_def allocation_of_def
      pcr_select_min_size_def upt_3 replicate_4)

lemma byte_all_ones: "k < 8 \<Longrightarrow> bit (0xff :: byte) k"
proof -
  have "(0xff :: byte) = - 1" by simp
  then show "k < 8 \<Longrightarrow> bit (0xff :: byte) k" by (simp only:) (simp add: bit_simps)
qed

lemma nat_less_3_cases:
  fixes n :: nat
  assumes "n = 0 \<Longrightarrow> P" "n = 1 \<Longrightarrow> P" "n = 2 \<Longrightarrow> P" "n \<ge> 3 \<Longrightarrow> P"
  shows P
  using assms by linarith

lemma all_pcrs_selected: "selected [0xff, 0xff, 0xff, 0] 3 = {i. unat (index_value i) < 24}"
proof -
  have bits: "bit ([0xff, 0xff, 0xff, 0 :: byte] ! (m div 8)) (m mod 8)" if "m < 24" for m
  proof -
    have "[0xff, 0xff, 0xff, 0 :: byte] ! (m div 8) = 0xff"
      using that by (cases "m div 8" rule: nat_less_3_cases) simp_all
    then show ?thesis by (simp only:) (rule byte_all_ones, simp)
  qed
  have "i \<in> selected [0xff, 0xff, 0xff, 0] 3 \<longleftrightarrow> unat (index_value i) < 24" for i
  proof
    assume "i \<in> selected [0xff, 0xff, 0xff, 0] 3"
    then obtain m where "i = pcr_at m" "m < 24" unfolding selected_def by auto
    then show "unat (index_value i) < 24" by (simp only:) (simp add: unat_pcr_at)
  next
    assume "unat (index_value i) < 24"
    with bits [OF this] show "i \<in> selected [0xff, 0xff, 0xff, 0] 3"
      unfolding selected_def mem_Collect_eq
      by (intro exI [of _ "unat (index_value i)"]) (simp only: pcr_at_unat, simp)
  qed
  then show ?thesis by blast
qed

lemma allocation_loop_eq:
  assumes "sizes_documented T"
  shows "length bs \<le> m \<Longrightarrow>
    allocation_loop legacy T (length done_sel) bs (done_sel @ replicate m (zero_pcr_selection T)) =
      Inr (done_sel @ map (allocation_of legacy T) bs @ replicate (m - length bs) (zero_pcr_selection T))"
proof (induction bs arbitrary: done_sel m)
  case (Cons b bs)
  then obtain m' where m: "m = Suc m'" by (cases m) auto
  have "allocation_loop legacy T (length (done_sel @ [allocation_of legacy T b])) bs
      ((done_sel @ [allocation_of legacy T b]) @ replicate m' (zero_pcr_selection T)) =
    Inr ((done_sel @ [allocation_of legacy T b]) @ map (allocation_of legacy T) bs @
         replicate (m' - length bs) (zero_pcr_selection T))"
    using Cons.prems m by (intro Cons.IH) auto
  with Cons.prems assms m show ?case
    by (simp add: select_all_zero nth_append list_update_append)
qed simp

lemma to_tpm_allocation_eq:
  assumes "sizes_documented T" and "length banks \<le> num_pcr_banks T"
  shows "to_tpm_allocation legacy T banks =
     Inr \<lparr>psel_count = of_nat (length banks),
          pcr_selections = map (allocation_of legacy T) banks @
            replicate (num_pcr_banks T - length banks) (zero_pcr_selection T)\<rparr>"
  using allocation_loop_eq [OF assms, of legacy "[]"]
  by (simp add: to_tpm_allocation_def zero_tpml_pcr_selection_def Let_def)

lemma domain_digests_loop_round:
  assumes "sizes_documented T" and "alg_ids_documented T"
  shows "list_all (wf_digest_value legacy) ds \<Longrightarrow>
    convert_digests legacy T (map (ha_of legacy T) ds) acc = returns (acc @ ds)"
proof (induction ds arbitrary: acc)
  case (Cons d ds)
  then have wf: "wf_digest_value legacy d" by simp
  then have sup: "supported_hash legacy (dv_algorithm d)" by (rule wf_digest_value_supported)
  have ha: "wf_ha T (ha_of legacy T d)"
    using assms wf_digest_value_bound [OF wf] by (simp add: wf_ha_def ha_of_def sizes_documented_def)
  have "make_digest_value_ha legacy T (ha_of legacy T d) = returns d"
    using make_digest_value_ha_eq [OF assms(1) ha, of legacy] wf algorithm_round [OF assms(2) sup]
    by (simp add: ha_of_def wf_digest_value_def)
  moreover have "\<not> should_skip_disabled_pcr_algorithm legacy T (hash_alg (ha_of legacy T d))"
    using sup assms(2) by (cases "dv_algorithm d")
      (auto simp: should_skip_disabled_pcr_algorithm_def ha_of_def alg_ids_documented_def)
  ultimately show ?case using Cons by simp
qed simp

lemma digest_values_round:
  assumes "sizes_documented T" and "alg_ids_documented T"
    and "list_all (wf_digest_value legacy) ds" and "length ds \<le> num_pcr_banks T"
  shows "bind_try (or_throw (to_tpm_digest_values legacy T ds)) (to_domain_digests legacy T) = returns ds"
proof -
  have "length ds < 2 ^ 32" using assms by (simp add: sizes_documented_def)
  then have "unat (of_nat (length ds) :: u32) = length ds" by (simp add: unat_of_nat)
  with assms show ?thesis
    by (simp add: to_tpm_digest_values_eq to_domain_digests_eq domain_digests_loop_round)
qed

lemma selection_round:
  assumes "sizes_documented T" and "alg_ids_documented T" and "wf_selection legacy sel"
  shows "bind_try (or_throw (to_tpm_selection legacy T sel))
           (\<lambda>s. to_domain_selection legacy T s fallback) = returns sel"
proof -
  obtain s where s: "to_tpm_selection legacy T sel =
      Inr \<lparr>psel_count = 1, pcr_selections = s # replicate (num_pcr_banks T - 1) (zero_pcr_selection T)\<rparr>"
    "sel_hash s = algorithm_to_tpm legacy T (sel_algorithm sel)"
    "3 \<le> unat (sizeof_select s)" "unat (sizeof_select s) \<le> 4" "length (pcr_select s) = 4"
    "selected (pcr_select s) (unat (sizeof_select s)) = sel_indices sel"
    using to_tpm_selection_spec [OF assms(1,3)] by blast
  have "wf_tpml_pcr_selection T \<lparr>psel_count = 1,
      pcr_selections = s # replicate (num_pcr_banks T - 1) (zero_pcr_selection T)\<rparr>"
    using assms(1) s by (simp add: wf_tpml_pcr_selection_def sizes_documented_def zero_pcr_selection_def list_all_iff)
  from to_domain_selection_eq [OF assms(1) this] s assms show ?thesis
    by (simp add: wf_selection_def)
qed

section \<open>Properties\<close>

text \<open>
  C12: A PCR selection survives the trip to the TPM structure and back: the bit mask that
  \<^verbatim>\<open>to_tpm_selection\<close> writes is read by \<^verbatim>\<open>to_domain_selection\<close> as the same algorithm and the same
  set of registers, for every selection the domain type can hold, and no array is left on the way.
\<close>
theorem selection_round_trip:
  assumes "sizes_documented T" and "alg_ids_documented T" and "wf_selection legacy sel"
  shows "bind_try (or_throw (to_tpm_selection legacy T sel))
           (\<lambda>s. to_domain_selection legacy T s fallback) = returns sel"
  using assms by (rule selection_round)

lemma selection_round_trip_witness:
  "bind_try (or_throw (to_tpm_selection False tss_4_1 \<lparr>sel_algorithm = sha256, sel_indices = {Index 0, Index 31}\<rparr>))
     (\<lambda>s. to_domain_selection False tss_4_1 s sha384) =
   returns \<lparr>sel_algorithm = sha256, sel_indices = {Index 0, Index 31}\<rparr>"
  by (rule selection_round_trip) (simp_all add: wf_selection_def wf_index_unat)

text \<open>
  C13: A list of digests survives the trip to the TPM structure and back: every digest keeps its
  algorithm and its bytes, in order, although the structure stores them in fixed unions.
\<close>
theorem digest_list_round_trip:
  assumes "sizes_documented T" and "alg_ids_documented T"
    and "list_all (wf_digest_value legacy) ds" and "length ds \<le> num_pcr_banks T"
  shows "bind_try (or_throw (to_tpm_digest_values legacy T ds)) (to_domain_digests legacy T) = returns ds"
  using assms by (rule digest_values_round)

lemma digest_list_round_trip_witness:
  "bind_try (or_throw (to_tpm_digest_values False tss_4_1
       [\<lparr>dv_algorithm = sha256, dv_digest = replicate 32 7\<rparr>, \<lparr>dv_algorithm = sha512, dv_digest = replicate 64 9\<rparr>]))
     (to_domain_digests False tss_4_1) =
   returns [\<lparr>dv_algorithm = sha256, dv_digest = replicate 32 7\<rparr>, \<lparr>dv_algorithm = sha512, dv_digest = replicate 64 9\<rparr>]"
  by (rule digest_list_round_trip) (simp_all add: wf_digest_value_def tss_4_1_fields)

text \<open>
  C14: Whatever counts, sizes, algorithm identifiers and select bits the TPM returns, the
  conversions never read outside an array, neither the arrays the counts index nor the buffers the
  sizes measure, and never throw: each gives well-formed domain values or a back-end error. A read answer, when it is accepted, has one digest of the selection's
  algorithm for each selected register, in increasing order of the registers.
\<close>
theorem tpm_answers_contained:
  assumes "sizes_documented T" and "supported_hash legacy fallback"
    and "wf_tpml_pcr_selection T s" and "wf_tpml_digest_values T d" and "wf_tpml_digest T v"
  shows "good_answer (wf_selection legacy) (to_domain_selection legacy T s fallback) \<and>
    good_answer (list_all (wf_digest_value legacy)) (to_domain_digests legacy T d) \<and>
    good_answer (\<lambda>(sel, vs). map pv_index vs = sorted_list_of_set (sel_indices sel) \<and>
        list_all (\<lambda>x. wf_digest_value legacy (pv_digest x) \<and> dv_algorithm (pv_digest x) = sel_algorithm sel) vs)
      (bind_try (to_domain_selection legacy T s fallback)
         (\<lambda>sel. bind_try (to_domain_read_values legacy v sel) (\<lambda>vs. returns (sel, vs))))"
  using good_domain_selection [OF assms(1,3,2)] good_domain_digests [OF assms(1,4)]
    good_domain_read_values [OF assms(1,5)]
  by (auto intro!: good_answer_bind simp: list_all_iff)

lemma tpm_answers_contained_witness:
  "good_answer (wf_selection False) (to_domain_selection False tss_4_1
       ((zero_tpml_pcr_selection tss_4_1)\<lparr>psel_count := 77\<rparr>) sha256) \<and>
    good_answer (list_all (wf_digest_value False)) (to_domain_digests False tss_4_1
       ((zero_tpml_digest_values tss_4_1)\<lparr>dvs_count := 0xffffffff\<rparr>)) \<and>
    good_answer (\<lambda>(sel, vs). map pv_index vs = sorted_list_of_set (sel_indices sel) \<and>
        list_all (\<lambda>x. wf_digest_value False (pv_digest x) \<and> dv_algorithm (pv_digest x) = sel_algorithm sel) vs)
      (bind_try (to_domain_selection False tss_4_1 ((zero_tpml_pcr_selection tss_4_1)\<lparr>psel_count := 77\<rparr>) sha256)
         (\<lambda>sel. bind_try (to_domain_read_values False
              \<lparr>digs_count = 9, digs_digests = replicate 8 (zero_tpm2b 64)\<rparr> sel) (\<lambda>vs. returns (sel, vs))))"
proof (rule tpm_answers_contained)
  show "wf_tpml_pcr_selection tss_4_1 ((zero_tpml_pcr_selection tss_4_1)\<lparr>psel_count := 77\<rparr>)"
    by (simp add: wf_tpml_pcr_selection_def zero_tpml_pcr_selection_def zero_pcr_selection_def list_all_iff)
  show "wf_tpml_digest_values tss_4_1 ((zero_tpml_digest_values tss_4_1)\<lparr>dvs_count := 0xffffffff\<rparr>)"
    by (simp add: wf_tpml_digest_values_def zero_tpml_digest_values_def zero_tpmt_ha_def wf_ha_def list_all_iff)
  show "wf_tpml_digest tss_4_1 \<lparr>digs_count = 9, digs_digests = replicate 8 (zero_tpm2b 64)\<rparr>"
    by (simp add: wf_tpml_digest_def zero_tpm2b_def list_all_iff tss_4_1_fields)
qed simp_all

text \<open>
  Event data and authorization digests reach the TPM whole: the size field of the sized buffer
  announces exactly the bytes given, for every length up to the buffer's capacity, although it has
  only 16 bits.
\<close>
theorem sized_buffers_exact:
  assumes "sizes_documented T" and "length event_data \<le> event_buffer_size T"
    and "length auth \<le> digest_buffer_size T"
  shows "\<exists>e a. to_tpm_event T event_data = Inr e \<and> tpm2b_bytes e = event_data \<and>
     to_tpm_sized_digest T auth = Inr a \<and> tpm2b_bytes a = auth"
  using fill_tpm2b_bytes [OF assms(2)] fill_tpm2b_bytes [OF assms(3)] assms(1)
  by (simp add: to_tpm_event_def to_tpm_sized_digest_def sizes_documented_def) blast

lemma sized_buffers_exact_witness:
  "\<exists>e a. to_tpm_event tss_4_1 [1, 2, 3] = Inr e \<and> tpm2b_bytes e = [1, 2, 3] \<and>
     to_tpm_sized_digest tss_4_1 [] = Inr a \<and> tpm2b_bytes a = []"
  by (rule sized_buffers_exact) (simp_all, simp add: tss_4_1_fields)

text \<open>
  C27: An allocation request has one entry for each bank given, in the given order: the entry names
  the bank's algorithm and selects registers 0 to 23 and no other.
\<close>
theorem allocation_exact:
  assumes "sizes_documented T" and "alg_ids_documented T" and "list_all (wf_bank legacy) banks"
    and "length banks \<le> num_pcr_banks T"
  shows "\<exists>s. to_tpm_allocation legacy T banks = Inr s \<and> unat (psel_count s) = length banks \<and>
    map (\<lambda>x. algorithm_from_tpm legacy T (sel_hash x)) (take (length banks) (pcr_selections s)) =
      map (\<lambda>b. Inr (bank_algorithm b)) banks \<and>
    list_all (\<lambda>x. selected (pcr_select x) (unat (sizeof_select x)) = {i. unat (index_value i) < 24})
      (take (length banks) (pcr_selections s))"
proof -
  let ?A = "map (allocation_of legacy T) banks @ replicate (num_pcr_banks T - length banks) (zero_pcr_selection T)"
  have count: "unat (of_nat (length banks) :: u32) = length banks"
    using assms(1,4) by (simp add: sizes_documented_def unat_of_nat)
  have algs: "map (\<lambda>x. algorithm_from_tpm legacy T (sel_hash x)) (take (length banks) ?A) =
      map (\<lambda>b. Inr (bank_algorithm b)) banks"
    using assms(2,3) by (simp add: allocation_of_def list_all_iff algorithm_round wf_bank_supported)
  have "selected (pcr_select (allocation_of legacy T b)) (unat (sizeof_select (allocation_of legacy T b)))
      = {i. unat (index_value i) < 24}" for b
    by (simp add: allocation_of_def all_pcrs_selected)
  with count algs to_tpm_allocation_eq [OF assms(1,4), of legacy] show ?thesis by (simp add: list_all_iff)
qed

lemma allocation_exact_witness:
  "\<exists>s. to_tpm_allocation False tss_4_1 [\<lparr>bank_algorithm = sha384, bank_digest_size = 48\<rparr>] = Inr s \<and>
    unat (psel_count s) = length [\<lparr>bank_algorithm = sha384, bank_digest_size = 48\<rparr>] \<and>
    map (\<lambda>x. algorithm_from_tpm False tss_4_1 (sel_hash x))
        (take (length [\<lparr>bank_algorithm = sha384, bank_digest_size = 48\<rparr>]) (pcr_selections s)) =
      map (\<lambda>b. Inr (bank_algorithm b)) [\<lparr>bank_algorithm = sha384, bank_digest_size = 48\<rparr>] \<and>
    list_all (\<lambda>x. selected (pcr_select x) (unat (sizeof_select x)) = {i. unat (index_value i) < 24})
      (take (length [\<lparr>bank_algorithm = sha384, bank_digest_size = 48\<rparr>]) (pcr_selections s))"
  by (rule allocation_exact) (simp_all add: wf_bank_def, simp add: tss_4_1_fields)

end
