(* ===== verification/Counting_Loops.thy ===== *)
theory Counting_Loops
  imports Hex Tcti_Loader Pcr_Marshalling "HOL-Library.While_Combinator"
begin

text \<open>
  The loops of \<^verbatim>\<open>hex.cpp\<close>, \<^verbatim>\<open>index.cpp\<close>, \<^verbatim>\<open>tcti_loader.cpp\<close> and \<^verbatim>\<open>pcr_marshalling.cpp\<close> as the C++
  code runs them: with a counter of the declared width (\<^verbatim>\<open>std::size_t\<close> of 64 bits, \<^verbatim>\<open>std::uint32_t\<close>,
  \<^verbatim>\<open>std::uint8_t\<close>) that wraps around, a test, and early returns out of the body. Nothing in these
  definitions makes a loop end: one that does not is the value \<open>None\<close>. The component theories run
  the same loops by recursion on natural numbers and lists; here the two are shown to agree, so
  every one of the loops returns.
\<close>

section \<open>A C++ loop\<close>

text \<open>
  \<open>test\<close> is the condition of the loop, \<open>body\<close> one iteration with the step of the \<^verbatim>\<open>for\<close>: \<open>Inl\<close> is a
  \<^verbatim>\<open>return\<close> or an exception, \<open>Inr\<close> the next state, \<open>None\<close> an inner loop that does not end. \<open>out\<close>
  is what the code after the loop uses of the last state.
\<close>

definition run_loop ::
  "('s \<Rightarrow> bool) \<Rightarrow> ('s \<Rightarrow> ('r + 's) option) \<Rightarrow> ('s \<Rightarrow> 'a) \<Rightarrow> 's \<Rightarrow> ('r + 'a) option" where
  "run_loop test body out s =
     Option.bind
       (while_option (\<lambda>x. case x of Some (Inr s) \<Rightarrow> test s | _ \<Rightarrow> False)
          (\<lambda>x. case x of Some (Inr s) \<Rightarrow> body s | _ \<Rightarrow> x) (Some (Inr s)))
       (map_option (map_sum id out))"

lemma run_loop_stop: "\<not> test s \<Longrightarrow> run_loop test body out s = Some (Inr (out s))"
  by (simp add: run_loop_def while_option_unfold)

lemma run_loop_return: "test s \<Longrightarrow> body s = Some (Inl r) \<Longrightarrow> run_loop test body out s = Some (Inl r)"
  unfolding run_loop_def by (subst while_option_unfold, simp, subst while_option_unfold, simp)

lemma run_loop_next: "test s \<Longrightarrow> body s = Some (Inr s') \<Longrightarrow> run_loop test body out s = run_loop test body out s'"
  unfolding run_loop_def by (subst while_option_unfold, simp)

lemma run_loop_step:
  "test s \<Longrightarrow> body s = Some r \<Longrightarrow>
   run_loop test body out s = (case r of Inl x \<Rightarrow> Some (Inl x) | Inr s' \<Rightarrow> run_loop test body out s')"
  by (cases r) (simp_all add: run_loop_return run_loop_next)

text \<open>The two ways out of a call that a loop body passes on, an exception and an error.\<close>

fun split_call :: "'a call \<Rightarrow> (fault + error) + 'a" where
  "split_call (Inl f) = Inl (Inl f)"
| "split_call (Inr (Inl e)) = Inl (Inr e)"
| "split_call (Inr (Inr a)) = Inr a"

fun join_call :: "(fault + error) + 'a \<Rightarrow> 'a call" where
  "join_call (Inl (Inl f)) = Inl f"
| "join_call (Inl (Inr e)) = fails e"
| "join_call (Inr a) = returns a"

lemma join_split [simp]: "join_call (split_call m) = m"
  by (cases m rule: split_call.cases) simp_all

lemma split_bind_try:
  "split_call (bind_try m f) = (case split_call m of Inl x \<Rightarrow> Inl x | Inr a \<Rightarrow> split_call (f a))"
  by (cases m rule: split_call.cases) simp_all

section \<open>The counters do not wrap around\<close>

lemma unat_step: "(i :: 'w::len word) < n \<Longrightarrow> unat (i + 1) = unat i + 1"
proof -
  assume "i < n"
  then have "i \<noteq> - 1" by (metis leD word_n1_ge)
  then show ?thesis by (metis Suc_eq_plus1 add.commute unatSuc add_eq_0_iff2 eq_neg_iff_add_eq_0)
qed

lemma less_of_nat: "k < 2 ^ LENGTH('w) \<Longrightarrow> (i :: 'w::len word) < of_nat k \<longleftrightarrow> unat i < k"
  by (simp add: word_less_nat_alt unat_of_nat)

section \<open>Decoding hexadecimal text\<close>

definition decode_body :: "string \<Rightarrow> u64 \<times> byte list \<Rightarrow> (error + u64 \<times> byte list) option" where
  "decode_body input = (\<lambda>(index, bytes).
     Some (case (decode_hex_digit (input ! unat index), decode_hex_digit (input ! unat (index + 1))) of
             (Some high, Some low) \<Rightarrow>
               Inr (index + of_nat hex_digits_per_byte,
                    bytes @ [ucast (push_bit 4 (ucast high :: u32) OR (ucast low :: u32))])
           | _ \<Rightarrow> Inl (err input_error ''hex input contains a non-hex character'')))"

definition decode_hex_loop :: "std_limits \<Rightarrow> string \<Rightarrow> byte list outcome option" where
  "decode_hex_loop L input =
     (if length input mod hex_digits_per_byte \<noteq> 0
      then Some (Inl (err input_error ''hex input must contain an even number of digits''))
      else if length input div hex_digits_per_byte > vector_max_size L
      then Some (Inl (err input_error ''hex input is too large''))
      else run_loop (\<lambda>(index, bytes). index < of_nat (length input)) (decode_body input) snd (0, []))"

lemma unat_index: "index < 2 ^ 64 \<Longrightarrow> unat (of_nat index :: u64) = index"
  by (simp add: unat_of_nat)

lemma decode_loop_eq:
  "even (length input) \<Longrightarrow> length input < 2 ^ 64 \<Longrightarrow> even index \<Longrightarrow> index \<le> length input \<Longrightarrow>
   run_loop (\<lambda>(index, bytes). index < of_nat (length input)) (decode_body input) snd (of_nat index, bytes) =
     Some (decode_from input index bytes)"
proof (induction input index bytes rule: decode_from.induct)
  case (1 input index bytes)
  show ?case
  proof (cases "index < length input")
    case False
    with "1.prems" have "index = length input" by simp
    then show ?thesis by (simp add: run_loop_stop decode_from.simps [of input "length input"])
  next
    case True
    with "1.prems" have next_in: "index + 1 < length input"
      by (metis Suc_eq_plus1 Suc_lessI even_Suc)
    with "1.prems"(2) have bounds: "index < 2 ^ 64" "index + 1 < 2 ^ 64" by linarith+
    have test: "(of_nat index :: u64) < of_nat (length input)"
      using True "1.prems"(2) bounds(1) by (simp add: less_of_nat unat_index)
    have pos: "unat (of_nat index :: u64) = index" "unat (of_nat index + 1 :: u64) = index + 1"
      using unat_index [OF bounds(1)] unat_index [OF bounds(2)] by (simp_all add: add.commute)
    have step: "(of_nat index :: u64) + of_nat hex_digits_per_byte = of_nat (index + hex_digits_per_byte)"
      by (rule of_nat_add [symmetric])
    have le: "even (index + hex_digits_per_byte)" "index + hex_digits_per_byte \<le> length input"
      using "1.prems" next_in by (simp_all add: hex_digits_per_byte_def)
    show ?thesis
    proof (cases "decode_hex_digit (input ! index)")
      case None
      with True test pos show ?thesis
        by (simp add: run_loop_return decode_body_def decode_from.simps [of input index])
    next
      case high: (Some high)
      show ?thesis
      proof (cases "decode_hex_digit (input ! (index + 1))")
        case None
        with True test pos high show ?thesis
          by (simp add: run_loop_return decode_body_def decode_from.simps [of input index])
      next
        case low: (Some low)
        let ?b = "ucast (push_bit 4 (ucast high :: u32) OR (ucast low :: u32)) :: byte"
        have "decode_body input (of_nat index, bytes) =
            Some (Inr (of_nat (index + hex_digits_per_byte), bytes @ [?b]))"
          by (simp only: decode_body_def prod.case pos high low option.case step)
        with test have "run_loop (\<lambda>(index, bytes). index < of_nat (length input)) (decode_body input)
              snd (of_nat index, bytes) =
            run_loop (\<lambda>(index, bytes). index < of_nat (length input)) (decode_body input)
              snd (of_nat (index + hex_digits_per_byte), bytes @ [?b])"
          by (intro run_loop_next) simp_all
        also have "\<dots> = Some (decode_from input (index + hex_digits_per_byte) (bytes @ [?b]))"
          by (rule "1.IH" [OF True refl high low "1.prems"(1,2) le])
        finally show ?thesis
          using True high low by (simp add: decode_from.simps [of input index])
      qed
    qed
  qed
qed

lemma decode_hex_loop_eq: "length input < 2 ^ 64 \<Longrightarrow> decode_hex_loop L input = Some (decode_hex L input)"
  using decode_loop_eq [of input 0 "[]"]
  by (auto simp: decode_hex_loop_def decode_hex_def hex_digits_per_byte_def)

section \<open>Trimming white space\<close>

definition trim_first_loop :: "string \<Rightarrow> u64 \<Rightarrow> u64 \<Rightarrow> u64 option" where
  "trim_first_loop value lo hi =
     while_option (\<lambda>first. first < hi \<and> is_space (value ! unat first)) (\<lambda>first. first + 1) lo"

definition trim_last_loop :: "string \<Rightarrow> u64 \<Rightarrow> u64 \<Rightarrow> u64 option" where
  "trim_last_loop value lo hi =
     while_option (\<lambda>last. last > lo \<and> is_space (value ! unat (last - 1))) (\<lambda>last. last - 1) hi"

definition trim_loop :: "string \<Rightarrow> string option" where
  "trim_loop value =
     Option.bind (trim_first_loop value 0 (of_nat (length value)))
       (\<lambda>first. Option.bind (trim_last_loop value first (of_nat (length value)))
         (\<lambda>last. Some (take (unat (last - first)) (drop (unat first) value))))"

lemma trim_first_loop_eq:
  "hi < 2 ^ 64 \<Longrightarrow> lo \<le> hi \<Longrightarrow>
   trim_first_loop v (of_nat lo) (of_nat hi) = Some (of_nat (trim_first v lo hi))"
proof (induction v lo hi rule: trim_first.induct)
  case (1 v lo hi)
  then have "(of_nat lo :: u64) < of_nat hi \<longleftrightarrow> lo < hi" and "unat (of_nat lo :: u64) = lo"
    by (simp_all add: less_of_nat unat_index)
  with 1 show ?case
    unfolding trim_first_loop_def
    by (subst while_option_unfold) (simp add: trim_first.simps [of v lo hi] add.commute)
qed

lemma trim_last_loop_eq:
  "hi < 2 ^ 64 \<Longrightarrow> lo \<le> hi \<Longrightarrow>
   trim_last_loop v (of_nat lo) (of_nat hi) = Some (of_nat (trim_last v lo hi))"
proof (induction v lo hi rule: trim_last.induct)
  case (1 v lo hi)
  then have "(of_nat lo :: u64) < of_nat hi \<longleftrightarrow> lo < hi" by (simp add: less_of_nat unat_index)
  moreover have "lo < hi \<Longrightarrow> (of_nat hi :: u64) - 1 = of_nat (hi - 1)" by simp
  moreover have "unat (of_nat (hi - 1) :: u64) = hi - 1" using "1.prems" by (intro unat_index) simp
  ultimately show ?case
    using 1 unfolding trim_last_loop_def
    by (subst while_option_unfold) (auto simp: trim_last.simps [of v lo hi] simp del: of_nat_diff)
qed

lemma trim_loop_eq:
  assumes "length v < 2 ^ 64"
  shows "trim_loop v = Some (trim v)"
proof -
  let ?lo = "trim_first v 0 (length v)"
  let ?hi = "trim_last v ?lo (length v)"
  have lo: "?lo \<le> length v" using trim_first_range [of 0 "length v" v] by simp
  from trim_last_range [OF this, of v] have hi: "?lo \<le> ?hi" "?hi \<le> length v" by simp_all
  then have "unat (of_nat ?hi - of_nat ?lo :: u64) = ?hi - ?lo"
    using assms unat_index [of "?hi - ?lo"] by simp
  with lo assms show ?thesis
    using trim_first_loop_eq [of "length v" 0 v] trim_last_loop_eq [OF assms lo]
    by (simp add: trim_loop_def trim_def Let_def unat_index)
qed

section \<open>Ranges of PCR indices\<close>

definition range_body :: "u32 \<Rightarrow> u32 \<times> index set \<Rightarrow> (fault + u32 \<times> index set) option" where
  "range_body first = (\<lambda>(offset, indices).
     Some (map_sum id (\<lambda>i. (offset + 1, insert i indices)) (new_index (first + offset))))"

definition make_index_range_loop :: "u32 \<Rightarrow> u32 \<Rightarrow> (fault + index set) option" where
  "make_index_range_loop first count =
     (case validate_index_range first count of
        Inl x \<Rightarrow> Some (Inl x)
      | Inr _ \<Rightarrow> run_loop (\<lambda>(offset, indices). offset < count) (range_body first) snd (0, {}))"

lemma range_loop_eq:
  "run_loop (\<lambda>(offset, indices). offset < count) (range_body first) snd (offset, indices) =
     Some (insert_range first count offset indices)"
proof (induction first count offset indices rule: insert_range.induct)
  case (1 first count offset indices)
  show ?case
  proof (cases "offset < count")
    case False
    then show ?thesis by (simp add: run_loop_stop insert_range.simps [of first])
  next
    case True
    then show ?thesis
      using 1 by (cases "new_index (first + offset)")
        (simp_all add: run_loop_step range_body_def insert_range.simps [of first count offset])
  qed
qed

lemma make_index_range_loop_eq: "make_index_range_loop first count = Some (make_index_range first count)"
  by (cases "validate_index_range first count")
     (simp_all add: make_index_range_loop_def make_index_range_def range_loop_eq)

section \<open>The select bytes of a PCR selection\<close>

text \<open>\<^verbatim>\<open>byte_index\<close> is a \<^verbatim>\<open>std::size_t\<close>, \<^verbatim>\<open>bit\<close> a \<^verbatim>\<open>std::uint8_t\<close> and \<^verbatim>\<open>1U << bit\<close> an unsigned int.\<close>

definition bits_body :: "u64 \<Rightarrow> byte \<Rightarrow> byte \<times> index set \<Rightarrow> ((fault + error) + byte \<times> index set) option" where
  "bits_body byte_index b = (\<lambda>(k, indices).
     Some (if (ucast b :: u32) AND push_bit (unat k) 1 = 0 then Inr (k + 1, indices)
           else let pcr_number = byte_index * 8 + ucast k in
             if pcr_number > ucast max_index_value
             then Inl (Inr (err backend_error ''TPM returned invalid PCR index''))
             else map_sum Inl (\<lambda>i. (k + 1, insert i indices)) (new_index (ucast pcr_number))))"

definition bits_loop :: "u64 \<Rightarrow> byte \<Rightarrow> index set \<Rightarrow> ((fault + error) + index set) option" where
  "bits_loop byte_index b indices = run_loop (\<lambda>(k, indices). k < 8) (bits_body byte_index b) snd (0, indices)"

definition bytes_body ::
  "byte list \<Rightarrow> u64 \<times> index set \<Rightarrow> ((fault + error) + u64 \<times> index set) option" where
  "bytes_body sel = (\<lambda>(byte_index, indices).
     case array_read (unat byte_index) sel of
       Inl x \<Rightarrow> Some (Inl (Inl x))
     | Inr b \<Rightarrow> map_option (map_sum id (\<lambda>is. (byte_index + 1, is))) (bits_loop byte_index b indices))"

definition bytes_loop :: "byte list \<Rightarrow> byte \<Rightarrow> ((fault + error) + index set) option" where
  "bytes_loop sel select_size =
     run_loop (\<lambda>(byte_index, indices). byte_index < ucast select_size) (bytes_body sel) snd (0, {})"

lemma bits_loop_eq:
  assumes "bi < 256"
  shows "k \<le> 8 \<Longrightarrow>
    run_loop (\<lambda>(k, indices). k < 8) (bits_body (of_nat bi) b) snd (of_nat k, indices) =
      Some (split_call (select_bits bi b [k..<8] indices))"
proof (induction "8 - k" arbitrary: k indices)
  case 0
  then have "k = 8" by simp
  then show ?case by (simp add: run_loop_stop)
next
  case (Suc n)
  then have k: "k < 8" "n = 8 - Suc k" "Suc k \<le> 8" by simp_all
  then have uk: "unat (of_nat k :: byte) = k" by (simp add: unat_of_nat)
  then have test: "(of_nat k :: byte) < 8" using k by (simp add: word_less_nat_alt)
  have small: "bi * 8 + k < 2 ^ 32" using assms k by simp
  have "ucast (of_nat k :: byte) = (of_nat k :: u64)"
    using k by (simp add: word_unat_eq_iff unsigned_ucast_eq unsigned_of_nat take_bit_nat_eq_self)
  then have num: "of_nat bi * 8 + ucast (of_nat k :: byte) = (of_nat (bi * 8 + k) :: u64)" by simp
  have u64: "unat (of_nat (bi * 8 + k) :: u64) = bi * 8 + k"
    using small by (intro unat_index) simp
  have over: "(of_nat (bi * 8 + k) :: u64) > ucast max_index_value \<longleftrightarrow> bi * 8 + k > unat max_index_value"
    unfolding word_less_nat_alt u64 by (simp add: max_index_value_def)
  have narrow: "ucast (of_nat (bi * 8 + k) :: u64) = (of_nat (bi * 8 + k) :: u32)"
    unfolding word_unat_eq_iff unsigned_ucast_eq u64 unsigned_of_nat by simp
  have upt: "[k..<8] = k # [Suc k..<8]" using k by (simp add: upt_rec)
  have "(of_nat k :: byte) + 1 = of_nat (Suc k)" by simp
  note step = run_loop_step [where test = "\<lambda>(k, indices). k < 8" and s = "(of_nat k, indices)", simplified, OF test]
  note body = bits_body_def prod.case uk num over narrow Let_def
  show ?case
  proof (cases "(ucast b :: u32) AND push_bit k 1 = 0")
    case True
    then have "bits_body (of_nat bi) b (of_nat k, indices) = Some (Inr (of_nat (Suc k), indices))"
      unfolding body by simp
    with Suc.hyps(1) [OF k(2,3)] True show ?thesis by (simp add: step upt)
  next
    case False
    let ?step = "if bi * 8 + k > unat max_index_value
        then Inl (Inr (err backend_error ''TPM returned invalid PCR index''))
        else map_sum Inl (\<lambda>i. (of_nat (Suc k) :: byte, insert i indices)) (new_index (of_nat (bi * 8 + k)))"
    from False have "bits_body (of_nat bi) b (of_nat k, indices) = Some ?step"
      unfolding body by (simp add: add.commute [of 1])
    with Suc.hyps(1) [OF k(2,3)] False show ?thesis
      unfolding upt select_bits.simps Let_def
      by (cases "new_index (of_nat (bi * 8 + k))") (simp_all add: step del: of_nat_add of_nat_mult of_nat_Suc)
  qed
qed

lemma bytes_loop_from_eq:
  fixes select_size :: byte
  assumes "unat select_size = n"
  shows "i \<le> n \<Longrightarrow>
    run_loop (\<lambda>(byte_index, indices). byte_index < ucast select_size) (bytes_body sel) snd (of_nat i, indices) =
      Some (split_call (select_bytes sel [i..<n] indices))"
proof (induction "n - i" arbitrary: i indices)
  case 0
  then have "i = n" by simp
  then show ?case
    using assms by (simp add: run_loop_stop word_less_nat_alt unsigned_ucast_eq unsigned_of_nat)
next
  case (Suc m)
  have "n < 256" using assms unat_byte_less [of select_size] by simp
  with Suc.hyps(2) have i: "i < n" "m = n - Suc i" "Suc i \<le> n" "i < 256" by simp_all
  then have ui: "unat (of_nat i :: u64) = i" by (intro unat_index) simp
  have "unat (ucast select_size :: u64) = n" using assms \<open>n < 256\<close> by (simp add: unsigned_ucast_eq take_bit_nat_eq_self_iff)
  then have test: "(of_nat i :: u64) < ucast select_size" using i ui by (simp add: word_less_nat_alt)
  have upt: "[i..<n] = i # [Suc i..<n]" using i by (simp add: upt_rec)
  note step = run_loop_step [where test = "\<lambda>(byte_index, indices). byte_index < ucast select_size" and
      s = "(of_nat i, indices)", simplified, OF test]
  show ?case
  proof (cases "array_read i sel")
    case (Inl x)
    then have "bytes_body sel (of_nat i, indices) = Some (Inl (Inl x))" by (simp add: bytes_body_def ui)
    with Inl show ?thesis by (simp add: step upt)
  next
    case (Inr b)
    let ?bits = "split_call (select_bits i b [0..<8] indices)"
    have "bits_loop (of_nat i) b indices = Some ?bits"
      using bits_loop_eq [OF i(4), of 0 b indices] by (simp add: bits_loop_def)
    with Inr have "bytes_body sel (of_nat i, indices) = Some (map_sum id (\<lambda>is. (of_nat (Suc i), is)) ?bits)"
      by (simp add: bytes_body_def ui add.commute)
    with Suc.hyps(1) [OF i(2,3)] Inr show ?thesis
      unfolding upt select_bytes.simps split_bind_try
      by (cases ?bits) (simp_all add: step)
  qed
qed

lemma bytes_loop_eq: "bytes_loop sel select_size = Some (split_call (select_bytes sel [0..<unat select_size] {}))"
  using bytes_loop_from_eq [OF refl, of 0 select_size sel "{}"] by (simp add: bytes_loop_def)

definition to_domain_selection_loop ::
  "bool \<Rightarrow> tss \<Rightarrow> tpml_pcr_selection \<Rightarrow> hash_algorithm \<Rightarrow> selection call option" where
  "to_domain_selection_loop legacy T sel fallback =
     (if psel_count sel = 0 then Some (or_throw (new_empty_selection legacy fallback))
      else if psel_count sel \<noteq> 1
      then Some (fails (err backend_error ''TPM returned multiple PCR selections''))
      else case array_read 0 (pcr_selections sel) of
        Inl x \<Rightarrow> Some (Inl x)
      | Inr s \<Rightarrow>
          (case algorithm_from_tpm legacy T (sel_hash s) of
             Inl e \<Rightarrow> Some (fails e)
           | Inr a \<Rightarrow>
               if unat (sizeof_select s) > pcr_select_max T
               then Some (fails (err backend_error ''TPM returned malformed PCR selection size''))
               else map_option (\<lambda>r. bind_try (join_call r) (\<lambda>is. or_throw (new_selection legacy a is)))
                      (bytes_loop (pcr_select s) (sizeof_select s))))"

lemma to_domain_selection_loop_eq:
  "to_domain_selection_loop legacy T sel fallback = Some (to_domain_selection legacy T sel fallback)"
  by (simp add: to_domain_selection_loop_def to_domain_selection_def bytes_loop_eq split: sum.split)

section \<open>The digests of an answer\<close>

definition digests_body ::
  "bool \<Rightarrow> tss \<Rightarrow> tpmt_ha list \<Rightarrow> u32 \<times> digest_value list \<Rightarrow>
   ((fault + error) + u32 \<times> digest_value list) option" where
  "digests_body legacy T ds = (\<lambda>(index, acc).
     Some (case array_read (unat index) ds of
             Inl x \<Rightarrow> Inl (Inl x)
           | Inr d \<Rightarrow>
               if should_skip_disabled_pcr_algorithm legacy T (hash_alg d) then Inr (index + 1, acc)
               else map_sum id (\<lambda>v. (index + 1, acc @ [v])) (split_call (make_digest_value_ha legacy T d))))"

definition to_domain_digests_loop ::
  "bool \<Rightarrow> tss \<Rightarrow> tpml_digest_values \<Rightarrow> digest_value list call option" where
  "to_domain_digests_loop legacy T digests =
     (if unat (dvs_count digests) > length (dvs_digests digests)
      then Some (fails (err backend_error ''TPM returned too many PCR event digests''))
      else map_option join_call
        (run_loop (\<lambda>(index, acc). index < dvs_count digests) (digests_body legacy T (dvs_digests digests))
           snd (0, [])))"

lemma digests_loop_eq:
  assumes "unat count \<le> length ds"
  shows "unat i \<le> unat count \<Longrightarrow>
    run_loop (\<lambda>(index, acc). index < count) (digests_body legacy T ds) snd (i, acc) =
      Some (split_call (convert_digests legacy T (drop (unat i) (take (unat count) ds)) acc))"
proof (induction "unat count - unat i" arbitrary: i acc)
  case 0
  then show ?case by (simp add: run_loop_stop word_less_nat_alt)
next
  case (Suc n)
  then have less: "i < count" by (simp add: word_less_nat_alt)
  then have next_i: "unat (i + 1) = unat i + 1" by (rule unat_step)
  with Suc have n: "n = unat count - unat (i + 1)" "unat (i + 1) \<le> unat count" by simp_all
  have pos: "unat i < length ds" "unat i < unat count"
    using less assms by (simp_all add: word_less_nat_alt)
  let ?d = "ds ! unat i"
  have drop: "drop (unat i) (take (unat count) ds) = ?d # drop (unat (i + 1)) (take (unat count) ds)"
    using pos next_i assms by (simp add: Cons_nth_drop_Suc [symmetric])
  note step = run_loop_step [where test = "\<lambda>(index, acc). index < count" and s = "(i, acc)" and
      body = "digests_body legacy T ds", simplified, OF less]
  have body: "digests_body legacy T ds (i, acc) =
      Some (if should_skip_disabled_pcr_algorithm legacy T (hash_alg ?d) then Inr (i + 1, acc)
            else map_sum id (\<lambda>v. (i + 1, acc @ [v])) (split_call (make_digest_value_ha legacy T ?d)))"
    using pos by (simp add: digests_body_def)
  show ?case
    using Suc.hyps(1) [OF n]
    unfolding step [OF body] drop convert_digests.simps
    by (cases "split_call (make_digest_value_ha legacy T ?d)") (simp_all add: split_bind_try)
qed

lemma to_domain_digests_loop_eq:
  "to_domain_digests_loop legacy T digests = Some (to_domain_digests legacy T digests)"
  using digests_loop_eq [of "dvs_count digests" "dvs_digests digests" 0]
  by (simp add: to_domain_digests_loop_def to_domain_digests_eq)

definition read_values_body ::
  "bool \<Rightarrow> hash_algorithm \<Rightarrow> tpm2b list \<Rightarrow> u32 \<times> index list \<times> pcr_value list \<Rightarrow>
   ((fault + error) + u32 \<times> index list \<times> pcr_value list) option" where
  "read_values_body legacy a ds = (\<lambda>(index, selected_index, acc).
     Some (case array_read (unat index) ds of
             Inl x \<Rightarrow> Inl (Inl x)
           | Inr d \<Rightarrow>
               (case split_call (make_digest_value legacy a (Some (tpm2b_buffer d)) (unat (tpm2b_size d))) of
                  Inl x \<Rightarrow> Inl x
                | Inr v \<Rightarrow>
                    (case selected_index of
                       [] \<Rightarrow> Inl (Inl out_of_bounds)
                     | i # rest \<Rightarrow> Inr (index + 1, rest, acc @ [\<lparr>pv_index = i, pv_digest = v\<rparr>])))))"

definition to_domain_read_values_loop :: "bool \<Rightarrow> tpml_digest \<Rightarrow> selection \<Rightarrow> pcr_value list call option" where
  "to_domain_read_values_loop legacy vs sel =
     (if unat (digs_count vs) > length (digs_digests vs)
      then Some (fails (err backend_error ''TPM returned too many PCR read digests''))
      else if unat (digs_count vs) \<noteq> card (sel_indices sel)
      then Some (fails (err backend_error ''TPM returned PCR digest count mismatch''))
      else map_option join_call
        (run_loop (\<lambda>(index, selected_index, acc). index < digs_count vs)
           (read_values_body legacy (sel_algorithm sel) (digs_digests vs)) (\<lambda>(index, selected_index, acc). acc)
           (0, sorted_list_of_set (sel_indices sel), [])))"

lemma read_values_run_eq:
  assumes "unat count \<le> length ds"
  shows "unat i \<le> unat count \<Longrightarrow>
    run_loop (\<lambda>(index, selected_index, acc). index < count) (read_values_body legacy a ds)
        (\<lambda>(index, selected_index, acc). acc) (i, sel, acc) =
      Some (split_call (convert_values legacy a (drop (unat i) (take (unat count) ds)) sel acc))"
proof (induction "unat count - unat i" arbitrary: i sel acc)
  case 0
  then show ?case by (simp add: run_loop_stop word_less_nat_alt)
next
  case (Suc n)
  then have less: "i < count" by (simp add: word_less_nat_alt)
  then have next_i: "unat (i + 1) = unat i + 1" by (rule unat_step)
  with Suc have n: "n = unat count - unat (i + 1)" "unat (i + 1) \<le> unat count" by simp_all
  have pos: "unat i < length ds" "unat i < unat count"
    using less assms by (simp_all add: word_less_nat_alt)
  let ?d = "ds ! unat i"
  let ?v = "split_call (make_digest_value legacy a (Some (tpm2b_buffer ?d)) (unat (tpm2b_size ?d)))"
  have drop: "drop (unat i) (take (unat count) ds) = ?d # drop (unat (i + 1)) (take (unat count) ds)"
    using pos next_i assms by (simp add: Cons_nth_drop_Suc [symmetric])
  note step = run_loop_step [where test = "\<lambda>(index, selected_index, acc). index < count" and
      s = "(i, sel, acc)" and
      body = "read_values_body legacy a ds", simplified, OF less]
  have body: "read_values_body legacy a ds (i, sel, acc) =
      Some (case ?v of Inl x \<Rightarrow> Inl x
            | Inr v \<Rightarrow> (case sel of [] \<Rightarrow> Inl (Inl out_of_bounds)
                | i' # rest \<Rightarrow> Inr (i + 1, rest, acc @ [\<lparr>pv_index = i', pv_digest = v\<rparr>])))"
    using pos by (simp add: read_values_body_def)
  show ?case
    using Suc.hyps(1) [OF n]
    unfolding step [OF body] drop convert_values.simps
    by (cases ?v; cases sel) (simp_all add: split_bind_try)
qed

lemma to_domain_read_values_loop_eq:
  "to_domain_read_values_loop legacy vs sel = Some (to_domain_read_values legacy vs sel)"
  using read_values_run_eq [of "digs_count vs" "digs_digests vs" 0]
  by (simp add: to_domain_read_values_loop_def to_domain_read_values_eq)

section \<open>Properties\<close>

text \<open>
  C39: The counting loops of the library return on every input they can be given, whatever the TPM
  puts into its counts and sizes, and return the value of the model: the decoder's index that
  advances by two and the two trimming indices never wrap around on a text whose length fits
  \<^verbatim>\<open>std::size_t\<close>; the range offset, the digest counters and the byte and bit counters of the select
  mask reach their bounds at the width they have.
\<close>
theorem counting_loops_return:
  assumes "length input < 2 ^ 64"
  shows "decode_hex_loop L input = Some (decode_hex L input) \<and>
    trim_loop input = Some (trim input) \<and>
    make_index_range_loop first count = Some (make_index_range first count) \<and>
    to_domain_selection_loop legacy T s fallback = Some (to_domain_selection legacy T s fallback) \<and>
    to_domain_digests_loop legacy T d = Some (to_domain_digests legacy T d) \<and>
    to_domain_read_values_loop legacy v sel = Some (to_domain_read_values legacy v sel)"
  using assms by (simp add: decode_hex_loop_eq trim_loop_eq make_index_range_loop_eq
      to_domain_selection_loop_eq to_domain_digests_loop_eq to_domain_read_values_loop_eq)

lemma counting_loops_return_witness:
  "decode_hex_loop small_limits ''0aFf'' = Some (decode_hex small_limits ''0aFf'') \<and>
    trim_loop ''0aFf'' = Some (trim ''0aFf'') \<and>
    make_index_range_loop 30 2 = Some (make_index_range 30 2) \<and>
    to_domain_selection_loop False tss_4_1 ((zero_tpml_pcr_selection tss_4_1)\<lparr>psel_count := 1\<rparr>) sha256 =
      Some (to_domain_selection False tss_4_1 ((zero_tpml_pcr_selection tss_4_1)\<lparr>psel_count := 1\<rparr>) sha256) \<and>
    to_domain_digests_loop False tss_4_1 ((zero_tpml_digest_values tss_4_1)\<lparr>dvs_count := 0xffffffff\<rparr>) =
      Some (to_domain_digests False tss_4_1 ((zero_tpml_digest_values tss_4_1)\<lparr>dvs_count := 0xffffffff\<rparr>)) \<and>
    to_domain_read_values_loop False \<lparr>digs_count = 0, digs_digests = []\<rparr> \<lparr>sel_algorithm = sha256, sel_indices = {}\<rparr> =
      Some (to_domain_read_values False \<lparr>digs_count = 0, digs_digests = []\<rparr> \<lparr>sel_algorithm = sha256, sel_indices = {}\<rparr>)"
  by (rule counting_loops_return) simp

end
