(* ===== verification/Pcr_Provider_Port.thy ===== *)
theory Pcr_Provider_Port
  imports Result Pcr_Values
begin

text \<open>
  The abstract ports of \<^verbatim>\<open>include/tpmkit/pcr/provider.h\<close> and \<^verbatim>\<open>include/tpmkit/pcr/observer.h\<close>: the
  requests a client makes of a PCR provider, the replies it may get, the calls the provider makes
  on its observer, and the contract (locale \<open>provider_port\<close>) that the ESYS provider and the mock
  provider keep.
\<close>

text \<open>The calls a provider makes on the observer port.\<close>

datatype notification =
    On_extend index "digest_value list"
  | On_event index "byte list" event_result

section \<open>What a result may be\<close>

text \<open>A value that satisfies \<open>P\<close>, or an expected failure of a listed category; never a fault.\<close>

definition safe_call :: "('a \<Rightarrow> bool) \<Rightarrow> 'a call \<Rightarrow> bool" where
  "safe_call P r \<longleftrightarrow>
     (case r of Inl _ \<Rightarrow> False | Inr (Inl e) \<Rightarrow> listed_category (category e) | Inr (Inr x) \<Rightarrow> P x)"

lemma safe_call_simps [simp]:
  "safe_call P (fails e) \<longleftrightarrow> listed_category (category e)"
  "safe_call P (returns x) \<longleftrightarrow> P x"
  "\<not> safe_call P (Inl f)"
  by (simp_all add: safe_call_def)

section \<open>Requests and replies\<close>

datatype request =
    Allocate "bank list"
  | Event index "byte list"
  | Extend index "digest_value list"
  | Read selection
  | Reset index
  | Set_auth_policy index hash_algorithm "byte list"
  | Set_auth_value index "byte list"

datatype reply =
    Allocated allocate_result
  | Measured event_result
  | Was_read read_result
  | Completed

text \<open>The values the constructors of the domain types let callers build.\<close>

fun wf_request :: "bool \<Rightarrow> request \<Rightarrow> bool" where
  "wf_request legacy (Allocate banks) = list_all (wf_bank legacy) banks"
| "wf_request legacy (Event i event_data) = wf_index i"
| "wf_request legacy (Extend i ds) = (wf_index i \<and> list_all (wf_digest_value legacy) ds)"
| "wf_request legacy (Read sel) = wf_selection legacy sel"
| "wf_request legacy (Reset i) = wf_index i"
| "wf_request legacy (Set_auth_policy i a policy) = wf_index i"
| "wf_request legacy (Set_auth_value i auth) = wf_index i"

fun answers :: "bool \<Rightarrow> request \<Rightarrow> reply \<Rightarrow> bool" where
  "answers legacy (Allocate banks) (Allocated r) = True"
| "answers legacy (Event i event_data) (Measured r) = wf_event_result legacy r"
| "answers legacy (Read sel) (Was_read r) = wf_read_result legacy r"
| "answers legacy (Extend i ds) Completed = True"
| "answers legacy (Reset i) Completed = True"
| "answers legacy (Set_auth_policy i a policy) Completed = True"
| "answers legacy (Set_auth_value i auth) Completed = True"
| "answers legacy q r = False"

text \<open>What the observer must hear of a request and its reply.\<close>

fun measurement :: "request \<Rightarrow> reply call \<Rightarrow> notification list" where
  "measurement (Extend i ds) (Inr (Inr r)) = [On_extend i ds]"
| "measurement (Event i event_data) (Inr (Inr (Measured r))) = [On_event i event_data r]"
| "measurement q r = []"

lemma measurement_fails [simp]: "measurement q (fails e) = []"
  by (cases q) simp_all

section \<open>The provider port\<close>

text \<open>
  The contract of \<^verbatim>\<open>pcr/provider.h\<close> that its clients rely on, over any implementation with state
  \<open>'s\<close>: a well-formed request is answered by a value of its kind or by an expected failure of a
  listed category, and the observer hears of the successful measurements and of nothing else.
  \<open>heard s\<close> is what the observer has been told so far, \<open>watched s\<close> whether there is one.
\<close>

fun run_requests :: "('s \<Rightarrow> request \<Rightarrow> reply call \<times> 's) \<Rightarrow> 's \<Rightarrow> request list \<Rightarrow> reply call list \<times> 's" where
  "run_requests step s [] = ([], s)"
| "run_requests step s (q # qs) =
     (let (r, s) = step s q; (rs, s) = run_requests step s qs in (r # rs, s))"

definition measurements :: "request list \<Rightarrow> reply call list \<Rightarrow> notification list" where
  "measurements qs rs = concat (map2 measurement qs rs)"

locale provider_port =
  fixes step :: "'s \<Rightarrow> request \<Rightarrow> reply call \<times> 's"
    and legacy :: bool
    and valid :: "'s \<Rightarrow> bool"
    and heard :: "'s \<Rightarrow> notification list"
    and watched :: "'s \<Rightarrow> bool"
  assumes step_valid: "valid s \<Longrightarrow> wf_request legacy q \<Longrightarrow> valid (snd (step s q))"
    and step_safe: "valid s \<Longrightarrow> wf_request legacy q \<Longrightarrow> safe_call (answers legacy q) (fst (step s q))"
    and step_heard: "valid s \<Longrightarrow> wf_request legacy q \<Longrightarrow>
      heard (snd (step s q)) = heard s @ (if watched s then measurement q (fst (step s q)) else [])"
    and step_watched: "watched (snd (step s q)) = watched s"
begin

lemma run_watched: "watched (snd (run_requests step s qs)) = watched s"
  by (induction qs arbitrary: s) (simp_all add: Let_def split_beta step_watched)

lemma run_safe:
  "valid s \<Longrightarrow> list_all (wf_request legacy) qs \<Longrightarrow>
   list_all2 (\<lambda>q r. safe_call (answers legacy q) r) qs (fst (run_requests step s qs)) \<and>
   valid (snd (run_requests step s qs))"
proof (induction qs arbitrary: s)
  case (Cons q qs)
  obtain r s' where step: "step s q = (r, s')" by (cases "step s q")
  with Cons.prems step_safe [of s q] step_valid [of s q]
  have "safe_call (answers legacy q) r" "valid s'" by simp_all
  with Cons.IH [of s'] Cons.prems step show ?case by (simp add: Let_def split_beta)
qed simp

lemma run_heard:
  "valid s \<Longrightarrow> list_all (wf_request legacy) qs \<Longrightarrow>
   heard (snd (run_requests step s qs)) =
     heard s @ (if watched s then measurements qs (fst (run_requests step s qs)) else [])"
proof (induction qs arbitrary: s)
  case (Cons q qs)
  obtain r s' where step: "step s q = (r, s')" by (cases "step s q")
  with Cons.prems step_valid [of s q] step_heard [of s q] step_watched [of s q]
  have s': "valid s'" "heard s' = heard s @ (if watched s then measurement q r else [])"
    "watched s' = watched s" by simp_all
  with Cons.IH [of s'] Cons.prems step show ?case
    by (simp add: Let_def measurements_def split_beta)
qed (simp add: measurements_def)

lemma run_length: "length (fst (run_requests step s qs)) = length qs"
  by (induction qs arbitrary: s) (simp_all add: Let_def split_beta)

end

end
