(* ===== verification/Pcr_Client.thy ===== *)
theory Pcr_Client
  imports Pcr_Provider_Port Hex
begin

text \<open>
  The clients of the provider port in \<^verbatim>\<open>examples/pcr\<close>: the helpers of \<^verbatim>\<open>example_common.h\<close> and the
  part of each program that works on a \<^verbatim>\<open>pcr::provider&\<close>. They are written over any implementation
  \<open>step\<close> of the port, and their lemmas are proved once, from the contract of the port.

  A program is a function of a session (the provider and what was written to \<^verbatim>\<open>std::cout\<close> and
  \<^verbatim>\<open>std::cerr\<close>) to the exit code of \<^verbatim>\<open>main\<close> or the exception that leaves it. A statement that can end
  the program takes the rest of the program as an argument.
\<close>

section \<open>Sessions and statements\<close>

datatype exit_code = Exit_success | Exit_failure

record 's session =
  port :: 's
  out_text :: string
  err_text :: string

type_synonym 's program = "'s session \<Rightarrow> (fault + exit_code) \<times> 's session"

definition newline :: string where
  "newline = [CHR 0x0A]"

definition say :: "string \<Rightarrow> 's session \<Rightarrow> 's session" where
  "say s m = m\<lparr>out_text := out_text m @ s\<rparr>"

definition complain :: "string \<Rightarrow> 's session \<Rightarrow> 's session" where
  "complain s m = m\<lparr>err_text := err_text m @ s\<rparr>"

definition print_error :: "error \<Rightarrow> 's session \<Rightarrow> 's session" where
  "print_error e m = complain (error_category_name (category e) @ '': '' @ message e @ newline) m"

definition finish :: "exit_code \<Rightarrow> 's program" where
  "finish c m = (Inr c, m)"

definition report :: "error \<Rightarrow> 's program" where
  "report e m = (Inr Exit_failure, print_error e m)"

definition give_up :: "string \<Rightarrow> 's program" where
  "give_up s m = (Inr Exit_failure, complain s m)"

definition printing :: "string \<Rightarrow> 's program \<Rightarrow> 's program" where
  "printing s rest m = rest (say s m)"

text \<open>An expression that may throw.\<close>

definition throwing :: "fault + 'x \<Rightarrow> ('x \<Rightarrow> 's program) \<Rightarrow> 's program" where
  "throwing r rest m = (case r of Inl f \<Rightarrow> (Inl f, m) | Inr x \<Rightarrow> rest x m)"

text \<open>A call on the provider, whatever becomes of it, and the same with the usual early return.\<close>

definition calling :: "('s \<Rightarrow> 'x call \<times> 's) \<Rightarrow> ('x outcome \<Rightarrow> 's program) \<Rightarrow> 's program" where
  "calling op rest m =
     (let (r, s) = op (port m); m = m\<lparr>port := s\<rparr>
      in case r of Inl f \<Rightarrow> (Inl f, m) | Inr x \<Rightarrow> rest x m)"

definition checked_outcome :: "('x \<Rightarrow> 's program) \<Rightarrow> 'x outcome \<Rightarrow> 's program" where
  "checked_outcome rest r m =
     (case r of Inl e \<Rightarrow> report e m | Inr x \<Rightarrow> rest x m)"

definition checked :: "('s \<Rightarrow> 'x call \<times> 's) \<Rightarrow> ('x \<Rightarrow> 's program) \<Rightarrow> 's program" where
  "checked op rest = calling op (checked_outcome rest)"

text \<open>A look at what an observer of the provider has seen, which changes nothing.\<close>

definition inspecting :: "('s \<Rightarrow> 'x) \<Rightarrow> ('x \<Rightarrow> 's program) \<Rightarrow> 's program" where
  "inspecting f rest m = rest (f (port m)) m"

section \<open>The operations of the port at their C++ types\<close>

text \<open>The type of each operation excludes the other kinds of reply.\<close>

type_synonym 's stepper = "'s \<Rightarrow> request \<Rightarrow> reply call \<times> 's"

fun as_allocated :: "reply \<Rightarrow> allocate_result call" where
  "as_allocated (Allocated r) = returns r"
| "as_allocated _ = Inl bad_dereference"

fun as_measured :: "reply \<Rightarrow> event_result call" where
  "as_measured (Measured r) = returns r"
| "as_measured _ = Inl bad_dereference"

fun as_read :: "reply \<Rightarrow> read_result call" where
  "as_read (Was_read r) = returns r"
| "as_read _ = Inl bad_dereference"

fun as_completed :: "reply \<Rightarrow> unit call" where
  "as_completed Completed = returns ()"
| "as_completed _ = Inl bad_dereference"

definition ask :: "'s stepper \<Rightarrow> request \<Rightarrow> (reply \<Rightarrow> 'x call) \<Rightarrow> 's \<Rightarrow> 'x call \<times> 's" where
  "ask step q f s = (let (r, s) = step s q in (bind_try r f, s))"

section \<open>Helpers of the example programs\<close>

definition default_platform_pcr_count :: u32 where
  "default_platform_pcr_count = 24"

definition default_tcti_config :: string where
  "default_tcti_config = ''tabrmd:bus_type=system''"

definition debug_index :: index where
  "debug_index = Index 16"

definition all_hash_algorithms :: "hash_algorithm list" where
  "all_hash_algorithms = [sha1, sha256, sha384, sha512]"

definition make_event_bytes :: "string \<Rightarrow> byte list" where
  "make_event_bytes cs = map of_char cs"

definition read_pcr_digest ::
  "'s stepper \<Rightarrow> bool \<Rightarrow> hash_algorithm \<Rightarrow> index \<Rightarrow> 's \<Rightarrow> byte list call \<times> 's" where
  "read_pcr_digest step legacy algorithm i s =
     (case new_selection legacy algorithm {i} of
        Inl f \<Rightarrow> (Inl f, s)
      | Inr sel \<Rightarrow>
          let (r, s) = ask step (Read sel) as_read s
          in (bind_try r (\<lambda>reading.
                case read_values reading of
                  [] \<Rightarrow> fails (err resource_error ''requested PCR bank did not return a value'')
                | v # _ \<Rightarrow> returns (dv_digest (pv_digest v))), s))"

text \<open>The loop over the algorithms; the result is the vector built so far, or the exception.\<close>

fun probe_banks ::
  "'s stepper \<Rightarrow> bool \<Rightarrow> hash_algorithm list \<Rightarrow> hash_algorithm list \<Rightarrow> 's \<Rightarrow>
   (fault + hash_algorithm list) \<times> 's" where
  "probe_banks step legacy [] active s = (Inr active, s)"
| "probe_banks step legacy (a # as) active s =
     (let (r, s) = read_pcr_digest step legacy a debug_index s
      in case r of
           Inl f \<Rightarrow> (Inl f, s)
         | Inr (Inl e) \<Rightarrow> probe_banks step legacy as active s
         | Inr (Inr d) \<Rightarrow> probe_banks step legacy as (active @ [a]) s)"

definition active_pcr_algorithms ::
  "'s stepper \<Rightarrow> bool \<Rightarrow> 's \<Rightarrow> (fault + hash_algorithm list) \<times> 's" where
  "active_pcr_algorithms step legacy s = probe_banks step legacy all_hash_algorithms [] s"

definition probing :: "'s stepper \<Rightarrow> bool \<Rightarrow> (hash_algorithm list \<Rightarrow> 's program) \<Rightarrow> 's program" where
  "probing step legacy rest =
     calling (map_prod or_throw id \<circ> active_pcr_algorithms step legacy) (checked_outcome rest)"

text \<open>
  \<^verbatim>\<open>std::cout << label << encode_hex(bytes) << end\<close>: the label is written before the encoding is asked for.
\<close>

definition print_hex :: "std_limits \<Rightarrow> string \<Rightarrow> byte list \<Rightarrow> 's program \<Rightarrow> 's program" where
  "print_hex L label bytes rest =
     printing label (throwing (encode_hex L bytes) (\<lambda>hex. printing (hex @ newline) rest))"

text \<open>Printing a list of read values, and the current values of a list of banks.\<close>

fun print_values :: "std_limits \<Rightarrow> (pcr_value \<Rightarrow> string) \<Rightarrow> pcr_value list \<Rightarrow> 's program \<Rightarrow> 's program" where
  "print_values L label [] rest = rest"
| "print_values L label (v # vs) rest =
     print_hex L (label v) (dv_digest (pv_digest v)) (print_values L label vs rest)"

fun print_digests :: "std_limits \<Rightarrow> string \<Rightarrow> digest_value list \<Rightarrow> 's program \<Rightarrow> 's program" where
  "print_digests L label [] rest = rest"
| "print_digests L label (d # ds) rest =
     print_hex L (hash_algorithm_name (dv_algorithm d) @ label) (dv_digest d) (print_digests L label ds rest)"

fun print_current ::
  "'s stepper \<Rightarrow> bool \<Rightarrow> std_limits \<Rightarrow> hash_algorithm list \<Rightarrow> 's program \<Rightarrow> 's program" where
  "print_current step legacy L [] rest = rest"
| "print_current step legacy L (a # as) rest =
     checked (read_pcr_digest step legacy a debug_index) (\<lambda>current.
       print_hex L (hash_algorithm_name a @ '' '') current (print_current step legacy L as rest))"

section \<open>The programs, once they have a provider\<close>

text \<open>\<^verbatim>\<open>active_banks.cpp\<close>: its loop runs over the algorithms and counts those that answer.\<close>

fun list_banks ::
  "'s stepper \<Rightarrow> bool \<Rightarrow> std_limits \<Rightarrow> hash_algorithm list \<Rightarrow> nat \<Rightarrow> 's program" where
  "list_banks step legacy L [] active_count =
     finish (if active_count > 0 then Exit_success else Exit_failure)"
| "list_banks step legacy L (a # as) active_count =
     throwing (new_selection legacy a {debug_index}) (\<lambda>sel.
       calling (ask step (Read sel) as_read) (\<lambda>reading.
         case (case reading of Inl e \<Rightarrow> [] | Inr r \<Rightarrow> read_values r) of
           [] \<Rightarrow> printing (hash_algorithm_name a @ '' inactive'' @ newline)
                   (list_banks step legacy L as active_count)
         | v # _ \<Rightarrow>
             let digest = dv_digest (pv_digest v)
             in print_hex L (hash_algorithm_name a @ '' active '' @ decimal_string (length digest) @ '' bytes '') digest
                  (list_banks step legacy L as (active_count + 1))))"

definition active_banks :: "'s stepper \<Rightarrow> bool \<Rightarrow> std_limits \<Rightarrow> 's program" where
  "active_banks step legacy L = list_banks step legacy L all_hash_algorithms 0"

text \<open>\<^verbatim>\<open>allocate_banks.cpp\<close>\<close>

definition contains_algorithm :: "hash_algorithm list \<Rightarrow> hash_algorithm \<Rightarrow> bool" where
  "contains_algorithm algorithms algorithm \<longleftrightarrow> List.find ((=) algorithm) algorithms \<noteq> None"

fun make_banks :: "bool \<Rightarrow> hash_algorithm list \<Rightarrow> bank list \<Rightarrow> fault + bank list" where
  "make_banks legacy [] banks = Inr banks"
| "make_banks legacy (a # as) banks =
     bind_ok (new_bank legacy a) (\<lambda>b. make_banks legacy as (banks @ [b]))"

definition requested_banks :: "bool \<Rightarrow> hash_algorithm list \<Rightarrow> hash_algorithm list" where
  "requested_banks add_sha384 active =
     (if add_sha384 \<and> \<not> contains_algorithm active sha384 then active @ [sha384] else active)"

definition allocation_report :: "hash_algorithm list \<Rightarrow> allocate_result \<Rightarrow> string" where
  "allocation_report requested r =
     ''requested PCR banks:'' @ concat (map (\<lambda>a. '' '' @ hash_algorithm_name a) requested) @ newline @
     ''allocation success: '' @ (if allocation_success r then ''true'' else ''false'') @ newline @
     ''max PCR: '' @ decimal_string (unat (max_pcr r)) @ newline @
     ''size needed: '' @ decimal_string (unat (size_needed r)) @ newline @
     ''size available: '' @ decimal_string (unat (size_available r)) @ newline"

definition allocate_banks :: "'s stepper \<Rightarrow> bool \<Rightarrow> bool \<Rightarrow> 's program" where
  "allocate_banks step legacy add_sha384 =
     probing step legacy (\<lambda>active.
       if active = [] then give_up (''no active PCR banks found'' @ newline)
       else let requested = requested_banks add_sha384 active in
         throwing (make_banks legacy requested []) (\<lambda>banks.
           checked (ask step (Allocate banks) as_allocated) (\<lambda>allocation.
             printing (allocation_report requested allocation)
               (finish (if allocation_success allocation then Exit_success else Exit_failure)))))"

text \<open>
  \<^verbatim>\<open>auth_value_rejected.cpp\<close>: the secret is 16 bytes \<open>0xa5\<close>. The provider is given its view; the storage
  behind it is the matter of the theory Secret_Buffer.
\<close>

definition auth_value_rejected :: "'s stepper \<Rightarrow> 's program" where
  "auth_value_rejected step =
     calling (ask step (Set_auth_value debug_index (replicate 16 0xa5)) as_completed) (\<lambda>rejected.
       case rejected of
         Inr u \<Rightarrow> give_up (''non-empty PCR auth value was accepted unexpectedly'' @ newline)
       | Inl e \<Rightarrow>
           if category e \<noteq> resource_error then report e
           else printing (''non-empty PCR auth value rejected without secure transport'' @ newline)
                  (finish Exit_success))"

text \<open>\<^verbatim>\<open>reset_debug.cpp\<close>, \<^verbatim>\<open>read_sha256.cpp\<close> and \<^verbatim>\<open>read_all_sha256.cpp\<close>\<close>

definition reset_debug :: "'s stepper \<Rightarrow> bool \<Rightarrow> std_limits \<Rightarrow> 's program" where
  "reset_debug step legacy L =
     checked (read_pcr_digest step legacy sha256 debug_index) (\<lambda>before.
     checked (ask step (Reset debug_index) as_completed) (\<lambda>_.
     checked (read_pcr_digest step legacy sha256 debug_index) (\<lambda>after.
       print_hex L ''pcr16 before '' before
         (print_hex L ''pcr16 after  '' after (finish Exit_success)))))"

definition value_label :: "pcr_value \<Rightarrow> string" where
  "value_label v = ''pcr'' @ decimal_string (unat (index_value (pv_index v))) @ '' ''"

definition print_reading :: "std_limits \<Rightarrow> read_result \<Rightarrow> 's program \<Rightarrow> 's program" where
  "print_reading L r rest =
     printing (''sha256 PCR update counter: '' @ decimal_string (unat (update_counter r)) @ newline)
       (print_values L value_label (read_values r) rest)"

definition read_sha256 :: "'s stepper \<Rightarrow> bool \<Rightarrow> std_limits \<Rightarrow> 's program" where
  "read_sha256 step legacy L =
     throwing (new_selection legacy sha256 {Index 0, Index 7, debug_index}) (\<lambda>sel.
       checked (ask step (Read sel) as_read) (\<lambda>r. print_reading L r (finish Exit_success)))"

definition read_all_sha256 :: "'s stepper \<Rightarrow> bool \<Rightarrow> std_limits \<Rightarrow> 's program" where
  "read_all_sha256 step legacy L =
     throwing (bind_ok (make_index_range 0 default_platform_pcr_count) (new_selection legacy sha256)) (\<lambda>sel.
       checked (ask step (Read sel) as_read) (\<lambda>r.
         print_reading L r (finish (if read_values r = [] then Exit_failure else Exit_success))))"

text \<open>\<^verbatim>\<open>event_all_banks.cpp\<close>\<close>

definition event_all_banks :: "'s stepper \<Rightarrow> bool \<Rightarrow> std_limits \<Rightarrow> string \<Rightarrow> 's program" where
  "event_all_banks step legacy L event_text =
     checked (ask step (Reset debug_index) as_completed) (\<lambda>_.
     checked (ask step (Event debug_index (make_event_bytes event_text)) as_measured) (\<lambda>event.
       printing (''pcr16 event digests:'' @ newline)
       (print_digests L '' '' (er_digests event)
       (probing step legacy (\<lambda>active.
          printing (''pcr16 current active values:'' @ newline)
          (print_current step legacy L active
             (finish (if er_digests event = [] then Exit_failure else Exit_success))))))))"

text \<open>
  \<^verbatim>\<open>event_debug.cpp\<close>. Its observer counts what it hears; \<open>heard\<close> is what the provider has told its
  observer so far, and the observer is declared before the provider.
\<close>

record counting_observer =
  event_count :: u64
  extend_count :: u64

definition new_counting_observer :: counting_observer where
  "new_counting_observer = \<lparr>event_count = 0, extend_count = 0\<rparr>"

fun counting_hear :: "counting_observer \<Rightarrow> notification \<Rightarrow> counting_observer" where
  "counting_hear ob (On_event i event_data result) = ob\<lparr>event_count := event_count ob + 1\<rparr>"
| "counting_hear ob (On_extend i digests) = ob\<lparr>extend_count := extend_count ob + 1\<rparr>"

definition is_sha256 :: "digest_value \<Rightarrow> bool" where
  "is_sha256 d \<longleftrightarrow> dv_algorithm d = sha256"

definition counting_report :: "counting_observer \<Rightarrow> string" where
  "counting_report ob =
     ''observer events: '' @ decimal_string (unat (event_count ob)) @
     '', observer extends: '' @ decimal_string (unat (extend_count ob)) @ newline"

definition event_debug ::
  "'s stepper \<Rightarrow> ('s \<Rightarrow> notification list) \<Rightarrow> bool \<Rightarrow> std_limits \<Rightarrow> string \<Rightarrow> 's program" where
  "event_debug step heard legacy L event_text =
     checked (ask step (Reset debug_index) as_completed) (\<lambda>_.
     checked (ask step (Event debug_index (make_event_bytes event_text)) as_measured) (\<lambda>event.
       printing (''pcr16 event digests:'' @ newline)
       (print_digests L '' '' (filter is_sha256 (er_digests event))
       (throwing (new_selection legacy sha256 {debug_index}) (\<lambda>sel.
          checked (ask step (Read sel) as_read) (\<lambda>r.
            print_values L (\<lambda>_. ''pcr16 current '') (read_values r)
            (inspecting (\<lambda>s. foldl counting_hear new_counting_observer (heard s)) (\<lambda>ob.
               printing (counting_report ob) (finish Exit_success)))))))))"

text \<open>\<^verbatim>\<open>extend_debug.cpp\<close>: the digest is decoded from its argument before the context is created.\<close>

definition sha256_digest_bytes :: "bool \<Rightarrow> std_limits \<Rightarrow> string \<Rightarrow> byte list outcome" where
  "sha256_digest_bytes legacy L digest_hex =
     bind_ok (decode_hex L digest_hex) (\<lambda>bytes.
       if digest_size legacy sha256 \<noteq> Inr (length bytes)
       then Inl (err input_error ''sha256 digest input must be exactly 32 bytes'') else Inr bytes)"

definition extend_debug ::
  "'s stepper \<Rightarrow> bool \<Rightarrow> std_limits \<Rightarrow> string \<Rightarrow> byte list \<Rightarrow> 's program" where
  "extend_debug step legacy L digest_hex digest_bytes =
     checked (ask step (Reset debug_index) as_completed) (\<lambda>_.
     throwing (new_digest_value legacy sha256 digest_bytes) (\<lambda>digest.
     checked (ask step (Extend debug_index [digest]) as_completed) (\<lambda>_.
     checked (read_pcr_digest step legacy sha256 debug_index) (\<lambda>current.
       printing (''pcr16 extended with sha256 '' @ digest_hex @ newline)
         (print_hex L ''pcr16 current '' current (finish Exit_success))))))"

text \<open>\<^verbatim>\<open>multi_bank_extend_debug.cpp\<close>\<close>

definition make_digest_bytes :: "bool \<Rightarrow> hash_algorithm \<Rightarrow> byte \<Rightarrow> fault + byte list" where
  "make_digest_bytes legacy algorithm fill =
     bind_ok (digest_size legacy algorithm) (\<lambda>n. Inr (replicate n fill))"

fun make_digests ::
  "bool \<Rightarrow> hash_algorithm list \<Rightarrow> nat \<Rightarrow> digest_value list \<Rightarrow> fault + digest_value list" where
  "make_digests legacy [] offset digests = Inr digests"
| "make_digests legacy (a # as) offset digests =
     (let fill = of_nat (0x10 + offset) in
      bind_ok (make_digest_bytes legacy a fill) (\<lambda>bytes.
      bind_ok (new_digest_value legacy a bytes) (\<lambda>d.
        make_digests legacy as (offset + 1) (digests @ [d]))))"

definition multi_bank_extend_debug :: "'s stepper \<Rightarrow> bool \<Rightarrow> std_limits \<Rightarrow> 's program" where
  "multi_bank_extend_debug step legacy L =
     probing step legacy (\<lambda>active.
       if active = [] then give_up (''no active PCR banks found'' @ newline)
       else checked (ask step (Reset debug_index) as_completed) (\<lambda>_.
         throwing (make_digests legacy active 0 []) (\<lambda>digests.
         checked (ask step (Extend debug_index digests) as_completed) (\<lambda>_.
           printing (''pcr16 extended across '' @ decimal_string (length digests) @ '' active banks'' @ newline)
           (print_digests L '' input '' digests
           (printing (''pcr16 current values:'' @ newline)
           (print_current step legacy L active (finish Exit_success))))))))"

text \<open>\<^verbatim>\<open>observer_trace.cpp\<close>: the observer records the sizes of what it hears.\<close>

record observed_measurement =
  digest_count :: nat
  event_size :: nat
  operation :: string

fun tracing_hear :: "observed_measurement list \<Rightarrow> notification \<Rightarrow> observed_measurement list" where
  "tracing_hear seen (On_event i event_data result) =
     seen @ [\<lparr>digest_count = length (er_digests result), event_size = length event_data,
                  operation = ''event''\<rparr>]"
| "tracing_hear seen (On_extend i digests) =
     seen @ [\<lparr>digest_count = length digests, event_size = 0, operation = ''extend''\<rparr>]"

definition measurement_line :: "observed_measurement \<Rightarrow> string" where
  "measurement_line r =
     operation r @ '' digests='' @ decimal_string (digest_count r) @
     '' event_bytes='' @ decimal_string (event_size r) @ newline"

definition observer_trace ::
  "'s stepper \<Rightarrow> ('s \<Rightarrow> notification list) \<Rightarrow> bool \<Rightarrow> string \<Rightarrow> byte list \<Rightarrow> 's program" where
  "observer_trace step heard legacy event_text digest_bytes =
     checked (ask step (Reset debug_index) as_completed) (\<lambda>_.
     throwing (new_digest_value legacy sha256 digest_bytes) (\<lambda>digest.
     checked (ask step (Extend debug_index [digest]) as_completed) (\<lambda>_.
     checked (ask step (Event debug_index (make_event_bytes event_text)) as_measured) (\<lambda>_.
     inspecting (\<lambda>s. foldl tracing_hear [] (heard s)) (\<lambda>seen.
       printing (concat (map measurement_line seen))
         (finish (if length seen = 2 then Exit_success else Exit_failure)))))))"

end
