(* ===== verification/Pcr_Session.thy ===== *)
theory Pcr_Session
  imports Pcr_Client "HOL-Library.Sublist"
begin

text \<open>
  The contract of the provider port extended by what a whole session keeps (locale
  \<open>provider_session\<close>), and the lemmas of the example programs under it: every program ends with an
  exit code, on a provider that is still valid and related to the first one by \<open>keeps\<close>.
\<close>

section \<open>Programs that end with an exit code\<close>

named_theorems sound_rules \<open>the rules for programs that end with an exit code\<close>

text \<open>On a valid provider the program ends in one of the ways \<open>R\<close> allows.\<close>

definition sound ::
  "(fault + exit_code \<Rightarrow> bool) \<Rightarrow> ('s \<Rightarrow> 's \<Rightarrow> bool) \<Rightarrow> ('s \<Rightarrow> bool) \<Rightarrow> 's program \<Rightarrow> bool" where
  "sound R keeps valid P \<longleftrightarrow>
     (\<forall>m. valid (port m) \<longrightarrow>
        R (fst (P m)) \<and> keeps (port m) (port (snd (P m))) \<and> valid (port (snd (P m))))"

definition exits :: "fault + exit_code \<Rightarrow> bool" where
  "exits r \<longleftrightarrow> (\<exists>c. r = Inr c)"

lemma exits_Inr [simp]: "exits (Inr c)"
  by (simp add: exits_def)

definition unsupported_selection :: fault where
  "unsupported_selection = input_validation_error ''unsupported PCR selection hash algorithm''"

definition default_build_end :: "fault + exit_code \<Rightarrow> bool" where
  "default_build_end r \<longleftrightarrow> r = Inr Exit_failure \<or> r = Inl unsupported_selection"

definition op_sound :: "('s \<Rightarrow> 's \<Rightarrow> bool) \<Rightarrow> ('s \<Rightarrow> bool) \<Rightarrow> ('x outcome \<Rightarrow> bool) \<Rightarrow> ('s \<Rightarrow> 'x call \<times> 's) \<Rightarrow> bool" where
  "op_sound keeps valid Q op \<longleftrightarrow>
     (\<forall>s. valid s \<longrightarrow>
        (\<exists>x. fst (op s) = Inr x \<and> Q x) \<and> keeps s (snd (op s)) \<and> valid (snd (op s)))"

text \<open>What a provider may answer, seen by its caller.\<close>

fun answer_ok :: "('x \<Rightarrow> bool) \<Rightarrow> 'x outcome \<Rightarrow> bool" where
  "answer_ok Q (Inl e) = listed_category (category e)"
| "answer_ok Q (Inr x) = Q x"

text \<open>Room for the texts the programs print.\<close>

definition roomy :: "std_limits \<Rightarrow> bool" where
  "roomy L \<longleftrightarrow> 128 \<le> size_max L \<and> 128 \<le> string_max_size L"

lemma roomy_hex:
  "roomy L \<Longrightarrow> length bs \<le> 64 \<Longrightarrow> encode_hex L bs = Inr (concat (map encode_byte bs))"
  unfolding roomy_def encode_hex_cases by simp linarith

lemma port_texts [simp]:
  "port (say s m) = port m" "port (complain s m) = port m" "port (print_error e m) = port m"
  by (simp_all add: say_def complain_def print_error_def)

lemma sound_printing [sound_rules]: "sound R keeps valid P \<Longrightarrow> sound R keeps valid (printing s P)"
  unfolding sound_def printing_def by (metis port_texts(1))

lemma sound_throwing [sound_rules]: "r = Inr x \<Longrightarrow> sound R keeps valid (rest x) \<Longrightarrow> sound R keeps valid (throwing r rest)"
  by (simp add: sound_def throwing_def)

lemma sound_inspecting [sound_rules]:
  "(\<And>x. sound R keeps valid (rest x)) \<Longrightarrow> sound R keeps valid (inspecting f rest)"
  by (simp add: sound_def inspecting_def)

lemma sound_print_hex [sound_rules]:
  "roomy L \<Longrightarrow> length bs \<le> 64 \<Longrightarrow> sound R keeps valid P \<Longrightarrow> sound R keeps valid (print_hex L label bs P)"
  by (simp add: print_hex_def roomy_hex sound_printing sound_throwing)

lemma sound_print_digests [sound_rules]:
  "roomy L \<Longrightarrow> \<forall>d \<in> set ds. length (dv_digest d) \<le> 64 \<Longrightarrow> sound R keeps valid P \<Longrightarrow>
   sound R keeps valid (print_digests L label ds P)"
  by (induction ds) (simp_all add: sound_print_hex)

lemma sound_print_values [sound_rules]:
  "roomy L \<Longrightarrow> \<forall>v \<in> set vs. length (dv_digest (pv_digest v)) \<le> 64 \<Longrightarrow> sound R keeps valid P \<Longrightarrow>
   sound R keeps valid (print_values L label vs P)"
  by (induction vs) (simp_all add: sound_print_hex)

lemma wf_read_bound:
  "wf_read_result legacy r \<Longrightarrow> v \<in> set (read_values r) \<Longrightarrow> length (dv_digest (pv_digest v)) \<le> 64"
  using wf_digest_value_bound by (auto simp: wf_read_result_def)

lemma wf_event_bound: "wf_event_result legacy r \<Longrightarrow> d \<in> set (er_digests r) \<Longrightarrow> length (dv_digest d) \<le> 64"
  using wf_digest_value_bound by (auto simp: wf_event_result_def)

lemma debug_index_wf [simp]: "wf_index debug_index"
  by (simp add: debug_index_def wf_index_unat)

section \<open>The contract of a session\<close>

locale provider_session = provider_port +
  fixes keeps :: "'a \<Rightarrow> 'a \<Rightarrow> bool"
  assumes keeps_refl: "keeps s s"
    and keeps_trans: "keeps s t \<Longrightarrow> keeps t u \<Longrightarrow> keeps s u"
    and step_keeps: "keeps s (snd (step s q))"
begin

lemma sound_finish [sound_rules]: "R (Inr c) \<Longrightarrow> sound R keeps valid (finish c)"
  by (simp add: sound_def finish_def keeps_refl)

lemma sound_report [sound_rules]: "R (Inr Exit_failure) \<Longrightarrow> sound R keeps valid (report e)"
  by (simp add: sound_def report_def keeps_refl)

lemma sound_give_up [sound_rules]: "R (Inr Exit_failure) \<Longrightarrow> sound R keeps valid (give_up s)"
  by (simp add: sound_def give_up_def keeps_refl)

lemma sound_calling:
  assumes "op_sound keeps valid Q op" and "\<And>x. Q x \<Longrightarrow> sound R keeps valid (rest x)"
  shows "sound R keeps valid (calling op rest)"
proof (unfold sound_def, intro allI impI)
  fix m :: "'a session"
  assume "valid (port m)"
  with assms(1) obtain x s where op: "op (port m) = (Inr x, s)" "Q x" "keeps (port m) s" "valid s"
    unfolding op_sound_def by (metis prod.collapse)
  let ?m = "m\<lparr>port := s\<rparr>"
  from assms(2) [OF \<open>Q x\<close>] op have "R (fst (rest x ?m)) \<and> keeps s (port (snd (rest x ?m))) \<and>
      valid (port (snd (rest x ?m)))"
    unfolding sound_def by (metis session.select_convs(1) session.surjective session.update_convs(1))
  with op keeps_trans [of "port m" s]
  show "R (fst (calling op rest m)) \<and> keeps (port m) (port (snd (calling op rest m))) \<and>
      valid (port (snd (calling op rest m)))"
    by (auto simp: calling_def)
qed

lemma op_sound_ask:
  assumes "wf_request legacy q" and "\<And>r. answers legacy q r \<Longrightarrow> \<exists>x. f r = Inr x \<and> Q x"
    and "\<And>e. listed_category (category e) \<Longrightarrow> Q (Inl e)"
  shows "op_sound keeps valid Q (ask step q f)"
proof (unfold op_sound_def, intro allI impI)
  fix s
  assume s: "valid s"
  obtain r s' where step: "step s q = (r, s')" by (cases "step s q")
  with step_safe [OF s assms(1)] step_valid [OF s assms(1)] step_keeps [of s q] assms(2,3)
  show "(\<exists>x. fst (ask step q f s) = Inr x \<and> Q x) \<and> keeps s (snd (ask step q f s)) \<and> valid (snd (ask step q f s))"
    by (cases r rule: try_cases) (auto simp: ask_def)
qed

lemma ask_completed:
  "q = Reset i \<or> q = Extend i ds \<or> q = Set_auth_value i auth \<Longrightarrow> wf_request legacy q \<Longrightarrow>
   op_sound keeps valid (answer_ok (\<lambda>_. True)) (ask step q as_completed)"
  by (rule op_sound_ask) (auto elim: answers.elims)

lemma ask_measured:
  "wf_index i \<Longrightarrow> op_sound keeps valid (answer_ok (wf_event_result legacy)) (ask step (Event i bs) as_measured)"
  by (rule op_sound_ask) (auto elim: answers.elims)

lemma ask_read:
  "wf_selection legacy sel \<Longrightarrow>
   op_sound keeps valid (answer_ok (wf_read_result legacy)) (ask step (Read sel) as_read)"
  by (rule op_sound_ask) (auto elim: answers.elims)

lemma ask_allocated:
  "list_all (wf_bank legacy) banks \<Longrightarrow>
   op_sound keeps valid (answer_ok (\<lambda>_. True)) (ask step (Allocate banks) as_allocated)"
  by (rule op_sound_ask) (auto elim: answers.elims)

lemma sound_checked [sound_rules]:
  assumes "R (Inr Exit_failure)" and "op_sound keeps valid (answer_ok Q) op" and "\<And>x. Q x \<Longrightarrow> sound R keeps valid (rest x)"
  shows "sound R keeps valid (checked op rest)"
proof -
  have "sound R keeps valid (checked_outcome rest r)" if "answer_ok Q r" for r
    using that assms(3) sound_report [where R = R, OF assms(1)] by (cases r) (simp_all add: checked_outcome_def sound_def)
  with assms(2) show ?thesis unfolding checked_def by (rule sound_calling)
qed

lemma op_sound_digest:
  assumes "supported_hash legacy a" and "wf_index i"
  shows "op_sound keeps valid (answer_ok (\<lambda>bs. length bs \<le> 64)) (read_pcr_digest step legacy a i)"
proof (unfold op_sound_def, intro allI impI)
  fix s
  assume "valid s"
  let ?sel = "\<lparr>sel_algorithm = a, sel_indices = {i}\<rparr>"
  obtain x s' where ask: "ask step (Read ?sel) as_read s = (Inr x, s')" "answer_ok (wf_read_result legacy) x"
    "keeps s s'" "valid s'"
    using ask_read [of ?sel] assms \<open>valid s\<close> unfolding op_sound_def wf_selection_def
    by (metis (no_types, lifting) prod.collapse selection.simps(1,2) singletonD)
  show "(\<exists>x. fst (read_pcr_digest step legacy a i s) = Inr x \<and> answer_ok (\<lambda>bs. length bs \<le> 64) x) \<and>
      keeps s (snd (read_pcr_digest step legacy a i s)) \<and> valid (snd (read_pcr_digest step legacy a i s))"
  proof (cases x)
    case (Inl e)
    with ask assms(1) show ?thesis by (simp add: read_pcr_digest_def new_selection_cases)
  next
    case (Inr r)
    with ask wf_read_bound [of legacy r] assms(1) show ?thesis
      by (cases "read_values r") (auto simp: read_pcr_digest_def new_selection_cases)
  qed
qed

text \<open>The probe of a list of supported banks; what it finds keeps the order of the list.\<close>

lemma probe_sound:
  "\<forall>a \<in> set as. supported_hash legacy a \<Longrightarrow>
   op_sound keeps valid (\<lambda>x. \<exists>found. x = Inr (active @ found) \<and> subseq found as)
     (map_prod or_throw id \<circ> probe_banks step legacy as active)"
proof (induction as arbitrary: active)
  case Nil
  then show ?case by (simp add: op_sound_def keeps_refl)
next
  case (Cons a as)
  show ?case
  proof (unfold op_sound_def, intro allI impI)
    fix s
    assume "valid s"
    obtain x s' where digest: "read_pcr_digest step legacy a debug_index s = (Inr x, s')" "keeps s s'" "valid s'"
      using op_sound_digest [of a debug_index] Cons.prems \<open>valid s\<close>
      unfolding op_sound_def by (metis debug_index_wf list.set_intros(1) prod.collapse)
    let ?active = "case x of Inl e \<Rightarrow> active | Inr d \<Rightarrow> active @ [a]"
    obtain found u where rest: "probe_banks step legacy as ?active s' = (Inr (?active @ found), u)"
      "subseq found as" "keeps s' u" "valid u"
      using Cons.IH [of ?active] Cons.prems \<open>valid s'\<close>
      by (cases "probe_banks step legacy as ?active s'"; cases "fst (probe_banks step legacy as ?active s')")
         (auto simp: op_sound_def)
    from digest rest have "probe_banks step legacy (a # as) active s = (Inr (?active @ found), u)"
      by (simp split: sum.splits)
    with rest digest keeps_trans [of s s' u]
    show "(\<exists>r. fst ((map_prod or_throw id \<circ> probe_banks step legacy (a # as) active) s) = Inr r \<and>
             (\<exists>found. r = Inr (active @ found) \<and> subseq found (a # as))) \<and>
        keeps s (snd ((map_prod or_throw id \<circ> probe_banks step legacy (a # as) active) s)) \<and>
        valid (snd ((map_prod or_throw id \<circ> probe_banks step legacy (a # as) active) s))"
      by (cases x) auto
  qed
qed

lemma sound_probing [sound_rules]:
  assumes "legacy"
    and "\<And>active. distinct active \<Longrightarrow> set active \<subseteq> set all_hash_algorithms \<Longrightarrow> length active \<le> 4 \<Longrightarrow>
      sound R keeps valid (rest active)"
  shows "sound R keeps valid (probing step legacy rest)"
  unfolding probing_def active_pcr_algorithms_def [abs_def]
proof (rule sound_calling [OF probe_sound])
  show "\<forall>a \<in> set all_hash_algorithms. supported_hash legacy a"
    using assms(1) by (simp add: all_hash_algorithms_def)
  fix x :: "hash_algorithm list outcome"
  assume "\<exists>found. x = Inr ([] @ found) \<and> subseq found all_hash_algorithms"
  then obtain found where found: "x = Inr found" "subseq found all_hash_algorithms" by auto
  then have "found \<in> set (subseqs all_hash_algorithms)" by simp
  then have "distinct found" "set found \<subseteq> set all_hash_algorithms" "length found \<le> 4"
    by (auto simp: all_hash_algorithms_def simp del: in_set_subseqs)
  with found(1) assms(2) show "sound R keeps valid (checked_outcome rest x)"
    by (simp add: sound_def checked_outcome_def)
qed

lemma sound_print_current [sound_rules]:
  "R (Inr Exit_failure) \<Longrightarrow> roomy L \<Longrightarrow> \<forall>a \<in> set as. supported_hash legacy a \<Longrightarrow> sound R keeps valid P \<Longrightarrow>
   sound R keeps valid (print_current step legacy L as P)"
  by (induction as) (auto intro!: sound_checked [OF _ op_sound_digest] sound_print_hex)

section \<open>The example programs end with an exit code\<close>

lemma sound_list_banks:
  "roomy L \<Longrightarrow> \<forall>a \<in> set as. supported_hash legacy a \<Longrightarrow> sound exits keeps valid (list_banks step legacy L as n)"
proof (induction as arbitrary: n)
  case (Cons a as)
  let ?sel = "\<lparr>sel_algorithm = a, sel_indices = {debug_index}\<rparr>"
  have sel: "new_selection legacy a {debug_index} = Inr ?sel" "wf_selection legacy ?sel"
    using Cons.prems by (simp_all add: new_selection_cases wf_selection_def)
  have rest: "sound exits keeps valid (list_banks step legacy L as k)" for k
    using Cons by simp
  show ?case
    unfolding list_banks.simps
    by (rule sound_throwing [OF sel(1)], rule sound_calling [OF ask_read [OF sel(2)]])
       (auto split: sum.splits list.splits simp: Let_def wf_read_bound intro!: sound_printing sound_print_hex rest Cons.prems(1))
qed (simp add: sound_finish)

lemma sound_active_banks: "legacy \<Longrightarrow> roomy L \<Longrightarrow> sound exits keeps valid (active_banks step legacy L)"
  unfolding active_banks_def by (rule sound_list_banks) (simp_all add: all_hash_algorithms_def)

lemma make_banks_ok:
  "\<forall>a \<in> set as. supported_hash legacy a \<Longrightarrow>
   \<exists>bs. make_banks legacy as acc = Inr (acc @ bs) \<and> map bank_algorithm bs = as \<and> list_all (wf_bank legacy) bs"
proof (induction as arbitrary: acc)
  case (Cons a as)
  then obtain n where n: "digest_size legacy a = Inr n" using digest_size_total_iff [of legacy a] by auto
  let ?b = "\<lparr>bank_algorithm = a, bank_digest_size = n\<rparr>"
  obtain bs where "make_banks legacy as (acc @ [?b]) = Inr ((acc @ [?b]) @ bs)" "map bank_algorithm bs = as"
    "list_all (wf_bank legacy) bs"
    using Cons.IH [of "acc @ [?b]"] Cons.prems by auto
  with n show ?case
    by (intro exI [of _ "?b # bs"]) (simp add: new_bank_def validated_digest_size_def, simp add: wf_bank_def)
qed simp

lemma requested_supported:
  "\<forall>a \<in> set active. supported_hash legacy a \<Longrightarrow> \<forall>a \<in> set (requested_banks add active). supported_hash legacy a"
  by (simp add: requested_banks_def)

lemma supported_with_legacy:
  "legacy \<Longrightarrow> set active \<subseteq> set all_hash_algorithms \<Longrightarrow> \<forall>a \<in> set active. supported_hash legacy a"
  by (auto simp: all_hash_algorithms_def)

lemma supported_all: "set active \<subseteq> set all_hash_algorithms \<Longrightarrow> \<forall>a \<in> set active. supported_hash True a"
  by (auto simp: all_hash_algorithms_def)

lemma sound_allocate_banks: "legacy \<Longrightarrow> sound exits keeps valid (allocate_banks step legacy add_sha384)"
  unfolding allocate_banks_def
proof (rule sound_probing)
  fix active
  assume legacy "set active \<subseteq> set all_hash_algorithms"
  let ?requested = "requested_banks add_sha384 active"
  obtain banks where "make_banks legacy ?requested [] = Inr banks" "list_all (wf_bank legacy) banks"
    using make_banks_ok [OF requested_supported [OF supported_with_legacy [OF \<open>legacy\<close> \<open>set active \<subseteq> _\<close>]]]
    by fastforce
  then show "sound exits keeps valid
      (if active = [] then give_up (''no active PCR banks found'' @ newline)
       else let requested = ?requested in
         throwing (make_banks legacy requested []) (\<lambda>banks.
           checked (ask step (Allocate banks) as_allocated) (\<lambda>allocation.
             printing (allocation_report requested allocation)
               (finish (if allocation_success allocation then Exit_success else Exit_failure)))))"
    by (auto simp: Let_def intro!: sound_give_up sound_throwing sound_checked [OF _ ask_allocated]
        sound_printing sound_finish)
qed

lemma sound_auth_value_rejected: "sound exits keeps valid (auth_value_rejected step)"
  unfolding auth_value_rejected_def
  by (rule sound_calling [OF ask_completed])
     (auto split: sum.splits intro!: sound_give_up sound_report sound_printing sound_finish)

lemma sound_print_reading:
  "roomy L \<Longrightarrow> wf_read_result legacy r \<Longrightarrow> sound exits keeps valid P \<Longrightarrow> sound exits keeps valid (print_reading L r P)"
  unfolding print_reading_def by (auto intro!: sound_printing sound_print_values dest: wf_read_bound)

lemma sound_reset_debug: "roomy L \<Longrightarrow> sound exits keeps valid (reset_debug step legacy L)"
  unfolding reset_debug_def
  by (rule sound_checked [OF _ op_sound_digest] sound_checked [OF _ ask_completed] sound_print_hex sound_finish
      | simp)+

lemma sound_read_sha256: "roomy L \<Longrightarrow> sound exits keeps valid (read_sha256 step legacy L)"
  unfolding read_sha256_def
  by (rule sound_throwing [OF new_selection_cases [THEN trans, OF if_P]], simp,
      rule sound_checked [OF _ ask_read], simp, simp add: wf_selection_def, simp add: wf_index_unat)
     (rule sound_print_reading sound_finish exits_Inr | assumption)+

lemma all_pcrs_ok:
  "\<exists>is. make_index_range 0 default_platform_pcr_count = Inr is \<and> (\<forall>i \<in> is. wf_index i)"
  by (simp add: make_index_range_def validate_index_range_iff insert_range_eq default_platform_pcr_count_def
      validate_index_range_def max_index_value_def wf_index_unat)

lemma sound_read_all_sha256: "roomy L \<Longrightarrow> sound exits keeps valid (read_all_sha256 step legacy L)"
proof -
  assume "roomy L"
  obtain "is" where "make_index_range 0 default_platform_pcr_count = Inr is" "\<forall>i \<in> is. wf_index i"
    using all_pcrs_ok by blast
  then have sel: "bind_ok (make_index_range 0 default_platform_pcr_count) (new_selection legacy sha256) =
      Inr \<lparr>sel_algorithm = sha256, sel_indices = is\<rparr>"
    "wf_selection legacy \<lparr>sel_algorithm = sha256, sel_indices = is\<rparr>"
    by (simp_all add: new_selection_cases wf_selection_def)
  show ?thesis
    unfolding read_all_sha256_def
    by (rule sound_throwing [OF sel(1)], rule sound_checked [OF _ ask_read [OF sel(2)]])
       (rule sound_print_reading [OF \<open>roomy L\<close>] sound_finish exits_Inr | assumption)+
qed

lemma sound_event_all_banks: "legacy \<Longrightarrow> roomy L \<Longrightarrow> sound exits keeps valid (event_all_banks step legacy L event_text)"
  unfolding event_all_banks_def
  by (rule sound_checked [OF _ ask_completed] sound_checked [OF _ ask_measured] sound_printing
        sound_print_digests sound_probing sound_print_current sound_finish
      | simp add: wf_event_bound supported_all)+

lemma sound_event_debug: "roomy L \<Longrightarrow> sound exits keeps valid (event_debug step heard legacy L event_text)"
  unfolding event_debug_def
  by (rule sound_checked [OF _ ask_completed] sound_checked [OF _ ask_measured] sound_printing
        sound_print_digests sound_throwing [OF new_selection_cases [THEN trans, OF if_P]]
        sound_checked [OF _ ask_read] sound_print_values sound_inspecting sound_finish
      | simp add: wf_event_bound wf_selection_def wf_read_bound)+

lemma sound_extend_debug:
  assumes "roomy L" and "length digest_bytes = 32"
  shows "sound exits keeps valid (extend_debug step legacy L digest_hex digest_bytes)"
proof -
  have d: "new_digest_value legacy sha256 digest_bytes = Inr \<lparr>dv_algorithm = sha256, dv_digest = digest_bytes\<rparr>"
    using assms(2) by (simp add: new_digest_value_ok)
  show ?thesis
    unfolding extend_debug_def
    by (rule sound_checked [OF _ ask_completed] sound_throwing [OF d] sound_checked [OF _ op_sound_digest]
          sound_printing sound_print_hex sound_finish
        | simp add: assms wf_digest_value_def)+
qed

lemma make_digests_ok:
  "\<forall>a \<in> set as. supported_hash legacy a \<Longrightarrow>
   \<exists>ds. make_digests legacy as n acc = Inr (acc @ ds) \<and> map dv_algorithm ds = as \<and>
     list_all (wf_digest_value legacy) ds"
proof (induction as arbitrary: n acc)
  case (Cons a as)
  then obtain k where k: "digest_size legacy a = Inr k" using digest_size_total_iff [of legacy a] by auto
  let ?d = "\<lparr>dv_algorithm = a, dv_digest = replicate k (of_nat (0x10 + n))\<rparr>"
  obtain ds where "make_digests legacy as (n + 1) (acc @ [?d]) = Inr ((acc @ [?d]) @ ds)"
    "map dv_algorithm ds = as" "list_all (wf_digest_value legacy) ds"
    using Cons.IH [of "n + 1" "acc @ [?d]"] Cons.prems by auto
  moreover have "new_digest_value legacy a (dv_digest ?d) = Inr ?d" "wf_digest_value legacy ?d"
    using k by (simp_all add: new_digest_value_ok wf_digest_value_def)
  ultimately show ?case
    using k by (intro exI [of _ "?d # ds"]) (simp add: make_digest_bytes_def Let_def)
qed simp

lemma sound_multi_bank_extend_debug:
  assumes legacy and "roomy L"
  shows "sound exits keeps valid (multi_bank_extend_debug step legacy L)"
  unfolding multi_bank_extend_debug_def
proof (rule sound_probing [OF assms(1)])
  fix active
  assume "set active \<subseteq> set all_hash_algorithms"
  then have active: "\<forall>a \<in> set active. supported_hash legacy a" using assms(1) supported_all by simp
  then obtain ds where ds: "make_digests legacy active 0 [] = Inr ds" "list_all (wf_digest_value legacy) ds"
    using make_digests_ok [of active 0 "[]"] by auto
  then have short: "\<forall>d \<in> set ds. length (dv_digest d) \<le> 64"
    using wf_digest_value_bound by (auto simp: list_all_iff)
  show "sound exits keeps valid
      (if active = [] then give_up (''no active PCR banks found'' @ newline)
       else checked (ask step (Reset debug_index) as_completed) (\<lambda>_.
         throwing (make_digests legacy active 0 []) (\<lambda>digests.
         checked (ask step (Extend debug_index digests) as_completed) (\<lambda>_.
           printing (''pcr16 extended across '' @ decimal_string (length digests) @ '' active banks'' @ newline)
           (print_digests L '' input '' digests
           (printing (''pcr16 current values:'' @ newline)
           (print_current step legacy L active (finish Exit_success))))))))"
    by (split if_split, intro conjI impI)
       (rule sound_give_up sound_checked [OF _ ask_completed] sound_throwing [OF ds(1)] sound_printing
          sound_print_digests sound_print_current sound_finish
        | simp add: assms(2) ds(2) short active del: assms(1))+
qed

lemma sound_observer_trace:
  assumes "length digest_bytes = 32"
  shows "sound exits keeps valid (observer_trace step heard legacy event_text digest_bytes)"
proof -
  have d: "new_digest_value legacy sha256 digest_bytes = Inr \<lparr>dv_algorithm = sha256, dv_digest = digest_bytes\<rparr>"
    using assms by (simp add: new_digest_value_ok)
  show ?thesis
    unfolding observer_trace_def
    by (rule sound_checked [OF _ ask_completed] sound_checked [OF _ ask_measured] sound_throwing [OF d]
          sound_inspecting sound_printing sound_finish
        | simp add: assms wf_digest_value_def)+
qed

text \<open>
  Where the library was built without SHA-1, the selection of the SHA-1 bank throws: the programs that
  ask for all banks cannot succeed.
\<close>

lemma sha1_selection: "\<not> legacy \<Longrightarrow> new_selection legacy sha1 is = Inl unsupported_selection"
  by (simp add: new_selection_cases unsupported_selection_def)

lemma sound_probing_default:
  assumes "\<not> legacy"
  shows "sound default_build_end keeps valid (probing step legacy rest)"
proof -
  have "active_pcr_algorithms step legacy s = (Inl unsupported_selection, s)" for s
    using sha1_selection [OF assms]
    by (simp add: active_pcr_algorithms_def all_hash_algorithms_def read_pcr_digest_def)
  then show ?thesis
    by (simp add: sound_def probing_def calling_def Let_def default_build_end_def keeps_refl)
qed

lemma sound_active_banks_default:
  "\<not> legacy \<Longrightarrow> sound default_build_end keeps valid (active_banks step legacy L)"
  using sha1_selection
  by (simp add: active_banks_def all_hash_algorithms_def sound_def throwing_def default_build_end_def keeps_refl)

lemma sound_allocate_banks_default:
  "\<not> legacy \<Longrightarrow> sound default_build_end keeps valid (allocate_banks step legacy add_sha384)"
  unfolding allocate_banks_def by (rule sound_probing_default)

lemma sound_multi_bank_extend_debug_default:
  "\<not> legacy \<Longrightarrow> sound default_build_end keeps valid (multi_bank_extend_debug step legacy L)"
  unfolding multi_bank_extend_debug_def by (rule sound_probing_default)

lemma sound_event_all_banks_default:
  "\<not> legacy \<Longrightarrow> roomy L \<Longrightarrow> sound default_build_end keeps valid (event_all_banks step legacy L event_text)"
  unfolding event_all_banks_def
  by (rule sound_checked [OF _ ask_completed] sound_checked [OF _ ask_measured] sound_printing
        sound_print_digests sound_probing_default
      | simp add: wf_event_bound default_build_end_def)+

text \<open>What the trace program prints when it succeeds: one extend and one event, in this order.\<close>

lemma ask_done:
  assumes "valid s" and "wf_request legacy q" and "\<And>r. answers legacy q r \<Longrightarrow> r = Completed"
  obtains (completed) s' where "ask step q as_completed s = (returns (), s')" "valid s'" "watched s' = watched s"
      "heard s' = heard s @ (if watched s then measurement q (returns Completed) else [])"
    | (failed) e s' where "ask step q as_completed s = (fails e, s')"
proof -
  obtain r s' where step: "step s q = (r, s')" by (cases "step s q")
  with step_safe [OF assms(1,2)] step_valid [OF assms(1,2)] step_heard [OF assms(1,2)] step_watched [of s q]
    assms(3) that
  show thesis
  proof (cases r rule: try_cases)
    case (returned x)
    with step step_safe [OF assms(1,2)] assms(3) have "x = Completed" by simp
    with returned step step_valid [OF assms(1,2)] step_heard [OF assms(1,2)] step_watched [of s q] that(1) [of s']
    show thesis by (simp add: ask_def)
  qed (auto simp: ask_def)
qed

lemma ask_event_result:
  assumes "valid s" and "wf_index i"
  obtains (completed) r s' where "ask step (Event i bs) as_measured s = (returns r, s')"
      "heard s' = heard s @ (if watched s then [On_event i bs r] else [])"
    | (failed) e s' where "ask step (Event i bs) as_measured s = (fails e, s')"
proof -
  have wf: "wf_request legacy (Event i bs)" using assms(2) by simp
  obtain r s' where step: "step s (Event i bs) = (r, s')" by (cases "step s (Event i bs)")
  with step_safe [OF assms(1) wf] step_heard [OF assms(1) wf] that
  show thesis by (cases r rule: try_cases) (auto simp: ask_def elim!: answers.elims)
qed

lemma observer_trace_result:
  assumes "valid (port m)" and "watched (port m)" and "heard (port m) = []" and "length digest_bytes = 32"
    and run: "observer_trace step heard legacy event_text digest_bytes m = (r, m')"
  shows "(\<exists>e :: error. r = Inr Exit_failure \<and> out_text m' = out_text m \<and>
       err_text m' = err_text m @ error_category_name (category e) @ '': '' @ message e @ newline) \<or>
    (\<exists>n. r = Inr Exit_success \<and> err_text m' = err_text m \<and> out_text m' = out_text m @
       measurement_line \<lparr>digest_count = 1, event_size = 0, operation = ''extend''\<rparr> @
       measurement_line \<lparr>digest_count = n, event_size = length event_text, operation = ''event''\<rparr>)"
proof -
  let ?d = "\<lparr>dv_algorithm = sha256, dv_digest = digest_bytes\<rparr>"
  have d: "new_digest_value legacy sha256 digest_bytes = Inr ?d" "wf_digest_value legacy ?d"
    using assms(4) by (simp_all add: new_digest_value_ok wf_digest_value_def)
  note defs = observer_trace_def checked_def calling_def checked_outcome_def report_def throwing_def
    inspecting_def printing_def finish_def print_error_def complain_def say_def
  have reset: "wf_request legacy (Reset debug_index)" "\<And>r. answers legacy (Reset debug_index) r \<Longrightarrow> r = Completed"
    by (auto elim: answers.elims)
  have extend: "wf_request legacy (Extend debug_index [?d])"
    "\<And>r. answers legacy (Extend debug_index [?d]) r \<Longrightarrow> r = Completed"
    using d(2) by (auto elim: answers.elims)
  consider (stop) e s1 where "ask step (Reset debug_index) as_completed (port m) = (fails e, s1)"
    | (go) s1 where "ask step (Reset debug_index) as_completed (port m) = (returns (), s1)" "valid s1" "watched s1"
        "heard s1 = []"
    by (rule ask_done [OF assms(1) reset]) (use assms(2,3) in auto)
  then show ?thesis
  proof cases
    case (stop e s1)
    with run show ?thesis by (intro disjI1 exI [of _ e]) (auto simp: defs)
  next
    case (go s1)
    consider (stop) e s2 where "ask step (Extend debug_index [?d]) as_completed s1 = (fails e, s2)"
      | (on) s2 where "ask step (Extend debug_index [?d]) as_completed s1 = (returns (), s2)" "valid s2" "watched s2"
          "heard s2 = [On_extend debug_index [?d]]"
      by (rule ask_done [OF go(2) extend]) (use go(3,4) in auto)
    then show ?thesis
    proof cases
      case (stop e s2)
      with go(1) run d(1) show ?thesis by (intro disjI1 exI [of _ e]) (auto simp: defs)
    next
      case (on s2)
      let ?bs = "make_event_bytes event_text"
      consider (stop) e s3 where "ask step (Event debug_index ?bs) as_measured s2 = (fails e, s3)"
        | (over) result s3 where "ask step (Event debug_index ?bs) as_measured s2 = (returns result, s3)"
            "heard s3 = [On_extend debug_index [?d], On_event debug_index ?bs result]"
        by (rule ask_event_result [OF on(2) debug_index_wf]) (use on(3,4) in auto)
      then show ?thesis
      proof cases
        case (stop e s3)
        with go(1) on(1) run d(1) show ?thesis by (intro disjI1 exI [of _ e]) (auto simp: defs)
      next
        case (over result s3)
        with go(1) on(1) run d(1) show ?thesis
          by (intro disjI2 exI [of _ "length (er_digests result)"]) (auto simp: defs make_event_bytes_def)
      qed
    qed
  qed
qed

end

end
