(* ===== verification/Pcr_Logging.thy ===== *)
theory Pcr_Logging
  imports Log_Events Pcr_Values
begin

text \<open>
  \<^verbatim>\<open>src/adapters/tpm2_esys/pcr/pcr_logging.cpp\<close>: the success record of every PCR operation. The
  logger is a reference and never null. A field value \<^verbatim>\<open>std::to_string(index.value())\<close> prints the
  register number in decimal.
\<close>

definition log_allocate_completed :: "bool \<Rightarrow> nat \<Rightarrow> log_call list" where
  "log_allocate_completed allocated bank_count =
     emit_success_record True ev_pcr_allocate_completed
       [fld ''allocation_success'' (if allocated then ''true'' else ''false''),
        fld ''bank_count'' (decimal_string bank_count)]"

definition log_auth_policy_set :: "index \<Rightarrow> hash_algorithm \<Rightarrow> log_call list" where
  "log_auth_policy_set i algorithm =
     emit_success_record True ev_pcr_auth_policy_set
       [fld ''pcr_index'' (decimal_string (unat (index_value i))),
        fld ''policy_algorithm'' (hash_algorithm_name algorithm)]"

definition log_auth_value_set :: "index \<Rightarrow> log_call list" where
  "log_auth_value_set i =
     emit_success_record True ev_pcr_auth_value_set
       [fld ''pcr_index'' (decimal_string (unat (index_value i)))]"

definition log_event_completed :: "index \<Rightarrow> nat \<Rightarrow> nat \<Rightarrow> log_call list" where
  "log_event_completed i event_size bank_count =
     emit_success_record True ev_pcr_event_completed
       [fld ''bank_count'' (decimal_string bank_count),
        fld ''event_size'' (decimal_string event_size),
        fld ''pcr_index'' (decimal_string (unat (index_value i)))]"

definition log_extend_completed :: "index \<Rightarrow> nat \<Rightarrow> log_call list" where
  "log_extend_completed i bank_count =
     emit_success_record True ev_pcr_extend_completed
       [fld ''bank_count'' (decimal_string bank_count),
        fld ''pcr_index'' (decimal_string (unat (index_value i)))]"

definition log_read_completed :: "selection \<Rightarrow> nat \<Rightarrow> log_call list" where
  "log_read_completed sel value_count =
     emit_success_record True ev_pcr_read_completed
       [fld ''bank'' (hash_algorithm_name (sel_algorithm sel)),
        fld ''pcr_count'' (decimal_string value_count)]"

definition log_reset_completed :: "index \<Rightarrow> log_call list" where
  "log_reset_completed i =
     emit_success_record True ev_pcr_reset_completed
       [fld ''pcr_index'' (decimal_string (unat (index_value i)))]"

lemmas pcr_log_defs =
  log_allocate_completed_def log_auth_policy_set_def log_auth_value_set_def
  log_event_completed_def log_extend_completed_def log_read_completed_def log_reset_completed_def

lemma pcr_records_in_vocabulary:
  "list_all in_vocabulary (log_allocate_completed b n)" "list_all in_vocabulary (log_auth_policy_set i a)"
  "list_all in_vocabulary (log_auth_value_set i)" "list_all in_vocabulary (log_event_completed i n m)"
  "list_all in_vocabulary (log_extend_completed i n)" "list_all in_vocabulary (log_read_completed s n)"
  "list_all in_vocabulary (log_reset_completed i)"
  unfolding pcr_log_defs
  by (rule emitted_in_vocabulary(1); simp add: log_field_keys_def)+

text \<open>Each writes one record with outcome success, in the vocabulary of the adapter.\<close>

definition success_record :: "event_descriptor \<Rightarrow> log_call \<Rightarrow> bool" where
  "success_record event c \<longleftrightarrow>
     call_level c = info \<and> call_message c = event_message event \<and>
     field_lookup ''event'' c = Some (event_name event) \<and>
     field_lookup ''outcome'' c = Some ''success'' \<and> in_vocabulary c"

lemma success_record_split:
  "list_all (success_record event) cs \<longleftrightarrow>
     list_all (\<lambda>c. call_level c = info \<and> call_message c = event_message event \<and>
       field_lookup ''event'' c = Some (event_name event) \<and>
       field_lookup ''outcome'' c = Some ''success'') cs \<and> list_all in_vocabulary cs"
  by (auto simp: list_all_iff success_record_def)

lemma success_records:
  "list_all (success_record ev_pcr_allocate_completed) (log_allocate_completed b n)"
  "list_all (success_record ev_pcr_auth_policy_set) (log_auth_policy_set i a)"
  "list_all (success_record ev_pcr_auth_value_set) (log_auth_value_set i)"
  "list_all (success_record ev_pcr_event_completed) (log_event_completed i n m)"
  "list_all (success_record ev_pcr_extend_completed) (log_extend_completed i n)"
  "list_all (success_record ev_pcr_read_completed) (log_read_completed s n)"
  "list_all (success_record ev_pcr_reset_completed) (log_reset_completed i)"
  unfolding success_record_split
  by (simp_all add: pcr_records_in_vocabulary)
     (simp_all add: pcr_log_defs emit_success_record_eq field_lookup_def)

lemma one_record:
  "length (log_allocate_completed b n) = 1" "length (log_auth_policy_set i a) = 1"
  "length (log_auth_value_set i) = 1" "length (log_event_completed i n m) = 1"
  "length (log_extend_completed i n) = 1" "length (log_read_completed s n) = 1"
  "length (log_reset_completed i) = 1"
  by (simp_all add: pcr_log_defs emit_success_record_eq)

end
