(* ===== verification/Pcr_Validation.thy ===== *)
theory Pcr_Validation
  imports Pcr_Marshalling
begin

text \<open>
  \<^verbatim>\<open>src/adapters/tpm2_esys/pcr/pcr_validation.cpp\<close>: the checks each provider operation makes on
  its arguments before anything reaches the TPM.
\<close>

text \<open>The loop \<^verbatim>\<open>if (!algorithms.insert(x.algorithm()).second) return \<dots>\<close>.\<close>

fun reject_duplicates :: "string \<Rightarrow> hash_algorithm set \<Rightarrow> hash_algorithm list \<Rightarrow> unit outcome" where
  "reject_duplicates msg seen [] = Inr ()"
| "reject_duplicates msg seen (a # as) =
     (if a \<in> seen then Inl (err input_error msg) else reject_duplicates msg (insert a seen) as)"

definition ensure_bank_count :: "tss \<Rightarrow> bank list \<Rightarrow> unit outcome" where
  "ensure_bank_count T banks =
     (if banks = [] then Inl (err input_error ''PCR allocate requires at least one bank'')
      else if length banks > num_pcr_banks T then Inl (err input_error ''too many PCR banks'')
      else reject_duplicates ''duplicate PCR bank'' {} (map bank_algorithm banks))"

definition ensure_digest_count :: "tss \<Rightarrow> digest_value list \<Rightarrow> unit outcome" where
  "ensure_digest_count T digests =
     (if digests = [] then Inl (err input_error ''PCR extend requires at least one digest'')
      else if length digests > num_pcr_banks T then Inl (err input_error ''too many PCR digests'')
      else reject_duplicates ''duplicate PCR digest algorithm'' {} (map dv_algorithm digests))"

text \<open>A pointer is \<open>None\<close> when null.\<close>

definition ensure_esys_available :: "nat option \<Rightarrow> unit outcome" where
  "ensure_esys_available esys =
     (if esys = None
      then Inl (err resource_error ''ESYS PCR provider has no TPM context'') else Inr ())"

definition ensure_event_size :: "tss \<Rightarrow> byte list \<Rightarrow> unit outcome" where
  "ensure_event_size T event_data =
     (if length event_data > event_buffer_size T
      then Inl (err input_error ''PCR event data is too large'') else Inr ())"

definition ensure_sized_buffer_fits :: "tss \<Rightarrow> nat \<Rightarrow> string \<Rightarrow> unit outcome" where
  "ensure_sized_buffer_fits T sz msg =
     (if sz > digest_buffer_size T then Inl (err input_error msg) else Inr ())"

definition ensure_policy_digest_size ::
  "bool \<Rightarrow> tss \<Rightarrow> hash_algorithm \<Rightarrow> byte list \<Rightarrow> unit call" where
  "ensure_policy_digest_size legacy T algorithm digest =
     (if \<not> is_supported_algorithm legacy T algorithm
      then fails (err input_error ''unsupported PCR auth policy hash algorithm'')
      else bind_try (or_throw (digest_size legacy algorithm))
        (\<lambda>n. if length digest \<noteq> n
             then fails (err input_error ''PCR auth policy digest has wrong size'')
             else Inr (ensure_sized_buffer_fits T (length digest)
                         ''PCR auth policy digest is too large'')))"

definition ensure_secure_auth_value_transport :: "byte list \<Rightarrow> unit outcome" where
  "ensure_secure_auth_value_transport auth =
     (if auth \<noteq> []
      then Inl (err resource_error
        ''secure PCR auth value transport is unavailable for non-empty authorization values'')
      else Inr ())"

section \<open>What passes the checks\<close>

lemma reject_duplicates_iff:
  "reject_duplicates msg seen as = Inr () \<longleftrightarrow> distinct as \<and> set as \<inter> seen = {}"
  by (induction as arbitrary: seen) auto

lemma reject_duplicates_error:
  "reject_duplicates msg seen as = Inl e \<Longrightarrow> e = err input_error msg"
  by (induction as arbitrary: seen) (auto split: if_splits)

lemma ensure_bank_count_iff:
  "ensure_bank_count T banks = Inr () \<longleftrightarrow>
     banks \<noteq> [] \<and> length banks \<le> num_pcr_banks T \<and> distinct (map bank_algorithm banks)"
  by (auto simp: ensure_bank_count_def reject_duplicates_iff)

lemma ensure_digest_count_iff:
  "ensure_digest_count T digests = Inr () \<longleftrightarrow>
     digests \<noteq> [] \<and> length digests \<le> num_pcr_banks T \<and> distinct (map dv_algorithm digests)"
  by (auto simp: ensure_digest_count_def reject_duplicates_iff)

lemma ensure_bank_count_error: "ensure_bank_count T banks = Inl e \<Longrightarrow> category e = input_error"
  by (auto simp: ensure_bank_count_def split: if_splits dest: reject_duplicates_error)

lemma ensure_digest_count_error: "ensure_digest_count T ds = Inl e \<Longrightarrow> category e = input_error"
  by (auto simp: ensure_digest_count_def split: if_splits dest: reject_duplicates_error)

end
