(* ===== verification/Esys_Pcr_Provider.thy ===== *)
theory Esys_Pcr_Provider
  imports Esys_Api Pcr_Logging Pcr_Validation Pcr_Provider_Port
begin

text \<open>
  \<^verbatim>\<open>src/adapters/tpm2_esys/pcr/esys_pcr_provider.cpp\<close>: the seven operations of the PCR provider
  over the ESYS library. Each is a function from the world to a result and the new world, with
  the early returns of the source in their order; the buffers the library allocated are handed
  back when their owners leave scope, in reverse order of declaration, after everything else.
  The secret of \<^verbatim>\<open>set_auth_value\<close> is passed as the bytes of its view; the lifetime of its storage is
  the matter of the theory Secret_Buffer.
\<close>

record provider =
  provider_esys :: ptr
  provider_has_observer :: bool

type_synonym ('b, 'a) provider_op = "('b, notification, 'a) operation"

definition new_esys_pcr_provider :: "ptr \<Rightarrow> bool \<Rightarrow> provider" where
  "new_esys_pcr_provider esys has_observer =
     \<lparr>provider_esys = esys, provider_has_observer = has_observer\<rparr>"

text \<open>
  The block that follows a failed library call: translate, log, return the translated error.
\<close>

definition report_tss_failure ::
  "tss \<Rightarrow> 'b esys_api \<Rightarrow> u32 \<Rightarrow> string \<Rightarrow> ('b, 'a) provider_op" where
  "report_tss_failure T api rc op w =
     (let (translated, records) = translate_tss_rc T rc op True ev_pcr_tss_error (api_decode_error api);
          w' = write_log records w
      in case translated of Inl e \<Rightarrow> (fails e, w') | Inr _ \<Rightarrow> (Inl bad_dereference, w'))"

definition notify :: "provider \<Rightarrow> notification \<Rightarrow> ('b, notification) world \<Rightarrow> ('b, notification) world" where
  "notify p n w = (if provider_has_observer p then act (Notified n) w else w)"

section \<open>allocate\<close>

definition provider_allocate ::
  "bool \<Rightarrow> tss \<Rightarrow> 'b esys_api \<Rightarrow> provider \<Rightarrow> bank list \<Rightarrow> ('b, allocate_result) provider_op" where
  "provider_allocate legacy T api p banks =
     ensure (ensure_esys_available (provider_esys p))
     (ensure (ensure_bank_count T banks)
     (compute (to_tpm_allocation legacy T banks) (\<lambda>allocation w.
        let (reply, w) = invoke
              (Esys_PCR_Allocate (provider_esys p) (tr_rh_platform T) (tr_password T) (tr_none T)
                 (tr_none T) allocation)
              (api_pcr_allocate api (provider_esys p) (tr_rh_platform T) (tr_password T) (tr_none T)
                 (tr_none T) allocation
                 \<lparr>out_success = yes_no_no T, out_max_pcr = 0, out_size_needed = 0,
                  out_size_available = 0\<rparr>) w;
            rc = fst reply; out = snd reply
        in if rc \<noteq> rc_success T then report_tss_failure T api rc ''pcr_allocate'' w
           else let result = \<lparr>allocation_success = (out_success out \<noteq> yes_no_no T),
                              max_pcr = out_max_pcr out, size_needed = out_size_needed out,
                              size_available = out_size_available out\<rparr>
                in (returns result,
                    write_log (log_allocate_completed (allocation_success result) (length banks)) w))))"

section \<open>event\<close>

text \<open>The part of the body during which the digests are owned.\<close>

definition event_response ::
  "bool \<Rightarrow> tss \<Rightarrow> 'b esys_api \<Rightarrow> provider \<Rightarrow> index \<Rightarrow> byte list \<Rightarrow> u32 \<Rightarrow>
   tpml_digest_values buffer \<Rightarrow> ('b, event_result) provider_op" where
  "event_response legacy T api p i event_data rc raw_digests w =
     (if rc \<noteq> rc_success T then report_tss_failure T api rc ''pcr_event'' w
      else case raw_digests of
        None \<Rightarrow> (fails (err backend_error ''TPM returned no PCR event digests''), w)
      | Some (address, digests) \<Rightarrow>
          attempt (to_domain_digests legacy T digests) (\<lambda>domain_digests w.
            let result = \<lparr>er_digests = domain_digests\<rparr>;
                w = write_log (log_event_completed i (length event_data) (length (er_digests result))) w;
                w = notify p (On_event i event_data result) w
            in (returns result, w)) w)"

definition provider_event ::
  "bool \<Rightarrow> tss \<Rightarrow> 'b esys_api \<Rightarrow> provider \<Rightarrow> index \<Rightarrow> byte list \<Rightarrow> ('b, event_result) provider_op" where
  "provider_event legacy T api p i event_data =
     ensure (ensure_esys_available (provider_esys p))
     (ensure (ensure_event_size T event_data)
     (compute (to_tpm_event T event_data) (\<lambda>tpm_event w.
        let (reply, w) = invoke
              (Esys_PCR_Event (provider_esys p) (pcr_handle T i) (tr_password T) (tr_none T)
                 (tr_none T) tpm_event)
              (api_pcr_event api (provider_esys p) (pcr_handle T i) (tr_password T) (tr_none T)
                 (tr_none T) tpm_event) w;
            rc = fst reply; raw_digests = snd reply;
            (r, w) = event_response legacy T api p i event_data rc raw_digests w
        in (r, release_buffer api raw_digests w))))"

section \<open>extend\<close>

definition provider_extend ::
  "bool \<Rightarrow> tss \<Rightarrow> 'b esys_api \<Rightarrow> provider \<Rightarrow> index \<Rightarrow> digest_value list \<Rightarrow> ('b, unit) provider_op" where
  "provider_extend legacy T api p i digests =
     ensure (ensure_esys_available (provider_esys p))
     (ensure (ensure_digest_count T digests)
     (compute (to_tpm_digest_values legacy T digests) (\<lambda>tpm_digests w.
        let (rc, w) = invoke
              (Esys_PCR_Extend (provider_esys p) (pcr_handle T i) (tr_password T) (tr_none T)
                 (tr_none T) tpm_digests)
              (api_pcr_extend api (provider_esys p) (pcr_handle T i) (tr_password T) (tr_none T)
                 (tr_none T) tpm_digests) w
        in if rc \<noteq> rc_success T then report_tss_failure T api rc ''pcr_extend'' w
           else let w = write_log (log_extend_completed i (length digests)) w;
                    w = notify p (On_extend i digests) w
                in (returns (), w))))"

section \<open>read\<close>

definition read_response ::
  "bool \<Rightarrow> tss \<Rightarrow> 'b esys_api \<Rightarrow> selection \<Rightarrow> u32 \<Rightarrow> read_out \<Rightarrow> ('b, read_result) provider_op" where
  "read_response legacy T api sel rc out w =
     (if rc \<noteq> rc_success T then report_tss_failure T api rc ''pcr_read'' w
      else case (out_selection out, out_values out) of
        (Some (selection_address, tpm_selection), Some (values_address, vs)) \<Rightarrow>
          attempt (to_domain_selection legacy T tpm_selection (sel_algorithm sel))
            (\<lambda>domain_selection. attempt (to_domain_read_values legacy vs domain_selection)
              (\<lambda>domain_values w.
                 let result = \<lparr>actual_selection = domain_selection,
                               update_counter = out_update_counter out,
                               read_values = domain_values\<rparr>
                 in (returns result,
                     write_log (log_read_completed (read_result.actual_selection result)
                                  (length (read_values result))) w))) w
      | _ \<Rightarrow> (fails (err backend_error ''TPM returned incomplete PCR read response''), w))"

definition provider_read ::
  "bool \<Rightarrow> tss \<Rightarrow> 'b esys_api \<Rightarrow> provider \<Rightarrow> selection \<Rightarrow> ('b, read_result) provider_op" where
  "provider_read legacy T api p sel =
     ensure (ensure_esys_available (provider_esys p))
     (compute (to_tpm_selection legacy T sel) (\<lambda>tpm_selection w.
        let (reply, w) = invoke
              (Esys_PCR_Read (provider_esys p) (tr_none T) (tr_none T) (tr_none T) tpm_selection)
              (api_pcr_read api (provider_esys p) (tr_none T) (tr_none T) (tr_none T) tpm_selection
                 \<lparr>out_update_counter = 0, out_selection = None, out_values = None\<rparr>) w;
            rc = fst reply; out = snd reply;
            (r, w) = read_response legacy T api sel rc out w
        in (r, release_buffer api (out_selection out)
                 (release_buffer api (out_values out) w))))"

section \<open>reset\<close>

definition provider_reset :: "tss \<Rightarrow> 'b esys_api \<Rightarrow> provider \<Rightarrow> index \<Rightarrow> ('b, unit) provider_op" where
  "provider_reset T api p i =
     ensure (ensure_esys_available (provider_esys p)) (\<lambda>w.
       let (rc, w) = invoke
             (Esys_PCR_Reset (provider_esys p) (pcr_handle T i) (tr_password T) (tr_none T) (tr_none T))
             (api_pcr_reset api (provider_esys p) (pcr_handle T i) (tr_password T) (tr_none T)
                (tr_none T)) w
       in if rc \<noteq> rc_success T then report_tss_failure T api rc ''pcr_reset'' w
          else (returns (), write_log (log_reset_completed i) w))"

section \<open>set_auth_policy\<close>

definition provider_set_auth_policy ::
  "bool \<Rightarrow> tss \<Rightarrow> 'b esys_api \<Rightarrow> provider \<Rightarrow> index \<Rightarrow> hash_algorithm \<Rightarrow> byte list \<Rightarrow>
   ('b, unit) provider_op" where
  "provider_set_auth_policy legacy T api p i policy_alg policy_digest =
     ensure (ensure_esys_available (provider_esys p))
     (attempt (ensure_policy_digest_size legacy T policy_alg policy_digest) (\<lambda>_.
      compute (to_tpm_sized_digest T policy_digest) (\<lambda>auth_policy w.
        let alg = algorithm_to_tpm legacy T policy_alg;
            pcr_num = hr_pcr T + ucast (index_value i);
            (rc, w) = invoke
              (Esys_PCR_SetAuthPolicy (provider_esys p) (tr_rh_platform T) (tr_password T) (tr_none T)
                 (tr_none T) auth_policy alg pcr_num)
              (api_pcr_set_auth_policy api (provider_esys p) (tr_rh_platform T) (tr_password T)
                 (tr_none T) (tr_none T) auth_policy alg pcr_num) w
        in if rc \<noteq> rc_success T then report_tss_failure T api rc ''pcr_set_auth_policy'' w
           else (returns (), write_log (log_auth_policy_set i policy_alg) w))))"

section \<open>set_auth_value\<close>

text \<open>The three library calls; \<^verbatim>\<open>TPM2B_AUTH current_auth{}\<close> and \<^verbatim>\<open>new_auth{}\<close> are empty.\<close>

definition set_tr_auth ::
  "tss \<Rightarrow> 'b esys_api \<Rightarrow> provider \<Rightarrow> index \<Rightarrow> string \<Rightarrow> ('b, unit) provider_op \<Rightarrow>
   ('b, unit) provider_op" where
  "set_tr_auth T api p i op rest w =
     (let auth = zero_tpm2b (digest_buffer_size T);
          (rc, w) = invoke (Esys_TR_SetAuth (provider_esys p) (pcr_handle T i) auth)
                      (api_tr_set_auth api (provider_esys p) (pcr_handle T i) auth) w
      in if rc \<noteq> rc_success T then report_tss_failure T api rc op w else rest w)"

definition provider_set_auth_value ::
  "tss \<Rightarrow> 'b esys_api \<Rightarrow> provider \<Rightarrow> index \<Rightarrow> byte list \<Rightarrow> ('b, unit) provider_op" where
  "provider_set_auth_value T api p i auth_view =
     ensure (ensure_esys_available (provider_esys p))
     (ensure (ensure_sized_buffer_fits T (length auth_view) ''PCR auth value is too large'')
     (ensure (ensure_secure_auth_value_transport auth_view)
     (set_tr_auth T api p i ''pcr_set_auth_value_set_current_auth''
     (compute (to_tpm_sized_digest T auth_view) (\<lambda>tpm_auth w.
        let (rc, w) = invoke
              (Esys_PCR_SetAuthValue (provider_esys p) (pcr_handle T i) (tr_password T) (tr_none T)
                 (tr_none T) tpm_auth)
              (api_pcr_set_auth_value api (provider_esys p) (pcr_handle T i) (tr_password T)
                 (tr_none T) (tr_none T) tpm_auth) w
        in if rc \<noteq> rc_success T then report_tss_failure T api rc ''pcr_set_auth_value'' w
           else set_tr_auth T api p i ''pcr_set_auth_value_update_current_auth'' (\<lambda>w.
                  (returns (), write_log (log_auth_value_set i) w)) w)))))"

lemma good_answer_safe: "good_answer P r \<Longrightarrow> safe_call P r"
  by (auto simp: good_answer_cases)

text \<open>The structures the library hands over have the sizes their C types give them.\<close>

definition api_sized :: "tss \<Rightarrow> 'b esys_api \<Rightarrow> bool" where
  "api_sized T api \<longleftrightarrow>
     (\<forall>e h s1 s2 s3 evt b a d.
        snd (fst (api_pcr_event api e h s1 s2 s3 evt b)) = Some (a, d) \<longrightarrow> wf_tpml_digest_values T d) \<and>
     (\<forall>e s1 s2 s3 sel out b a s.
        out_selection (snd (fst (api_pcr_read api e s1 s2 s3 sel out b))) = Some (a, s) \<longrightarrow>
        out_selection out = None \<longrightarrow> wf_tpml_pcr_selection T s) \<and>
     (\<forall>e s1 s2 s3 sel out b a v.
        out_values (snd (fst (api_pcr_read api e s1 s2 s3 sel out b))) = Some (a, v) \<longrightarrow>
        out_values out = None \<longrightarrow> wf_tpml_digest T v)"

lemma api_sized_event:
  "api_sized T api \<Longrightarrow> api_pcr_event api e h s1 s2 s3 evt b = ((rc, Some (a, d)), b') \<Longrightarrow>
   wf_tpml_digest_values T d"
  unfolding api_sized_def by (metis fst_conv snd_conv)

lemma api_sized_read:
  assumes "api_sized T api"
    and "api_pcr_read api e s1 s2 s3 sel
           \<lparr>out_update_counter = 0, out_selection = None, out_values = None\<rparr> b = ((rc, out), b')"
  shows "out_selection out = Some (a, s) \<Longrightarrow> wf_tpml_pcr_selection T s"
    and "out_values out = Some (a', v) \<Longrightarrow> wf_tpml_digest T v"
  using assms unfolding api_sized_def by (metis fst_conv snd_conv read_out.simps(1-3))+

section \<open>The report of a failed library call\<close>

definition tss_failure :: "tss \<Rightarrow> u32 \<Rightarrow> error" where
  "tss_failure T rc = err (mapped_category (rc_error T rc)) (mapped_message (rc_error T rc))"

definition failure_records :: "tss \<Rightarrow> 'b esys_api \<Rightarrow> u32 \<Rightarrow> string \<Rightarrow> log_call list" where
  "failure_records T api rc op =
     log_tss_error T True rc (rc_layer T rc) (category (tss_failure T rc)) op ev_pcr_tss_error
       (api_decode_error api)"

lemma report_tss_failure_eq [port_simps]:
  "rc \<noteq> rc_success T \<Longrightarrow>
   report_tss_failure T api rc op w = (fails (tss_failure T rc), write_log (failure_records T api rc op) w)"
  by (simp add: report_tss_failure_def translate_tss_rc_eq tss_failure_def failure_records_def Let_def)

lemma tss_failure_listed [simp]: "listed_category (category (tss_failure T rc))"
  by (simp add: tss_failure_def rc_error_listed)

lemma failure_records_one: "\<exists>c. failure_records T api rc op = [c]"
  by (simp add: failure_records_def log_tss_error_def emit_failure_record_eq)

section \<open>Arguments the provider lets through\<close>

text \<open>
  The preconditions of \<^verbatim>\<open>pcr/provider.h\<close> that the provider checks itself, per operation.
\<close>

definition accepts_banks :: "tss \<Rightarrow> bank list \<Rightarrow> bool" where
  "accepts_banks T banks \<longleftrightarrow>
     banks \<noteq> [] \<and> length banks \<le> num_pcr_banks T \<and> distinct (map bank_algorithm banks)"

definition accepts_digests :: "tss \<Rightarrow> digest_value list \<Rightarrow> bool" where
  "accepts_digests T ds \<longleftrightarrow>
     ds \<noteq> [] \<and> length ds \<le> num_pcr_banks T \<and> distinct (map dv_algorithm ds)"

definition accepts_event :: "tss \<Rightarrow> byte list \<Rightarrow> bool" where
  "accepts_event T event_data \<longleftrightarrow> length event_data \<le> event_buffer_size T"

definition accepts_policy :: "bool \<Rightarrow> hash_algorithm \<Rightarrow> byte list \<Rightarrow> bool" where
  "accepts_policy legacy a digest \<longleftrightarrow> digest_size legacy a = Inr (length digest)"

lemma ensure_esys_available_eq:
  "ensure_esys_available p = (case p of
     None \<Rightarrow> Inl (err resource_error ''ESYS PCR provider has no TPM context'') | Some _ \<Rightarrow> Inr ())"
  by (cases p) (simp_all add: ensure_esys_available_def)

lemma outcome_unit_cases: obtains (ok) "r = Inr ()" | (bad) e where "r = Inl (e :: error)"
  by (cases r) auto

lemma ensure_policy_digest_size_cases:
  assumes "alg_ids_documented T" and "sizes_documented T"
  shows "ensure_policy_digest_size legacy T a digest =
    (if accepts_policy legacy a digest then returns ()
     else if supported_hash legacy a
     then fails (err input_error ''PCR auth policy digest has wrong size'')
     else fails (err input_error ''unsupported PCR auth policy hash algorithm''))"
proof (cases "supported_hash legacy a")
  case True
  then obtain n where n: "digest_size legacy a = Inr n" using digest_size_total_iff by metis
  then have "n \<le> 64" using digest_size_bound by blast
  with True n assms show ?thesis
    by (auto simp: ensure_policy_digest_size_def is_supported_algorithm_iff accepts_policy_def
        ensure_sized_buffer_fits_def sizes_documented_def)
next
  case False
  then have "digest_size legacy a \<noteq> Inr (length digest)" using digest_size_total_iff by blast
  with False assms show ?thesis
    by (simp add: ensure_policy_digest_size_def is_supported_algorithm_iff accepts_policy_def)
qed

section \<open>The operations on accepted and on rejected arguments\<close>

definition freed :: "'a buffer \<Rightarrow> 'e action list" where
  "freed buf = (case buf of None \<Rightarrow> [] | Some (p, x) \<Rightarrow> [Freed p])"

definition api_free_buffer :: "'b esys_api \<Rightarrow> 'a buffer \<Rightarrow> 'b \<Rightarrow> 'b" where
  "api_free_buffer api buf b = (case buf of None \<Rightarrow> b | Some (p, x) \<Rightarrow> api_free api (Some p) b)"

lemma release_buffer_eq:
  "release_buffer api buf w =
     w\<lparr>backend := api_free_buffer api buf (backend w), actions := actions w @ freed buf\<rparr>"
  by (cases buf) (auto simp: freed_def api_free_buffer_def)

lemma invoke_eq [port_simps]:
  "f (backend w) = (x, b) \<Longrightarrow> invoke c f w = (x, w\<lparr>backend := b, actions := actions w @ [Called c]\<rparr>)"
  by (simp add: invoke_def)

definition observed :: "provider \<Rightarrow> notification \<Rightarrow> notification action list" where
  "observed p n = (if provider_has_observer p then [Notified n] else [])"

lemma notify_eq: "notify p n w = w\<lparr>actions := actions w @ observed p n\<rparr>"
  by (simp add: notify_def observed_def act_def)

lemma write_log_eq: "write_log cs w = w\<lparr>actions := actions w @ map Logged cs\<rparr>"
  by (simp add: write_log_def)

lemmas world_eqs = release_buffer_eq invoke_eq notify_eq write_log_eq report_tss_failure_eq
  compute_simps ensure_simps attempt_simps

text \<open>Without a TPM context nothing happens.\<close>

lemma no_context:
  assumes "provider_esys p = None"
  shows "provider_allocate legacy T api p banks w =
          (fails (err resource_error ''ESYS PCR provider has no TPM context''), w)"
    and "provider_event legacy T api p i event_data w =
          (fails (err resource_error ''ESYS PCR provider has no TPM context''), w)"
    and "provider_extend legacy T api p i digests w =
          (fails (err resource_error ''ESYS PCR provider has no TPM context''), w)"
    and "provider_read legacy T api p sel w =
          (fails (err resource_error ''ESYS PCR provider has no TPM context''), w)"
    and "provider_reset T api p i w =
          (fails (err resource_error ''ESYS PCR provider has no TPM context''), w)"
    and "provider_set_auth_policy legacy T api p i a policy w =
          (fails (err resource_error ''ESYS PCR provider has no TPM context''), w)"
    and "provider_set_auth_value T api p i auth w =
          (fails (err resource_error ''ESYS PCR provider has no TPM context''), w)"
  using assms
  by (simp_all add: provider_allocate_def provider_event_def provider_extend_def provider_read_def
      provider_reset_def provider_set_auth_policy_def provider_set_auth_value_def
      ensure_esys_available_def)

lemma available: "provider_esys p = Some e \<Longrightarrow> ensure_esys_available (provider_esys p) = Inr ()"
  by (simp add: ensure_esys_available_def)

text \<open>The argument structures of the commands.\<close>

definition allocation_structure :: "bool \<Rightarrow> tss \<Rightarrow> bank list \<Rightarrow> tpml_pcr_selection" where
  "allocation_structure legacy T banks =
     \<lparr>psel_count = of_nat (length banks),
      pcr_selections = map (allocation_of legacy T) banks @
        replicate (num_pcr_banks T - length banks) (zero_pcr_selection T)\<rparr>"

definition digests_structure :: "bool \<Rightarrow> tss \<Rightarrow> digest_value list \<Rightarrow> tpml_digest_values" where
  "digests_structure legacy T ds =
     \<lparr>dvs_count = of_nat (length ds),
      dvs_digests = map (ha_of legacy T) ds @ replicate (num_pcr_banks T - length ds) (zero_tpmt_ha T)\<rparr>"

definition sized_structure :: "nat \<Rightarrow> byte list \<Rightarrow> tpm2b" where
  "sized_structure n bs =
     \<lparr>tpm2b_size = of_nat (length bs), tpm2b_buffer = bs @ replicate (n - length bs) 0\<rparr>"

definition allocate_command :: "bool \<Rightarrow> tss \<Rightarrow> provider \<Rightarrow> bank list \<Rightarrow> esys_command" where
  "allocate_command legacy T p banks =
     Esys_PCR_Allocate (provider_esys p) (tr_rh_platform T) (tr_password T) (tr_none T) (tr_none T)
       (allocation_structure legacy T banks)"

definition event_command :: "tss \<Rightarrow> provider \<Rightarrow> index \<Rightarrow> byte list \<Rightarrow> esys_command" where
  "event_command T p i event_data =
     Esys_PCR_Event (provider_esys p) (pcr_handle T i) (tr_password T) (tr_none T) (tr_none T)
       (sized_structure (event_buffer_size T) event_data)"

definition extend_command :: "bool \<Rightarrow> tss \<Rightarrow> provider \<Rightarrow> index \<Rightarrow> digest_value list \<Rightarrow> esys_command" where
  "extend_command legacy T p i ds =
     Esys_PCR_Extend (provider_esys p) (pcr_handle T i) (tr_password T) (tr_none T) (tr_none T)
       (digests_structure legacy T ds)"

definition reset_command :: "tss \<Rightarrow> provider \<Rightarrow> index \<Rightarrow> esys_command" where
  "reset_command T p i =
     Esys_PCR_Reset (provider_esys p) (pcr_handle T i) (tr_password T) (tr_none T) (tr_none T)"

definition policy_command ::
  "bool \<Rightarrow> tss \<Rightarrow> provider \<Rightarrow> index \<Rightarrow> hash_algorithm \<Rightarrow> byte list \<Rightarrow> esys_command" where
  "policy_command legacy T p i a policy =
     Esys_PCR_SetAuthPolicy (provider_esys p) (tr_rh_platform T) (tr_password T) (tr_none T)
       (tr_none T) (sized_structure (digest_buffer_size T) policy) (algorithm_to_tpm legacy T a)
       (hr_pcr T + ucast (index_value i))"

text \<open>
  What an accepted call does: the command, then the records and notifications of its answer, and
  the answer's buffers handed back.
\<close>

lemma provider_allocate_accepted:
  assumes T: "sizes_documented T" and p: "provider_esys p = Some e" and ok: "accepts_banks T banks"
    and reply: "api_pcr_allocate api (provider_esys p) (tr_rh_platform T) (tr_password T) (tr_none T)
      (tr_none T) (allocation_structure legacy T banks)
      \<lparr>out_success = yes_no_no T, out_max_pcr = 0, out_size_needed = 0, out_size_available = 0\<rparr>
      (backend w) = ((rc, out), b)"
  shows "provider_allocate legacy T api p banks w =
    (if rc \<noteq> rc_success T
     then (fails (tss_failure T rc),
           w\<lparr>backend := b, actions := actions w @ Called (allocate_command legacy T p banks) #
             map Logged (failure_records T api rc ''pcr_allocate'')\<rparr>)
     else (returns \<lparr>allocation_success = (out_success out \<noteq> yes_no_no T), max_pcr = out_max_pcr out,
                    size_needed = out_size_needed out, size_available = out_size_available out\<rparr>,
           w\<lparr>backend := b, actions := actions w @ Called (allocate_command legacy T p banks) #
             map Logged (log_allocate_completed (out_success out \<noteq> yes_no_no T) (length banks))\<rparr>))"
proof -
  have "ensure_bank_count T banks = Inr ()"
    using ok by (simp add: ensure_bank_count_iff accepts_banks_def)
  moreover have "to_tpm_allocation legacy T banks = Inr (allocation_structure legacy T banks)"
    using to_tpm_allocation_eq [OF T] ok by (simp add: accepts_banks_def allocation_structure_def)
  ultimately show ?thesis
    using reply by (simp add: provider_allocate_def available [OF p] world_eqs allocate_command_def Let_def)
qed

lemma provider_event_accepted:
  assumes p: "provider_esys p = Some e" and ok: "accepts_event T event_data"
    and reply: "api_pcr_event api (provider_esys p) (pcr_handle T i) (tr_password T) (tr_none T)
      (tr_none T) (sized_structure (event_buffer_size T) event_data) (backend w) = ((rc, raw), b)"
  shows "provider_event legacy T api p i event_data w =
    (let (r, new) =
        (if rc \<noteq> rc_success T
         then (fails (tss_failure T rc), map Logged (failure_records T api rc ''pcr_event''))
         else case raw of
           None \<Rightarrow> (fails (err backend_error ''TPM returned no PCR event digests''), [])
         | Some (a, digests) \<Rightarrow>
             (case to_domain_digests legacy T digests of
                Inl f \<Rightarrow> (Inl f, [])
              | Inr (Inl x) \<Rightarrow> (fails x, [])
              | Inr (Inr ds) \<Rightarrow>
                  (returns \<lparr>er_digests = ds\<rparr>,
                   map Logged (log_event_completed i (length event_data) (length ds)) @
                   observed p (On_event i event_data \<lparr>er_digests = ds\<rparr>))))
     in (r, w\<lparr>backend := api_free_buffer api raw b,
             actions := actions w @ Called (event_command T p i event_data) # new @ freed raw\<rparr>))"
proof -
  have size: "ensure_event_size T event_data = Inr ()"
    using ok by (simp add: ensure_event_size_def accepts_event_def)
  have event: "to_tpm_event T event_data = Inr (sized_structure (event_buffer_size T) event_data)"
    using ok by (simp add: to_tpm_event_def fill_tpm2b_eq accepts_event_def sized_structure_def)
  show ?thesis
  proof (cases raw)
    case None
    with reply show ?thesis
      by (simp add: provider_event_def available [OF p] size event world_eqs event_command_def
          event_response_def Let_def)
  next
    case (Some x)
    then obtain a digests where x: "raw = Some (a, digests)" by (cases x) auto
    with reply show ?thesis
      by (cases "to_domain_digests legacy T digests" rule: try_cases)
         (simp_all add: provider_event_def available [OF p] size event world_eqs event_command_def
          event_response_def Let_def)
  qed
qed

lemma provider_extend_accepted:
  assumes T: "sizes_documented T" and p: "provider_esys p = Some e" and ok: "accepts_digests T ds"
    and ds: "list_all (wf_digest_value legacy) ds"
    and reply: "api_pcr_extend api (provider_esys p) (pcr_handle T i) (tr_password T) (tr_none T)
      (tr_none T) (digests_structure legacy T ds) (backend w) = (rc, b)"
  shows "provider_extend legacy T api p i ds w =
    (if rc \<noteq> rc_success T
     then (fails (tss_failure T rc),
           w\<lparr>backend := b, actions := actions w @ Called (extend_command legacy T p i ds) #
             map Logged (failure_records T api rc ''pcr_extend'')\<rparr>)
     else (returns (),
           w\<lparr>backend := b, actions := actions w @ Called (extend_command legacy T p i ds) #
             map Logged (log_extend_completed i (length ds)) @ observed p (On_extend i ds)\<rparr>))"
proof -
  have "ensure_digest_count T ds = Inr ()"
    using ok by (simp add: ensure_digest_count_iff accepts_digests_def)
  moreover have "to_tpm_digest_values legacy T ds = Inr (digests_structure legacy T ds)"
    using to_tpm_digest_values_eq [OF T ds] ok by (simp add: accepts_digests_def digests_structure_def)
  ultimately show ?thesis
    using reply by (simp add: provider_extend_def available [OF p] world_eqs extend_command_def Let_def)
qed

lemma provider_reset_accepted:
  assumes p: "provider_esys p = Some e"
    and reply: "api_pcr_reset api (provider_esys p) (pcr_handle T i) (tr_password T) (tr_none T)
      (tr_none T) (backend w) = (rc, b)"
  shows "provider_reset T api p i w =
    (if rc \<noteq> rc_success T
     then (fails (tss_failure T rc),
           w\<lparr>backend := b, actions := actions w @ Called (reset_command T p i) #
             map Logged (failure_records T api rc ''pcr_reset'')\<rparr>)
     else (returns (),
           w\<lparr>backend := b, actions := actions w @ Called (reset_command T p i) #
             map Logged (log_reset_completed i)\<rparr>))"
  using reply by (simp add: provider_reset_def available [OF p] world_eqs reset_command_def Let_def)

lemma provider_set_auth_policy_accepted:
  assumes T: "sizes_documented T" "alg_ids_documented T" and p: "provider_esys p = Some e"
    and ok: "accepts_policy legacy a policy"
    and reply: "api_pcr_set_auth_policy api (provider_esys p) (tr_rh_platform T) (tr_password T)
      (tr_none T) (tr_none T) (sized_structure (digest_buffer_size T) policy)
      (algorithm_to_tpm legacy T a) (hr_pcr T + ucast (index_value i)) (backend w) = (rc, b)"
  shows "provider_set_auth_policy legacy T api p i a policy w =
    (if rc \<noteq> rc_success T
     then (fails (tss_failure T rc),
           w\<lparr>backend := b, actions := actions w @ Called (policy_command legacy T p i a policy) #
             map Logged (failure_records T api rc ''pcr_set_auth_policy'')\<rparr>)
     else (returns (),
           w\<lparr>backend := b, actions := actions w @ Called (policy_command legacy T p i a policy) #
             map Logged (log_auth_policy_set i a)\<rparr>))"
proof -
  have "length policy \<le> digest_buffer_size T"
    using ok digest_size_bound [of legacy a "length policy"] T
    by (simp add: accepts_policy_def sizes_documented_def)
  then have "to_tpm_sized_digest T policy = Inr (sized_structure (digest_buffer_size T) policy)"
    by (simp add: to_tpm_sized_digest_def fill_tpm2b_eq sized_structure_def)
  with ok reply show ?thesis
    by (simp add: provider_set_auth_policy_def available [OF p] ensure_policy_digest_size_cases [OF T(2,1)]
        world_eqs policy_command_def Let_def)
qed

lemma to_tpm_selection_ok:
  "sizes_documented T \<Longrightarrow> wf_selection legacy sel \<Longrightarrow> \<exists>s. to_tpm_selection legacy T sel = Inr s"
  using to_tpm_selection_spec by blast

lemma provider_read_accepted:
  assumes p: "provider_esys p = Some e" and sel: "to_tpm_selection legacy T sel = Inr s"
    and reply: "api_pcr_read api (provider_esys p) (tr_none T) (tr_none T) (tr_none T) s
      \<lparr>out_update_counter = 0, out_selection = None, out_values = None\<rparr> (backend w) = ((rc, out), b)"
  shows "provider_read legacy T api p sel w =
    (let (r, new) =
        (if rc \<noteq> rc_success T
         then (fails (tss_failure T rc), map Logged (failure_records T api rc ''pcr_read''))
         else case (out_selection out, out_values out) of
           (Some (sa, ts), Some (va, vs)) \<Rightarrow>
             (case bind_try (to_domain_selection legacy T ts (sel_algorithm sel))
                     (\<lambda>ds. bind_try (to_domain_read_values legacy vs ds)
                       (\<lambda>dv. returns \<lparr>actual_selection = ds, update_counter = out_update_counter out,
                                      read_values = dv\<rparr>)) of
                Inl f \<Rightarrow> (Inl f, [])
              | Inr (Inl x) \<Rightarrow> (fails x, [])
              | Inr (Inr r) \<Rightarrow>
                  (returns r, map Logged (log_read_completed (actual_selection r) (length (read_values r)))))
         | _ \<Rightarrow> (fails (err backend_error ''TPM returned incomplete PCR read response''), []))
     in (r, w\<lparr>backend := api_free_buffer api (out_selection out) (api_free_buffer api (out_values out) b),
             actions := actions w @
               Called (Esys_PCR_Read (provider_esys p) (tr_none T) (tr_none T) (tr_none T) s) #
               new @ freed (out_values out) @ freed (out_selection out)\<rparr>))"
proof (cases "rc = rc_success T \<and> out_selection out \<noteq> None \<and> out_values out \<noteq> None")
  case True
  then obtain sa ts va vs where out: "out_selection out = Some (sa, ts)" "out_values out = Some (va, vs)"
    by auto
  show ?thesis
  proof (cases "to_domain_selection legacy T ts (sel_algorithm sel)" rule: try_cases)
    case (returned ds)
    then show ?thesis
      using True out reply sel
      by (cases "to_domain_read_values legacy vs ds" rule: try_cases)
         (simp_all add: provider_read_def available [OF p] world_eqs read_response_def Let_def)
  qed (use True out reply sel in
        \<open>simp_all add: provider_read_def available [OF p] world_eqs read_response_def Let_def\<close>)
next
  case False
  then show ?thesis
    using reply sel
    by (auto simp: provider_read_def available [OF p] world_eqs read_response_def Let_def
        split: option.splits)
qed

lemma action_kinds_freed [simp]:
  "notifications (freed buf) = []" "commands (freed buf) = []" "records (freed buf) = []"
  "handed_back (freed buf) = (case buf of None \<Rightarrow> [] | Some (a, x) \<Rightarrow> [a])"
  by (auto simp: freed_def split: option.splits)

lemma action_kinds_observed [simp]:
  "notifications (observed p n) = (if provider_has_observer p then [n] else [])"
  "commands (observed p n) = []" "records (observed p n) = []" "handed_back (observed p n) = []"
  by (simp_all add: observed_def)

lemma available_Some [simp]: "ensure_esys_available (Some e) = Inr ()"
  by (simp add: ensure_esys_available_def)

definition empty_auth :: "tss \<Rightarrow> tpm2b" where
  "empty_auth T = sized_structure (digest_buffer_size T) []"

definition set_auth_command :: "tss \<Rightarrow> provider \<Rightarrow> index \<Rightarrow> esys_command" where
  "set_auth_command T p i =
     Esys_PCR_SetAuthValue (provider_esys p) (pcr_handle T i) (tr_password T) (tr_none T) (tr_none T)
       (empty_auth T)"

definition tr_auth_command :: "tss \<Rightarrow> provider \<Rightarrow> index \<Rightarrow> esys_command" where
  "tr_auth_command T p i = Esys_TR_SetAuth (provider_esys p) (pcr_handle T i) (empty_auth T)"

lemma zero_auth: "zero_tpm2b (digest_buffer_size T) = empty_auth T"
  by (simp add: zero_tpm2b_def empty_auth_def sized_structure_def)

lemma sized_empty: "to_tpm_sized_digest T [] = Inr (empty_auth T)"
  by (simp add: to_tpm_sized_digest_def fill_tpm2b_eq empty_auth_def sized_structure_def)

lemma provider_set_auth_value_accepted:
  assumes p: "provider_esys p = Some e"
    and first: "api_tr_set_auth api (provider_esys p) (pcr_handle T i) (empty_auth T) (backend w) = (rc1, b1)"
    and second: "api_pcr_set_auth_value api (provider_esys p) (pcr_handle T i) (tr_password T)
      (tr_none T) (tr_none T) (empty_auth T) b1 = (rc2, b2)"
    and third: "api_tr_set_auth api (provider_esys p) (pcr_handle T i) (empty_auth T) b2 = (rc3, b3)"
  shows "provider_set_auth_value T api p i [] w =
    (if rc1 \<noteq> rc_success T
     then (fails (tss_failure T rc1),
           w\<lparr>backend := b1, actions := actions w @ Called (tr_auth_command T p i) #
             map Logged (failure_records T api rc1 ''pcr_set_auth_value_set_current_auth'')\<rparr>)
     else if rc2 \<noteq> rc_success T
     then (fails (tss_failure T rc2),
           w\<lparr>backend := b2, actions := actions w @ Called (tr_auth_command T p i) #
             Called (set_auth_command T p i) # map Logged (failure_records T api rc2 ''pcr_set_auth_value'')\<rparr>)
     else if rc3 \<noteq> rc_success T
     then (fails (tss_failure T rc3),
           w\<lparr>backend := b3, actions := actions w @ Called (tr_auth_command T p i) #
             Called (set_auth_command T p i) # Called (tr_auth_command T p i) #
             map Logged (failure_records T api rc3 ''pcr_set_auth_value_update_current_auth'')\<rparr>)
     else (returns (),
           w\<lparr>backend := b3, actions := actions w @ Called (tr_auth_command T p i) #
             Called (set_auth_command T p i) # Called (tr_auth_command T p i) #
             map Logged (log_auth_value_set i)\<rparr>))"
  using first second third
  by (simp add: provider_set_auth_value_def available [OF p] world_eqs set_tr_auth_def zero_auth
      sized_empty ensure_sized_buffer_fits_def ensure_secure_auth_value_transport_def
      set_auth_command_def tr_auth_command_def Let_def)

lemma provider_set_auth_value_rejected:
  assumes "provider_esys p = Some e" and "auth \<noteq> []"
  shows "provider_set_auth_value T api p i auth w =
    (fails (if length auth > digest_buffer_size T
            then err input_error ''PCR auth value is too large''
            else err resource_error
              ''secure PCR auth value transport is unavailable for non-empty authorization values''), w)"
  using assms by (simp add: provider_set_auth_value_def ensure_sized_buffer_fits_def
      ensure_secure_auth_value_transport_def)

lemma provider_allocate_rejected:
  assumes "provider_esys p = Some e" and "\<not> accepts_banks T banks"
  shows "\<exists>m. provider_allocate legacy T api p banks w = (fails (err input_error m), w)"
proof -
  from assms(2) obtain x where x: "ensure_bank_count T banks = Inl x"
    by (cases "ensure_bank_count T banks" rule: outcome_unit_cases)
       (auto simp: ensure_bank_count_iff accepts_banks_def)
  from ensure_bank_count_error [OF x] have "x = err input_error (message x)" by (cases x) simp
  with x assms(1) show ?thesis
    by (intro exI [of _ "message x"]) (simp add: provider_allocate_def)
qed

lemma provider_extend_rejected:
  assumes "provider_esys p = Some e" and "\<not> accepts_digests T ds"
  shows "\<exists>m. provider_extend legacy T api p i ds w = (fails (err input_error m), w)"
proof -
  from assms(2) obtain x where x: "ensure_digest_count T ds = Inl x"
    by (cases "ensure_digest_count T ds" rule: outcome_unit_cases)
       (auto simp: ensure_digest_count_iff accepts_digests_def)
  from ensure_digest_count_error [OF x] have "x = err input_error (message x)" by (cases x) simp
  with x assms(1) show ?thesis
    by (intro exI [of _ "message x"]) (simp add: provider_extend_def)
qed

lemma provider_event_rejected:
  assumes "provider_esys p = Some e" and "\<not> accepts_event T event_data"
  shows "provider_event legacy T api p i event_data w =
    (fails (err input_error ''PCR event data is too large''), w)"
  using assms by (simp add: provider_event_def ensure_event_size_def accepts_event_def)

lemma provider_set_auth_policy_rejected:
  assumes "provider_esys p = Some e" and "sizes_documented T" and "alg_ids_documented T"
    and "\<not> accepts_policy legacy a policy"
  shows "\<exists>m. provider_set_auth_policy legacy T api p i a policy w = (fails (err input_error m), w)"
  using assms by (auto simp: provider_set_auth_policy_def ensure_policy_digest_size_cases)

section \<open>The operations as requests\<close>

definition reply_with :: "('a \<Rightarrow> reply) \<Rightarrow> 'a call \<times> 'w \<Rightarrow> reply call \<times> 'w" where
  "reply_with f x = (bind_try (fst x) (\<lambda>a. returns (f a)), snd x)"

lemma reply_with_simps [simp]:
  "reply_with f (returns a, w) = (returns (f a), w)"
  "reply_with f (fails e, w) = (fails e, w)"
  "reply_with f (Inl x, w) = (Inl x, w)"
  by (simp_all add: reply_with_def)

fun provider_step ::
  "bool \<Rightarrow> tss \<Rightarrow> 'b esys_api \<Rightarrow> provider \<Rightarrow> ('b, notification) world \<Rightarrow> request \<Rightarrow>
   reply call \<times> ('b, notification) world" where
  "provider_step legacy T api p w (Allocate banks) =
     reply_with Allocated (provider_allocate legacy T api p banks w)"
| "provider_step legacy T api p w (Event i event_data) =
     reply_with Measured (provider_event legacy T api p i event_data w)"
| "provider_step legacy T api p w (Extend i ds) =
     reply_with (\<lambda>_. Completed) (provider_extend legacy T api p i ds w)"
| "provider_step legacy T api p w (Read sel) =
     reply_with Was_read (provider_read legacy T api p sel w)"
| "provider_step legacy T api p w (Reset i) =
     reply_with (\<lambda>_. Completed) (provider_reset T api p i w)"
| "provider_step legacy T api p w (Set_auth_policy i a policy) =
     reply_with (\<lambda>_. Completed) (provider_set_auth_policy legacy T api p i a policy w)"
| "provider_step legacy T api p w (Set_auth_value i auth) =
     reply_with (\<lambda>_. Completed) (provider_set_auth_value T api p i auth w)"

section \<open>One step\<close>

text \<open>The success event of each request.\<close>

fun completion_event :: "request \<Rightarrow> event_descriptor" where
  "completion_event (Allocate banks) = ev_pcr_allocate_completed"
| "completion_event (Event i event_data) = ev_pcr_event_completed"
| "completion_event (Extend i ds) = ev_pcr_extend_completed"
| "completion_event (Read sel) = ev_pcr_read_completed"
| "completion_event (Reset i) = ev_pcr_reset_completed"
| "completion_event (Set_auth_policy i a policy) = ev_pcr_auth_policy_set"
| "completion_event (Set_auth_value i auth) = ev_pcr_auth_value_set"

definition failure_record :: "log_call \<Rightarrow> bool" where
  "failure_record c \<longleftrightarrow>
     call_level c = error_level \<and> field_lookup ''event'' c = Some (event_name ev_pcr_tss_error) \<and>
     field_lookup ''outcome'' c = Some ''failure'' \<and> in_vocabulary c"

definition reported :: "request \<Rightarrow> reply call \<Rightarrow> log_call list \<Rightarrow> bool" where
  "reported q r cs \<longleftrightarrow>
     (case r of
        Inr (Inr x) \<Rightarrow> \<exists>c. cs = [c] \<and> success_record (completion_event q) c
      | _ \<Rightarrow> cs = [] \<or> (\<exists>c. cs = [c] \<and> failure_record c))"

lemma reported_simps [simp]:
  "reported q (returns x) cs \<longleftrightarrow> (\<exists>c. cs = [c] \<and> success_record (completion_event q) c)"
  "reported q (fails e) cs \<longleftrightarrow> cs = [] \<or> (\<exists>c. cs = [c] \<and> failure_record c)"
  by (simp_all add: reported_def)

lemma failure_records_reported [simp]: "reported q (fails e) (failure_records T api rc op)"
  using log_tss_error_in_vocabulary
      [of T True rc "rc_layer T rc" "category (tss_failure T rc)" op ev_pcr_tss_error "api_decode_error api"]
  by (simp add: failure_records_def log_tss_error_def emit_failure_record_eq failure_record_def
      field_lookup_def)

lemma success_reported:
  "length cs = 1 \<Longrightarrow> list_all (success_record (completion_event q)) cs \<Longrightarrow> reported q (returns x) cs"
  by (auto simp: length_Suc_conv)

definition step_contract ::
  "bool \<Rightarrow> provider \<Rightarrow> request \<Rightarrow> reply call \<Rightarrow> notification action list \<Rightarrow> bool" where
  "step_contract legacy p q r new \<longleftrightarrow>
     safe_call (answers legacy q) r \<and>
     notifications new = (if provider_has_observer p then measurement q r else []) \<and>
     reported q r (records new) \<and> (commands new = [] \<longrightarrow> new = [])"

lemma contract_rejected: "listed_category (category e) \<Longrightarrow> step_contract legacy p q (fails e) []"
  by (cases q) (simp_all add: step_contract_def)

definition step_ok where
  "step_ok legacy p q w x \<longleftrightarrow>
     (\<exists>new. actions (snd x) = actions w @ new \<and> step_contract legacy p q (fst x) new)"

lemma step_ok_rejected: "listed_category (category e) \<Longrightarrow> step_ok legacy p q w (fails e, w)"
  unfolding step_ok_def by (intro exI [of _ "[]"]) (simp add: contract_rejected)

lemma step_okI:
  "actions (snd x) = actions w @ new \<Longrightarrow> step_contract legacy p q (fst x) new \<Longrightarrow> step_ok legacy p q w x"
  unfolding step_ok_def by blast

lemma contract_returned:
  assumes "length cs = 1" and "list_all (success_record (completion_event q)) cs"
    and "answers legacy q x" and "records as = []" and "notifications as = []" and "commands as \<noteq> []"
    and "notifications bs = (if provider_has_observer p then measurement q (returns x) else [])"
    and "records bs = []"
  shows "step_contract legacy p q (returns x) (as @ map Logged cs @ bs)"
  using assms success_reported [OF assms(1,2)] by (simp add: step_contract_def)

lemma contract_failed:
  assumes "listed_category (category e)" and "records as = []" and "notifications as = []"
    and "commands as \<noteq> []" and "records bs = []" and "notifications bs = []"
  shows "step_contract legacy p q (fails e) (as @ map Logged (failure_records T api rc op) @ bs)"
    and "step_contract legacy p q (fails e) (as @ bs)"
  using assms failure_records_reported [of q e] by (simp_all add: step_contract_def)

text \<open>The operations that make one library call and own no buffer share their last step.\<close>

lemma step_ok_one_call:
  assumes "x = (if rc \<noteq> rc_success T
      then (fails (tss_failure T rc),
            w\<lparr>backend := b, actions := actions w @ Called c # map Logged (failure_records T api rc op)\<rparr>)
      else (returns y, w\<lparr>backend := b, actions := actions w @ Called c # map Logged cs @ bs\<rparr>))"
    and "length cs = 1" and "list_all (success_record (completion_event q)) cs"
    and "answers legacy q y" and "records bs = []"
    and "notifications bs = (if provider_has_observer p then measurement q (returns y) else [])"
  shows "step_ok legacy p q w x"
proof (cases "rc = rc_success T")
  case True
  have "step_contract legacy p q (returns y) ([Called c] @ map Logged cs @ bs)"
    using assms by (intro contract_returned) simp_all
  with True assms(1) show ?thesis by (intro step_okI) simp_all
next
  case False
  have "step_contract legacy p q (fails (tss_failure T rc))
          ([Called c] @ map Logged (failure_records T api rc op) @ [])"
    by (rule contract_failed) simp_all
  with False assms(1) show ?thesis by (intro step_okI) simp_all
qed

lemma allocate_step:
  assumes T: "sizes_documented T"
  shows "step_ok legacy p (Allocate banks) w (provider_step legacy T api p w (Allocate banks))"
proof (cases "provider_esys p")
  case (Some e)
  show ?thesis
  proof (cases "accepts_banks T banks")
    case True
    obtain rc out b where "api_pcr_allocate api (provider_esys p) (tr_rh_platform T) (tr_password T) (tr_none T)
      (tr_none T) (allocation_structure legacy T banks)
      \<lparr>out_success = yes_no_no T, out_max_pcr = 0, out_size_needed = 0, out_size_available = 0\<rparr>
      (backend w) = ((rc, out), b)" by (metis prod.exhaust)
    note eq = provider_allocate_accepted [OF T Some True this]
    show ?thesis
      by (rule step_ok_one_call [where bs = "[]"]) (auto simp: eq one_record success_records)
  next
    case False
    with provider_allocate_rejected [OF Some this, of legacy api w] show ?thesis
      by (auto intro!: step_ok_rejected)
  qed
qed (simp add: no_context step_ok_rejected)

lemma extend_step:
  assumes T: "sizes_documented T" and wf: "wf_request legacy (Extend i ds)"
  shows "step_ok legacy p (Extend i ds) w (provider_step legacy T api p w (Extend i ds))"
proof (cases "provider_esys p")
  case (Some e)
  show ?thesis
  proof (cases "accepts_digests T ds")
    case True
    obtain rc b where "api_pcr_extend api (provider_esys p) (pcr_handle T i) (tr_password T) (tr_none T)
      (tr_none T) (digests_structure legacy T ds) (backend w) = (rc, b)" by (metis prod.exhaust)
    note eq = provider_extend_accepted [OF T Some True _ this]
    show ?thesis
      by (rule step_ok_one_call [where bs = "observed p (On_extend i ds)"])
         (use wf in \<open>auto simp: eq one_record success_records\<close>)
  next
    case False
    with provider_extend_rejected [OF Some this, of legacy api i w] show ?thesis
      by (auto intro!: step_ok_rejected)
  qed
qed (simp add: no_context step_ok_rejected)

lemma reset_step:
  "step_ok legacy p (Reset i) w (provider_step legacy T api p w (Reset i))"
proof (cases "provider_esys p")
  case (Some e)
  obtain rc b where "api_pcr_reset api (provider_esys p) (pcr_handle T i) (tr_password T) (tr_none T)
      (tr_none T) (backend w) = (rc, b)" by (metis prod.exhaust)
  note eq = provider_reset_accepted [OF Some this]
  show ?thesis
    by (rule step_ok_one_call [where bs = "[]"]) (auto simp: eq one_record success_records)
qed (simp add: no_context step_ok_rejected)

lemma set_auth_policy_step:
  assumes T: "sizes_documented T" "alg_ids_documented T"
  shows "step_ok legacy p (Set_auth_policy i a policy) w
           (provider_step legacy T api p w (Set_auth_policy i a policy))"
proof (cases "provider_esys p")
  case (Some e)
  show ?thesis
  proof (cases "accepts_policy legacy a policy")
    case True
    obtain rc b where "api_pcr_set_auth_policy api (provider_esys p) (tr_rh_platform T) (tr_password T)
      (tr_none T) (tr_none T) (sized_structure (digest_buffer_size T) policy)
      (algorithm_to_tpm legacy T a) (hr_pcr T + ucast (index_value i)) (backend w) = (rc, b)"
      by (metis prod.exhaust)
    note eq = provider_set_auth_policy_accepted [OF T Some True this]
    show ?thesis
      by (rule step_ok_one_call [where bs = "[]"]) (auto simp: eq one_record success_records)
  next
    case False
    with provider_set_auth_policy_rejected [OF Some T this, of api i w] show ?thesis
      by (auto intro!: step_ok_rejected)
  qed
qed (simp add: no_context step_ok_rejected)

lemma set_auth_value_step:
  "step_ok legacy p (Set_auth_value i auth) w (provider_step legacy T api p w (Set_auth_value i auth))"
proof (cases "provider_esys p")
  case (Some e)
  show ?thesis
  proof (cases "auth = []")
    case True
    obtain rc1 b1 where r1: "api_tr_set_auth api (provider_esys p) (pcr_handle T i) (empty_auth T) (backend w) = (rc1, b1)"
      by (metis prod.exhaust)
    obtain rc2 b2 where r2: "api_pcr_set_auth_value api (provider_esys p) (pcr_handle T i) (tr_password T)
      (tr_none T) (tr_none T) (empty_auth T) b1 = (rc2, b2)" by (metis prod.exhaust)
    obtain rc3 b3 where r3: "api_tr_set_auth api (provider_esys p) (pcr_handle T i) (empty_auth T) b2 = (rc3, b3)"
      by (metis prod.exhaust)
    let ?a1 = "[Called (tr_auth_command T p i)]"
    let ?a2 = "?a1 @ [Called (set_auth_command T p i)]"
    let ?a3 = "?a2 @ [Called (tr_auth_command T p i)]"
    note eq = provider_set_auth_value_accepted [OF Some r1 r2 r3]
    have fail: "step_contract legacy p (Set_auth_value i auth) (fails (tss_failure T rc))
        (as @ map Logged (failure_records T api rc op) @ [])"
      if "records as = []" "notifications as = []" "commands as \<noteq> []" for rc as op
      using that by (intro contract_failed) simp_all
    have ok: "step_contract legacy p (Set_auth_value i auth) (returns Completed)
        (?a3 @ map Logged (log_auth_value_set i) @ [])"
      by (rule contract_returned) (simp_all add: one_record success_records)
    consider "rc1 \<noteq> rc_success T" | "rc1 = rc_success T" "rc2 \<noteq> rc_success T"
      | "rc1 = rc_success T" "rc2 = rc_success T" "rc3 \<noteq> rc_success T"
      | "rc1 = rc_success T" "rc2 = rc_success T" "rc3 = rc_success T" by blast
    then show ?thesis
    proof cases
      case 1
      with fail [of ?a1 rc1] True show ?thesis by (intro step_okI) (simp_all add: eq)
    next
      case 2
      with fail [of ?a2 rc2] True show ?thesis by (intro step_okI) (simp_all add: eq)
    next
      case 3
      with fail [of ?a3 rc3] True show ?thesis by (intro step_okI) (simp_all add: eq)
    next
      case 4
      with ok True show ?thesis by (intro step_okI) (simp_all add: eq)
    qed
  next
    case False
    with provider_set_auth_value_rejected [OF Some this, of T api i w] show ?thesis
      by (auto intro!: step_ok_rejected)
  qed
qed (simp add: no_context step_ok_rejected)

lemma event_step:
  assumes T: "sizes_documented T" and api: "api_sized T api"
  shows "step_ok legacy p (Event i event_data) w (provider_step legacy T api p w (Event i event_data))"
proof (cases "provider_esys p")
  case (Some e)
  show ?thesis
  proof (cases "accepts_event T event_data")
    case True
    obtain rc raw b where reply: "api_pcr_event api (provider_esys p) (pcr_handle T i) (tr_password T) (tr_none T)
      (tr_none T) (sized_structure (event_buffer_size T) event_data) (backend w) = ((rc, raw), b)"
      by (metis prod.exhaust)
    note eq = provider_event_accepted [OF Some True reply, of legacy]
    let ?c = "[Called (event_command T p i event_data)]"
    have fail: "step_contract legacy p (Event i event_data) (fails x) (?c @ freed raw)"
      "step_contract legacy p (Event i event_data) (fails x)
        (?c @ map Logged (failure_records T api rc ''pcr_event'') @ freed raw)"
      if "listed_category (category x)" for x
      using that by (intro contract_failed; simp)+
    show ?thesis
    proof (cases "rc = rc_success T")
      case False
      with fail(2) [of "tss_failure T rc"] show ?thesis by (intro step_okI) (simp_all add: eq)
    next
      case rc: True
      show ?thesis
      proof (cases raw)
        case None
        with rc fail(1) [of "err backend_error ''TPM returned no PCR event digests''"] show ?thesis
          by (intro step_okI) (simp_all add: eq)
      next
        case (Some x)
        then obtain a d where x: "raw = Some (a, d)" by (cases x) auto
        from good_domain_digests [OF T api_sized_event [OF api reply [unfolded x]], of legacy]
        show ?thesis unfolding good_answer_cases
        proof (elim disjE exE conjE)
          fix y assume "to_domain_digests legacy T d = fails y" "category y = backend_error"
          with rc x fail(1) [of y] show ?thesis by (intro step_okI) (simp_all add: eq)
        next
          fix ds assume ds: "to_domain_digests legacy T d = returns ds" "list_all (wf_digest_value legacy) ds"
          then have "wf_event_result legacy \<lparr>er_digests = ds\<rparr>"
            by (simp add: wf_event_result_def list_all_iff)
          then have "step_contract legacy p (Event i event_data) (returns (Measured \<lparr>er_digests = ds\<rparr>))
             (?c @ map Logged (log_event_completed i (length event_data) (length ds)) @
              (observed p (On_event i event_data \<lparr>er_digests = ds\<rparr>) @ freed raw))"
            by (intro contract_returned) (simp_all add: one_record success_records)
          with rc x ds show ?thesis by (intro step_okI) (simp_all add: eq)
        qed
      qed
    qed
  next
    case False
    then show ?thesis
      by (simp add: provider_event_rejected [OF Some] step_ok_rejected)
  qed
qed (simp add: no_context step_ok_rejected)

lemma read_step:
  assumes T: "sizes_documented T" and api: "api_sized T api" and wf: "wf_selection legacy sel"
  shows "step_ok legacy p (Read sel) w (provider_step legacy T api p w (Read sel))"
proof (cases "provider_esys p")
  case (Some e)
  obtain s where s: "to_tpm_selection legacy T sel = Inr s" using to_tpm_selection_ok [OF T wf] by blast
  obtain rc out b where reply: "api_pcr_read api (provider_esys p) (tr_none T) (tr_none T) (tr_none T) s
      \<lparr>out_update_counter = 0, out_selection = None, out_values = None\<rparr> (backend w) = ((rc, out), b)"
    by (metis prod.exhaust)
  note eq = provider_read_accepted [OF Some s reply]
  let ?c = "[Called (Esys_PCR_Read (provider_esys p) (tr_none T) (tr_none T) (tr_none T) s)]"
  let ?f = "freed (out_values out) @ freed (out_selection out)"
  have fail: "step_contract legacy p (Read sel) (fails x) (?c @ ?f)"
      "step_contract legacy p (Read sel) (fails x)
        (?c @ map Logged (failure_records T api rc ''pcr_read'') @ ?f)"
      if "listed_category (category x)" for x
    using that by (intro contract_failed; simp)+
  consider (tss) "rc \<noteq> rc_success T"
    | (none) "rc = rc_success T" "out_selection out = None \<or> out_values out = None"
    | (full) sa ts va vs where "rc = rc_success T" "out_selection out = Some (sa, ts)" "out_values out = Some (va, vs)"
    by (cases "out_selection out"; cases "out_values out") auto
  then show ?thesis
  proof cases
    case tss
    with fail(2) [of "tss_failure T rc"] show ?thesis by (intro step_okI) (simp_all add: eq)
  next
    case none
    with fail(1) [of "err backend_error ''TPM returned incomplete PCR read response''"] show ?thesis
      by (intro step_okI [of _ _ "?c @ ?f"]) (auto simp add: eq split: option.splits)
  next
    case full
    have "supported_hash legacy (sel_algorithm sel)" using wf by (simp add: wf_selection_def)
    note sel = good_domain_selection [OF T api_sized_read(1) [OF api reply full(2)] this]
    have "good_answer (wf_read_result legacy)
      (bind_try (to_domain_selection legacy T ts (sel_algorithm sel))
                     (\<lambda>ds. bind_try (to_domain_read_values legacy vs ds)
                       (\<lambda>dv. returns \<lparr>actual_selection = ds, update_counter = out_update_counter out,
                                      read_values = dv\<rparr>)))"
      by (rule good_answer_bind [OF sel], rule good_answer_bind)
         (erule good_domain_read_values [OF T api_sized_read(2) [OF api reply full(3)]],
          simp add: wf_read_result_def)
    then show ?thesis unfolding good_answer_cases
    proof (elim disjE exE conjE)
      fix y assume "bind_try (to_domain_selection legacy T ts (sel_algorithm sel))
                     (\<lambda>ds. bind_try (to_domain_read_values legacy vs ds)
                       (\<lambda>dv. returns \<lparr>actual_selection = ds, update_counter = out_update_counter out,
                                      read_values = dv\<rparr>)) = fails y" "category y = backend_error"
      with full fail(1) [of y] show ?thesis by (intro step_okI) (simp_all add: eq)
    next
      fix r assume r: "bind_try (to_domain_selection legacy T ts (sel_algorithm sel))
                     (\<lambda>ds. bind_try (to_domain_read_values legacy vs ds)
                       (\<lambda>dv. returns \<lparr>actual_selection = ds, update_counter = out_update_counter out,
                                      read_values = dv\<rparr>)) = returns r" "wf_read_result legacy r"
      have "step_contract legacy p (Read sel) (returns (Was_read r))
         (?c @ map Logged (log_read_completed (actual_selection r) (length (read_values r))) @ ?f)"
        using r by (intro contract_returned) (simp_all add: one_record success_records)
      with full r show ?thesis by (intro step_okI) (simp_all add: eq)
    qed
  qed
qed (simp add: no_context step_ok_rejected)

lemma provider_step_ok:
  assumes "sizes_documented T" and "alg_ids_documented T" and "api_sized T api" and "wf_request legacy q"
  shows "step_ok legacy p q w (provider_step legacy T api p w q)"
  using assms
  by (cases q) (simp_all only: allocate_step extend_step reset_step set_auth_policy_step
      set_auth_value_step event_step read_step wf_request.simps)

section \<open>The ESYS provider keeps the contract of the port\<close>

text \<open>The ESYS provider behind the port: its state is the configuration and the world.\<close>

record 'b esys_provider =
  ep_tss :: tss
  ep_api :: "'b esys_api"
  ep_provider :: provider
  ep_world :: "('b, notification) world"

definition esys_provider_step ::
  "bool \<Rightarrow> 'b esys_provider \<Rightarrow> request \<Rightarrow> reply call \<times> 'b esys_provider" where
  "esys_provider_step legacy s q =
     (let (r, w) = provider_step legacy (ep_tss s) (ep_api s) (ep_provider s) (ep_world s) q
      in (r, s\<lparr>ep_world := w\<rparr>))"

definition esys_provider_valid :: "'b esys_provider \<Rightarrow> bool" where
  "esys_provider_valid s \<longleftrightarrow>
     sizes_documented (ep_tss s) \<and> alg_ids_documented (ep_tss s) \<and> api_sized (ep_tss s) (ep_api s)"

interpretation esys: provider_port
  "esys_provider_step legacy" legacy esys_provider_valid
  "\<lambda>s. notifications (actions (ep_world s))" "\<lambda>s. provider_has_observer (ep_provider s)"
  for legacy
proof unfold_locales
  fix s :: "'b esys_provider" and q
  show "provider_has_observer (ep_provider (snd (esys_provider_step legacy s q))) =
      provider_has_observer (ep_provider s)"
    by (simp add: esys_provider_step_def split_beta)
  assume s: "esys_provider_valid s" and q: "wf_request legacy q"
  show "esys_provider_valid (snd (esys_provider_step legacy s q))"
    using s by (simp add: esys_provider_step_def esys_provider_valid_def split_beta)
  obtain new where new: "actions (snd (provider_step legacy (ep_tss s) (ep_api s) (ep_provider s) (ep_world s) q))
       = actions (ep_world s) @ new"
    "step_contract legacy (ep_provider s) q
       (fst (provider_step legacy (ep_tss s) (ep_api s) (ep_provider s) (ep_world s) q)) new"
    using provider_step_ok [of "ep_tss s" "ep_api s" legacy q "ep_provider s" "ep_world s"] s q
    by (auto simp: esys_provider_valid_def step_ok_def)
  then show "safe_call (answers legacy q) (fst (esys_provider_step legacy s q))"
    by (simp add: esys_provider_step_def step_contract_def split_beta)
  show "notifications (actions (ep_world (snd (esys_provider_step legacy s q)))) =
      notifications (actions (ep_world s)) @
        (if provider_has_observer (ep_provider s) then measurement q (fst (esys_provider_step legacy s q)) else [])"
    using new by (simp add: esys_provider_step_def step_contract_def split_beta)
qed

section \<open>An instance of the library\<close>

text \<open>
  A library for the witnesses: its state is the return code of the next calls; an event is answered
  by one SHA-256 digest, a read by the selection asked for and no digest.
\<close>

definition lab_digests :: tpml_digest_values where
  "lab_digests =
     \<lparr>dvs_count = 1,
      dvs_digests = \<lparr>hash_alg = 0xb, ha_bytes = replicate 64 7\<rparr> # replicate 15 (zero_tpmt_ha tss_4_1)\<rparr>"

definition lab_selection :: tpml_pcr_selection where
  "lab_selection = (zero_tpml_pcr_selection tss_4_1)\<lparr>psel_count := 0\<rparr>"

definition lab_values :: tpml_digest where
  "lab_values = \<lparr>digs_count = 0, digs_digests = replicate 8 (zero_tpm2b 64)\<rparr>"

definition lab_api :: "u32 esys_api" where
  "lab_api =
     \<lparr>api_initialize = (\<lambda>t v b. ((b, Some 1, v), b)),
      api_finalize = (\<lambda>c b. b),
      api_free = (\<lambda>p b. b),
      api_pcr_allocate = (\<lambda>e h s1 s2 s3 a out b. ((b, out\<lparr>out_success := 1\<rparr>), b)),
      api_pcr_event = (\<lambda>e h s1 s2 s3 d b. ((b, Some (100, lab_digests)), b)),
      api_pcr_extend = (\<lambda>e h s1 s2 s3 d b. (b, b)),
      api_pcr_read = (\<lambda>e s1 s2 s3 s out b.
         ((b, out\<lparr>out_selection := Some (200, lab_selection), out_values := Some (201, lab_values)\<rparr>), b)),
      api_pcr_reset = (\<lambda>e h s1 s2 s3 b. (b, b)),
      api_pcr_set_auth_policy = (\<lambda>e h s1 s2 s3 a alg n b. (b, b)),
      api_pcr_set_auth_value = (\<lambda>e h s1 s2 s3 a b. (b, b)),
      api_startup = (\<lambda>e t b. (b, b)),
      api_tr_set_auth = (\<lambda>e h a b. (b, b)),
      api_decode_error = Some (\<lambda>rc. Some ''lab'')\<rparr>"

lemma lab_api_sized [simp]: "api_sized tss_4_1 lab_api"
  by (auto simp: api_sized_def lab_api_def lab_digests_def lab_selection_def lab_values_def
      wf_tpml_digest_values_def wf_ha_def zero_tpmt_ha_def wf_tpml_pcr_selection_def
      zero_tpml_pcr_selection_def zero_pcr_selection_def wf_tpml_digest_def zero_tpm2b_def
      list_all_iff tss_4_1_fields)

definition lab_provider :: provider where
  "lab_provider = new_esys_pcr_provider (Some 1) True"

definition lab_world :: "u32 \<Rightarrow> (u32, notification) world" where
  "lab_world rc = \<lparr>backend = rc, actions = []\<rparr>"

definition lab_digest :: digest_value where
  "lab_digest = \<lparr>dv_algorithm = sha256, dv_digest = replicate 32 7\<rparr>"

section \<open>Properties\<close>

text \<open>
  C1: Every operation of the ESYS provider keeps the contract of the port, whatever the library
  answers: it ends normally (no array is left, nothing is thrown, no null pointer used) with a
  well-formed value of the operation's kind or an expected failure of a listed category; the
  observer is told of a successful extend or event, once, and of nothing else; a success writes one
  success record, a failure at most one error record, both with keys of the adapter's vocabulary,
  each once; and a call that does not reach the library leaves no trace.
\<close>
theorem provider_step_contract:
  assumes "sizes_documented T" and "alg_ids_documented T" and "api_sized T api" and "wf_request legacy q"
  shows "\<exists>new. actions (snd (provider_step legacy T api p w q)) = actions w @ new \<and>
    step_contract legacy p q (fst (provider_step legacy T api p w q)) new"
  using provider_step_ok [OF assms] by (simp add: step_ok_def)

lemma provider_step_contract_witness:
  "\<exists>new. actions (snd (provider_step False tss_4_1 lab_api lab_provider (lab_world 0) (Event (Index 7) [1, 2]))) =
      actions (lab_world 0) @ new \<and>
    step_contract False lab_provider (Event (Index 7) [1, 2])
      (fst (provider_step False tss_4_1 lab_api lab_provider (lab_world 0) (Event (Index 7) [1, 2]))) new"
  by (rule provider_step_contract) (simp_all add: wf_index_unat)

text \<open>
  C4: Over any sequence of requests, all answers are safe, one for each request, and what the
  observer has heard at the end is exactly the successful measurements of the sequence, in order.
\<close>
theorem measurement_log_complete:
  assumes "esys_provider_valid s" and "provider_has_observer (ep_provider s)"
    and "list_all (wf_request legacy) qs"
  shows "length (fst (run_requests (esys_provider_step legacy) s qs)) = length qs \<and>
    list_all2 (\<lambda>q r. safe_call (answers legacy q) r) qs (fst (run_requests (esys_provider_step legacy) s qs)) \<and>
    notifications (actions (ep_world (snd (run_requests (esys_provider_step legacy) s qs)))) =
      notifications (actions (ep_world s)) @
      measurements qs (fst (run_requests (esys_provider_step legacy) s qs))"
  using esys.run_safe [OF assms(1,3)] esys.run_heard [OF assms(1,3)] esys.run_length assms(2) by simp

definition lab_state :: "u32 esys_provider" where
  "lab_state = \<lparr>ep_tss = tss_4_1, ep_api = lab_api, ep_provider = lab_provider, ep_world = lab_world 0\<rparr>"

lemma lab_provider_simps [simp]:
  "provider_has_observer lab_provider" "provider_esys lab_provider = Some 1"
  "ep_provider lab_state = lab_provider" "actions (ep_world lab_state) = []"
  by (simp_all add: lab_provider_def new_esys_pcr_provider_def lab_state_def lab_world_def)

lemma lab_state_valid [simp]: "esys_provider_valid lab_state"
  by (simp add: esys_provider_valid_def lab_state_def)

lemma measurement_log_complete_witness:
  "length (fst (run_requests (esys_provider_step False) lab_state [Extend (Index 3) [lab_digest], Reset (Index 3)])) =
      length [Extend (Index 3) [lab_digest], Reset (Index 3)] \<and>
    list_all2 (\<lambda>q r. safe_call (answers False q) r) [Extend (Index 3) [lab_digest], Reset (Index 3)]
      (fst (run_requests (esys_provider_step False) lab_state [Extend (Index 3) [lab_digest], Reset (Index 3)])) \<and>
    notifications (actions (ep_world (snd (run_requests (esys_provider_step False) lab_state
        [Extend (Index 3) [lab_digest], Reset (Index 3)])))) =
      notifications (actions (ep_world lab_state)) @
      measurements [Extend (Index 3) [lab_digest], Reset (Index 3)]
        (fst (run_requests (esys_provider_step False) lab_state [Extend (Index 3) [lab_digest], Reset (Index 3)]))"
  by (rule measurement_log_complete)
     (simp_all add: wf_index_unat lab_digest_def wf_digest_value_def)

text \<open>What the arguments of a request must satisfy, and the command it then sends first.\<close>

fun accepted :: "bool \<Rightarrow> tss \<Rightarrow> request \<Rightarrow> bool" where
  "accepted legacy T (Allocate banks) = accepts_banks T banks"
| "accepted legacy T (Event i event_data) = accepts_event T event_data"
| "accepted legacy T (Extend i ds) = accepts_digests T ds"
| "accepted legacy T (Read sel) = True"
| "accepted legacy T (Reset i) = True"
| "accepted legacy T (Set_auth_policy i a policy) = accepts_policy legacy a policy"
| "accepted legacy T (Set_auth_value i auth) = (auth = [])"

fun rejection_category :: "tss \<Rightarrow> request \<Rightarrow> error_category" where
  "rejection_category T (Set_auth_value i auth) =
     (if length auth > digest_buffer_size T then input_error else resource_error)"
| "rejection_category T q = input_error"

fun first_command :: "bool \<Rightarrow> tss \<Rightarrow> provider \<Rightarrow> request \<Rightarrow> esys_command" where
  "first_command legacy T p (Allocate banks) = allocate_command legacy T p banks"
| "first_command legacy T p (Event i event_data) = event_command T p i event_data"
| "first_command legacy T p (Extend i ds) = extend_command legacy T p i ds"
| "first_command legacy T p (Read sel) =
     Esys_PCR_Read (provider_esys p) (tr_none T) (tr_none T) (tr_none T)
       (projr (to_tpm_selection legacy T sel))"
| "first_command legacy T p (Reset i) = reset_command T p i"
| "first_command legacy T p (Set_auth_policy i a policy) = policy_command legacy T p i a policy"
| "first_command legacy T p (Set_auth_value i auth) = tr_auth_command T p i"

fun operation_name :: "request \<Rightarrow> string" where
  "operation_name (Allocate banks) = ''pcr_allocate''"
| "operation_name (Event i event_data) = ''pcr_event''"
| "operation_name (Extend i ds) = ''pcr_extend''"
| "operation_name (Read sel) = ''pcr_read''"
| "operation_name (Reset i) = ''pcr_reset''"
| "operation_name (Set_auth_policy i a policy) = ''pcr_set_auth_policy''"
| "operation_name (Set_auth_value i auth) = ''pcr_set_auth_value_set_current_auth''"

text \<open>The return code of that command, and the buffers its answer hands over.\<close>

fun reply_code :: "bool \<Rightarrow> tss \<Rightarrow> 'b esys_api \<Rightarrow> provider \<Rightarrow> 'b \<Rightarrow> request \<Rightarrow> u32" where
  "reply_code legacy T api p b (Allocate banks) =
     fst (fst (api_pcr_allocate api (provider_esys p) (tr_rh_platform T) (tr_password T) (tr_none T)
       (tr_none T) (allocation_structure legacy T banks)
       \<lparr>out_success = yes_no_no T, out_max_pcr = 0, out_size_needed = 0, out_size_available = 0\<rparr> b))"
| "reply_code legacy T api p b (Event i event_data) =
     fst (fst (api_pcr_event api (provider_esys p) (pcr_handle T i) (tr_password T) (tr_none T)
       (tr_none T) (sized_structure (event_buffer_size T) event_data) b))"
| "reply_code legacy T api p b (Extend i ds) =
     fst (api_pcr_extend api (provider_esys p) (pcr_handle T i) (tr_password T) (tr_none T)
       (tr_none T) (digests_structure legacy T ds) b)"
| "reply_code legacy T api p b (Read sel) =
     fst (fst (api_pcr_read api (provider_esys p) (tr_none T) (tr_none T) (tr_none T)
       (projr (to_tpm_selection legacy T sel))
       \<lparr>out_update_counter = 0, out_selection = None, out_values = None\<rparr> b))"
| "reply_code legacy T api p b (Reset i) =
     fst (api_pcr_reset api (provider_esys p) (pcr_handle T i) (tr_password T) (tr_none T)
       (tr_none T) b)"
| "reply_code legacy T api p b (Set_auth_policy i a policy) =
     fst (api_pcr_set_auth_policy api (provider_esys p) (tr_rh_platform T) (tr_password T) (tr_none T)
       (tr_none T) (sized_structure (digest_buffer_size T) policy) (algorithm_to_tpm legacy T a)
       (hr_pcr T + ucast (index_value i)) b)"
| "reply_code legacy T api p b (Set_auth_value i auth) =
     fst (api_tr_set_auth api (provider_esys p) (pcr_handle T i) (empty_auth T) b)"

definition buffer_address :: "'a buffer \<Rightarrow> nat list" where
  "buffer_address buf = (case buf of None \<Rightarrow> [] | Some (a, x) \<Rightarrow> [a])"

fun reply_buffers :: "bool \<Rightarrow> tss \<Rightarrow> 'b esys_api \<Rightarrow> provider \<Rightarrow> 'b \<Rightarrow> request \<Rightarrow> nat list" where
  "reply_buffers legacy T api p b (Event i event_data) =
     buffer_address (snd (fst (api_pcr_event api (provider_esys p) (pcr_handle T i)
       (tr_password T) (tr_none T) (tr_none T) (sized_structure (event_buffer_size T) event_data) b)))"
| "reply_buffers legacy T api p b (Read sel) =
     (let out = snd (fst (api_pcr_read api (provider_esys p) (tr_none T) (tr_none T) (tr_none T)
         (projr (to_tpm_selection legacy T sel))
         \<lparr>out_update_counter = 0, out_selection = None, out_values = None\<rparr> b))
      in buffer_address (out_values out) @ buffer_address (out_selection out))"
| "reply_buffers legacy T api p b q = []"

lemma freed_eq: "freed buf = map Freed (buffer_address buf)"
  by (auto simp: freed_def buffer_address_def split: option.splits)

text \<open>
  The shape of an accepted step: its command, what follows, the answer's buffers; when the library
  fails, the one error record is all that follows.
\<close>

definition accepted_step where
  "accepted_step legacy T api p w q x \<longleftrightarrow>
     (\<exists>rest. actions (snd x) = actions w @ Called (first_command legacy T p q) # rest @
          map Freed (reply_buffers legacy T api p (backend w) q) \<and>
        handed_back rest = [] \<and>
        (reply_code legacy T api p (backend w) q \<noteq> rc_success T \<longrightarrow>
           fst x = fails (tss_failure T (reply_code legacy T api p (backend w) q)) \<and>
           rest = map Logged (failure_records T api (reply_code legacy T api p (backend w) q) (operation_name q))))"

lemma accepted_allocate:
  assumes "sizes_documented T" and "provider_esys p = Some e" and "accepts_banks T banks"
  shows "accepted_step legacy T api p w (Allocate banks) (provider_step legacy T api p w (Allocate banks))"
  using provider_allocate_accepted [OF assms, of api legacy w "fst (fst r)" "snd (fst r)" "snd r" for r]
  by (simp add: accepted_step_def)

lemma accepted_extend:
  assumes "sizes_documented T" and "provider_esys p = Some e" and "accepts_digests T ds"
    and "list_all (wf_digest_value legacy) ds"
  shows "accepted_step legacy T api p w (Extend i ds) (provider_step legacy T api p w (Extend i ds))"
  using provider_extend_accepted [OF assms, of api i w "fst r" "snd r" for r]
  by (simp add: accepted_step_def)

lemma accepted_reset:
  assumes "provider_esys p = Some e"
  shows "accepted_step legacy T api p w (Reset i) (provider_step legacy T api p w (Reset i))"
  using provider_reset_accepted [OF assms, of api T i w "fst r" "snd r" for r]
  by (simp add: accepted_step_def)

lemma accepted_set_auth_policy:
  assumes "sizes_documented T" and "alg_ids_documented T" and "provider_esys p = Some e"
    and "accepts_policy legacy a policy"
  shows "accepted_step legacy T api p w (Set_auth_policy i a policy)
           (provider_step legacy T api p w (Set_auth_policy i a policy))"
  using provider_set_auth_policy_accepted [OF assms, of api i w "fst r" "snd r" for r]
  by (simp add: accepted_step_def)

lemma accepted_set_auth_value:
  assumes "provider_esys p = Some e"
  shows "accepted_step legacy T api p w (Set_auth_value i [])
           (provider_step legacy T api p w (Set_auth_value i []))"
  using provider_set_auth_value_accepted [OF assms, of api T i w "fst r" "snd r" "fst r2" "snd r2" "fst r3" "snd r3" for r r2 r3]
  by (simp add: accepted_step_def)

lemma accepted_event:
  assumes p: "provider_esys p = Some e" and "accepts_event T event_data"
  shows "accepted_step legacy T api p w (Event i event_data) (provider_step legacy T api p w (Event i event_data))"
proof -
  obtain rc raw b where r: "api_pcr_event api (provider_esys p) (pcr_handle T i) (tr_password T) (tr_none T)
      (tr_none T) (sized_structure (event_buffer_size T) event_data) (backend w) = ((rc, raw), b)"
    by (metis prod.exhaust)
  note eq = provider_event_accepted [OF assms r, of legacy]
  show ?thesis
    using r by (auto simp: freed_eq accepted_step_def eq Let_def split_beta split: option.splits sum.splits)
qed

lemma accepted_read:
  assumes p: "provider_esys p = Some e" and "sizes_documented T" and "wf_selection legacy sel"
  shows "accepted_step legacy T api p w (Read sel) (provider_step legacy T api p w (Read sel))"
proof -
  obtain s where s: "to_tpm_selection legacy T sel = Inr s" using to_tpm_selection_ok assms by blast
  obtain rc out b where r: "api_pcr_read api (provider_esys p) (tr_none T) (tr_none T) (tr_none T) s
      \<lparr>out_update_counter = 0, out_selection = None, out_values = None\<rparr> (backend w) = ((rc, out), b)"
    by (metis prod.exhaust)
  note eq = provider_read_accepted [OF p s r]
  show ?thesis
    using r s by (auto simp: freed_eq accepted_step_def eq Let_def split_beta split: option.splits sum.splits)
qed


lemma step_accepted:
  assumes "sizes_documented T" and "alg_ids_documented T" and "wf_request legacy q"
    and "provider_esys p = Some e" and "accepted legacy T q"
  shows "accepted_step legacy T api p w q (provider_step legacy T api p w q)"
proof (cases q)
  case (Set_auth_value i auth)
  with assms show ?thesis using accepted_set_auth_value [OF assms(4)] by (simp del: provider_step.simps)
qed (use assms in \<open>simp_all only: accepted_allocate accepted_extend accepted_reset
      accepted_set_auth_policy accepted_event accepted_read accepted.simps wf_request.simps\<close>)

lemma step_rejected:
  assumes "sizes_documented T" and "alg_ids_documented T"
    and p: "provider_esys p = Some e" and "\<not> accepted legacy T q"
  shows "\<exists>m. provider_step legacy T api p w q = (fails (err (rejection_category T q) m), w)"
proof (cases q)
  case (Allocate banks)
  then show ?thesis using provider_allocate_rejected [OF p, of T banks legacy api w] assms by auto
next
  case (Event i event_data)
  then show ?thesis using provider_event_rejected [OF p, of T event_data legacy api i w] assms by auto
next
  case (Extend i ds)
  then show ?thesis using provider_extend_rejected [OF p, of T ds legacy api i w] assms by auto
next
  case (Set_auth_policy i a policy)
  then show ?thesis
    using provider_set_auth_policy_rejected [OF p assms(1,2), of legacy a policy api i w] assms by auto
next
  case (Set_auth_value i auth)
  then show ?thesis using provider_set_auth_value_rejected [OF p, of auth T api i w] assms by auto
qed (use assms in simp_all)

text \<open>
  C5: The arguments decide alone whether the TPM is asked. A request within the documented limits
  (a non-empty bank or digest list without duplicate algorithms and within the TPM's bank count,
  event data within the event buffer, a policy digest of its algorithm's size, an empty
  authorization value) sends its command first. Any other request changes nothing in the world and
  is reported as an input error, or as a resource error where a secret would need a secure
  transport. Without a TPM context every request is a resource error.
\<close>
theorem arguments_checked_first:
  assumes "sizes_documented T" and "alg_ids_documented T" and "wf_request legacy q"
  shows "case provider_esys p of
      None \<Rightarrow> provider_step legacy T api p w q =
        (fails (err resource_error ''ESYS PCR provider has no TPM context''), w)
    | Some e \<Rightarrow>
        if accepted legacy T q
        then \<exists>rest. actions (snd (provider_step legacy T api p w q)) =
               actions w @ Called (first_command legacy T p q) # rest
        else \<exists>m. provider_step legacy T api p w q = (fails (err (rejection_category T q) m), w)"
proof (cases "provider_esys p")
  case None
  then show ?thesis by (cases q) (simp_all add: no_context)
next
  case (Some e)
  with step_accepted [OF assms Some, of api w] step_rejected [OF assms(1,2) Some, of legacy q api w]
  show ?thesis by (auto simp: accepted_step_def)
qed

lemma arguments_checked_first_witness:
  "case provider_esys lab_provider of
      None \<Rightarrow> provider_step False tss_4_1 lab_api lab_provider (lab_world 0) (Allocate []) =
        (fails (err resource_error ''ESYS PCR provider has no TPM context''), lab_world 0)
    | Some e \<Rightarrow>
        if accepted False tss_4_1 (Allocate [])
        then \<exists>rest. actions (snd (provider_step False tss_4_1 lab_api lab_provider (lab_world 0) (Allocate []))) =
               actions (lab_world 0) @ Called (first_command False tss_4_1 lab_provider (Allocate [])) # rest
        else \<exists>m. provider_step False tss_4_1 lab_api lab_provider (lab_world 0) (Allocate []) =
               (fails (err (rejection_category tss_4_1 (Allocate [])) m), lab_world 0)"
  by (rule arguments_checked_first) simp_all

text \<open>
  All library calls of an accepted request, in order, each with the name its refusal is reported
  under, and the return codes they give when all are made. Only \<^verbatim>\<open>set_auth_value\<close> makes more than one.
\<close>

fun library_calls :: "bool \<Rightarrow> tss \<Rightarrow> provider \<Rightarrow> request \<Rightarrow> (esys_command \<times> string) list" where
  "library_calls legacy T p (Set_auth_value i auth) =
     [(tr_auth_command T p i, ''pcr_set_auth_value_set_current_auth''),
      (set_auth_command T p i, ''pcr_set_auth_value''),
      (tr_auth_command T p i, ''pcr_set_auth_value_update_current_auth'')]"
| "library_calls legacy T p q = [(first_command legacy T p q, operation_name q)]"

fun reply_codes :: "bool \<Rightarrow> tss \<Rightarrow> 'b esys_api \<Rightarrow> provider \<Rightarrow> 'b \<Rightarrow> request \<Rightarrow> u32 list" where
  "reply_codes legacy T api p b (Set_auth_value i auth) =
     (let (rc1, b1) = api_tr_set_auth api (provider_esys p) (pcr_handle T i) (empty_auth T) b;
          (rc2, b2) = api_pcr_set_auth_value api (provider_esys p) (pcr_handle T i) (tr_password T)
            (tr_none T) (tr_none T) (empty_auth T) b1;
          (rc3, b3) = api_tr_set_auth api (provider_esys p) (pcr_handle T i) (empty_auth T) b2
      in [rc1, rc2, rc3])"
| "reply_codes legacy T api p b q = [reply_code legacy T api p b q]"

definition refused_call where
  "refused_call legacy T api p w q n rc x \<longleftrightarrow>
     fst x = fails (tss_failure T rc) \<and>
     actions (snd x) = actions w @
       map (\<lambda>c. Called (fst c)) (take (Suc n) (library_calls legacy T p q)) @
       map Logged (failure_records T api rc (snd (library_calls legacy T p q ! n))) @
       map Freed (reply_buffers legacy T api p (backend w) q)"

lemma single_call_refused:
  assumes "accepted_step legacy T api p w q x" and "reply_code legacy T api p (backend w) q \<noteq> rc_success T"
    and "library_calls legacy T p q = [(first_command legacy T p q, operation_name q)]"
  shows "refused_call legacy T api p w q 0 (reply_code legacy T api p (backend w) q) x"
  using assms by (auto simp: accepted_step_def refused_call_def)

lemma set_auth_value_refused:
  assumes "provider_esys p = Some e"
    and "n < 3" and "take n (reply_codes legacy T api p (backend w) (Set_auth_value i [])) = replicate n (rc_success T)"
    and "rc = reply_codes legacy T api p (backend w) (Set_auth_value i []) ! n" and "rc \<noteq> rc_success T"
  shows "refused_call legacy T api p w (Set_auth_value i []) n rc (provider_step legacy T api p w (Set_auth_value i []))"
proof -
  obtain rc1 b1 where r1: "api_tr_set_auth api (provider_esys p) (pcr_handle T i) (empty_auth T) (backend w) = (rc1, b1)"
    by fastforce
  obtain rc2 b2 where r2: "api_pcr_set_auth_value api (provider_esys p) (pcr_handle T i) (tr_password T)
      (tr_none T) (tr_none T) (empty_auth T) b1 = (rc2, b2)" by fastforce
  obtain rc3 b3 where r3: "api_tr_set_auth api (provider_esys p) (pcr_handle T i) (empty_auth T) b2 = (rc3, b3)"
    by fastforce
  from assms(2) consider "n = 0" | "n = 1" | "n = 2" by linarith
  then show ?thesis
    using assms(3-5) r1 r2 r3
    by cases (simp_all add: refused_call_def numeral_2_eq_2
        provider_set_auth_value_accepted [OF assms(1) r1 r2 r3])
qed

text \<open>
  C6: When the library refuses a command, whichever command of the operation it is, the calls before
  it were made in their order and no call is made after it; the caller gets the translated error of
  exactly its return code, and what follows the command is one error record with that code and the
  name of this command in the operation, then the buffers of the answer handed back; nothing is
  reported to the observer.
\<close>
theorem library_failure_translated:
  assumes "sizes_documented T" and "alg_ids_documented T" and "wf_request legacy q"
    and "provider_esys p = Some e" and "accepted legacy T q"
    and "n < length (library_calls legacy T p q)"
    and "take n (reply_codes legacy T api p (backend w) q) = replicate n (rc_success T)"
    and "rc = reply_codes legacy T api p (backend w) q ! n" and "rc \<noteq> rc_success T"
  shows "fst (provider_step legacy T api p w q) = fails (tss_failure T rc) \<and>
    actions (snd (provider_step legacy T api p w q)) =
      actions w @ map (\<lambda>c. Called (fst c)) (take (Suc n) (library_calls legacy T p q)) @
      map Logged (failure_records T api rc (snd (library_calls legacy T p q ! n))) @
      map Freed (reply_buffers legacy T api p (backend w) q)"
proof -
  note step = step_accepted [OF assms(1-5), of api w]
  have "refused_call legacy T api p w q n rc (provider_step legacy T api p w q)"
  proof (cases q)
    case (Set_auth_value i auth)
    then show ?thesis
      using set_auth_value_refused [OF assms(4), of n legacy T api w i rc] assms(5-9)
      by (simp del: provider_step.simps reply_codes.simps)
  qed (use single_call_refused [OF step] assms(6,8,9) in \<open>simp_all del: provider_step.simps reply_code.simps\<close>)
  then show ?thesis by (simp only: refused_call_def)
qed

text \<open>A library that accepts two calls and refuses every later one.\<close>

definition lab_late_api :: "u32 esys_api" where
  "lab_late_api = lab_api
     \<lparr>api_pcr_set_auth_value := (\<lambda>e h s1 s2 s3 a b. (if b < 2 then 0 else 0x98e, b + 1)),
      api_tr_set_auth := (\<lambda>e h a b. (if b < 2 then 0 else 0x98e, b + 1))\<rparr>"

lemma lab_late_codes:
  "reply_codes False tss_4_1 lab_late_api lab_provider 0 (Set_auth_value i []) = [0, 0, 0x98e]"
  by (simp add: lab_late_api_def lab_api_def)

lemma replicate_2: "replicate 2 x = [x, x]"
  by (simp add: numeral_2_eq_2)

lemma library_failure_translated_witness:
  "fst (provider_step False tss_4_1 lab_late_api lab_provider (lab_world 0) (Set_auth_value (Index 16) [])) =
      fails (tss_failure tss_4_1 0x98e) \<and>
    actions (snd (provider_step False tss_4_1 lab_late_api lab_provider (lab_world 0) (Set_auth_value (Index 16) []))) =
      actions (lab_world 0) @ map (\<lambda>c. Called (fst c))
        (take (Suc 2) (library_calls False tss_4_1 lab_provider (Set_auth_value (Index 16) []))) @
      map Logged (failure_records tss_4_1 lab_late_api 0x98e
        (snd (library_calls False tss_4_1 lab_provider (Set_auth_value (Index 16) []) ! 2))) @
      map Freed (reply_buffers False tss_4_1 lab_late_api lab_provider (backend (lab_world 0)) (Set_auth_value (Index 16) []))"
  by (rule library_failure_translated)
     (simp_all add: wf_index_unat lab_world_def lab_late_codes replicate_2 tss_4_1_fields del: reply_codes.simps)

text \<open>
  C7: Every buffer an answer hands over is handed back exactly once and last, on every path that
  reaches the library: the digests of an event, and the values and then the selection of a read,
  whether the call failed, the answer was malformed or the operation succeeded.
\<close>
theorem buffers_handed_back:
  assumes "sizes_documented T" and "alg_ids_documented T" and "wf_request legacy q"
    and "provider_esys p = Some e" and "accepted legacy T q"
  shows "\<exists>new. actions (snd (provider_step legacy T api p w q)) =
      actions w @ new @ map Freed (reply_buffers legacy T api p (backend w) q) \<and> handed_back new = []"
proof -
  obtain rest where "actions (snd (provider_step legacy T api p w q)) =
        actions w @ Called (first_command legacy T p q) # rest @
        map Freed (reply_buffers legacy T api p (backend w) q)" and "handed_back rest = []"
    using step_accepted [OF assms, of api w] by (auto simp: accepted_step_def)
  then show ?thesis
    by (intro exI [of _ "Called (first_command legacy T p q) # rest"]) simp
qed

lemma buffers_handed_back_witness:
  "\<exists>new. actions (snd (provider_step False tss_4_1 lab_api lab_provider (lab_world 0)
        (Read \<lparr>sel_algorithm = sha256, sel_indices = {Index 1}\<rparr>))) =
      actions (lab_world 0) @ new @ map Freed (reply_buffers False tss_4_1 lab_api lab_provider
        (backend (lab_world 0)) (Read \<lparr>sel_algorithm = sha256, sel_indices = {Index 1}\<rparr>)) \<and>
    handed_back new = []"
  by (rule buffers_handed_back [where e = 1]) (simp_all add: wf_selection_def wf_index_unat)

text \<open>
  C8: Nothing the provider does depends on the bytes of an authorization value: with two values of
  one length the result, the log, the library calls and the state of the world are the same, and a
  value that is not empty reaches no library call at all.
\<close>
theorem auth_value_not_observable:
  assumes "length auth = length auth'"
  shows "provider_set_auth_value T api p i auth w = provider_set_auth_value T api p i auth' w \<and>
    (auth \<noteq> [] \<longrightarrow> snd (provider_set_auth_value T api p i auth w) = w)"
proof (cases "auth = []")
  case True
  with assms show ?thesis by simp
next
  case False
  with assms have "auth' \<noteq> []" by auto
  with False assms show ?thesis
    by (cases "provider_esys p") (simp_all add: no_context provider_set_auth_value_rejected)
qed

lemma auth_value_not_observable_witness:
  "provider_set_auth_value tss_4_1 lab_api lab_provider (Index 5) [1, 2] (lab_world 0) =
     provider_set_auth_value tss_4_1 lab_api lab_provider (Index 5) [3, 4] (lab_world 0) \<and>
   snd (provider_set_auth_value tss_4_1 lab_api lab_provider (Index 5) [1, 2] (lab_world 0)) = lab_world 0"
proof -
  have "length [1, 2 :: byte] = length [3, 4 :: byte]" and nonempty: "[1, 2 :: byte] \<noteq> []" by simp_all
  from auth_value_not_observable [OF this(1), of tss_4_1 lab_api lab_provider "Index 5" "lab_world 0"] nonempty
  show ?thesis by blast
qed

end
