(* ===== verification/Tpm_Context.thy ===== *)
theory Tpm_Context
  imports Tcti_Loader Esys_Pcr_Provider
begin

text \<open>
  \<^verbatim>\<open>src/adapters/tpm2_esys/context/tpm_context.cpp\<close> and \<^verbatim>\<open>impl.h\<close>: creation of a TPM context from a
  configuration string or an owned TCTI handle, the TPM startup, the factory of PCR providers and
  the teardown. Owners are values; the end of a scope deletes what they still own, in reverse order
  of declaration.
\<close>

section \<open>Configuration\<close>

datatype startup_mode = startup_clear | startup_state | startup_skip | unlisted_mode int

text \<open>\<^verbatim>\<open>std::shared_ptr<logger>\<close>: the logger of the caller, or null.\<close>

datatype logger_ref = Caller_logger | Noop_logger

record tpm_context_config =
  cfg_tcti :: string
  cfg_startup :: startup_mode
  cfg_log :: "logger_ref option"

record owned_tcti_context =
  owned_pointer :: ptr
  owned_deleter :: "nat option"

definition is_known_tcti_name :: "string \<Rightarrow> bool" where
  "is_known_tcti_name name \<longleftrightarrow>
     name = ''device'' \<or> name = ''mssim'' \<or> name = ''swtpm'' \<or> name = ''tabrmd''"

text \<open>
  \<^verbatim>\<open>tpm_context.cpp\<close> has its own copies of \<^verbatim>\<open>is_space\<close> and \<^verbatim>\<open>trim\<close>; they agree with those of the loader.
\<close>

definition context_is_space :: "char \<Rightarrow> bool" where
  "context_is_space c \<longleftrightarrow> (let n = (of_char c :: nat) in n = 32 \<or> 9 \<le> n \<and> n \<le> 13)"

function context_trim_first :: "string \<Rightarrow> nat \<Rightarrow> nat \<Rightarrow> nat" where
  "context_trim_first value lo hi =
     (if lo < hi \<and> context_is_space (value ! lo) then context_trim_first value (lo + 1) hi else lo)"
  by pat_completeness auto
termination by (relation "measure (\<lambda>(value, lo, hi). hi - lo)") auto

function context_trim_last :: "string \<Rightarrow> nat \<Rightarrow> nat \<Rightarrow> nat" where
  "context_trim_last value lo hi =
     (if hi > lo \<and> context_is_space (value ! (hi - 1)) then context_trim_last value lo (hi - 1) else hi)"
  by pat_completeness auto
termination by (relation "measure (\<lambda>(value, lo, hi). hi)") auto

declare context_trim_first.simps [simp del] context_trim_last.simps [simp del]

definition context_trim :: "string \<Rightarrow> string" where
  "context_trim value =
     (let lo = context_trim_first value 0 (length value);
          hi = context_trim_last value lo (length value)
      in take (hi - lo) (drop lo value))"

lemma context_trim_eq [simp]: "context_trim v = trim v"
proof -
  have space: "context_is_space = is_space"
    by (simp add: fun_eq_iff context_is_space_def is_space_def)
  have "context_trim_first v lo hi = trim_first v lo hi" for v lo hi
    by (induction v lo hi rule: trim_first.induct)
       (simp add: context_trim_first.simps trim_first.simps space)
  moreover have "context_trim_last v lo hi = trim_last v lo hi" for v lo hi
    by (induction v lo hi rule: trim_last.induct)
       (simp add: context_trim_last.simps trim_last.simps space)
  ultimately show ?thesis by (simp add: context_trim_def trim_def)
qed

definition sanitized_tcti_name :: "string \<Rightarrow> string" where
  "sanitized_tcti_name config =
     (let trimmed = context_trim config; colon = find_char (CHR '':'') trimmed in
      if trimmed = [] \<or> length trimmed \<noteq> length config \<or> colon = None \<or> colon = Some 0 then []
      else let name = take (the colon) trimmed in
        if is_known_tcti_name name then name else ''<custom>'')"

definition effective_logger :: "logger_ref option \<Rightarrow> logger_ref" where
  "effective_logger log = (case log of Some l \<Rightarrow> l | None \<Rightarrow> Noop_logger)"

definition log_tcti_event :: "event_descriptor \<Rightarrow> string \<Rightarrow> string \<Rightarrow> log_call list" where
  "log_tcti_event event kind name =
     emit_success_record True event [fld ''tcti_kind'' kind, fld ''tcti_name'' name]"

fun startup_mode_name :: "startup_mode \<Rightarrow> string" where
  "startup_mode_name startup_clear = ''clear''"
| "startup_mode_name startup_state = ''state''"
| "startup_mode_name startup_skip = ''skip''"
| "startup_mode_name (unlisted_mode n) = ''unknown''"

fun is_valid_startup_mode :: "startup_mode \<Rightarrow> bool" where
  "is_valid_startup_mode startup_clear = True"
| "is_valid_startup_mode startup_state = True"
| "is_valid_startup_mode startup_skip = True"
| "is_valid_startup_mode (unlisted_mode n) = False"

definition validate_context_config :: "tpm_context_config \<Rightarrow> unit outcome" where
  "validate_context_config config =
     (if \<not> is_valid_startup_mode (cfg_startup config)
      then Inl (err input_error ''TPM startup mode is invalid'') else Inr ())"

fun startup_type :: "tss \<Rightarrow> startup_mode \<Rightarrow> u16" where
  "startup_type T startup_clear = su_clear T"
| "startup_type T startup_state = su_state T"
| "startup_type T startup_skip = su_clear T"
| "startup_type T (unlisted_mode n) = su_clear T"

definition abi_version_string :: "abi_version \<Rightarrow> string" where
  "abi_version_string v =
     decimal_string (unat (abi_creator v)) @ ''.'' @ decimal_string (unat (abi_family v)) @ ''.'' @
     decimal_string (unat (abi_level v)) @ ''.'' @ decimal_string (unat (abi_revision v))"

section \<open>Creation\<close>

definition resolve_tcti ::
  "tss \<Rightarrow> 'b host \<Rightarrow> 'b tcti_loader_api \<Rightarrow> string \<Rightarrow> ('b, 'e, tcti_handle) operation" where
  "resolve_tcti T H tcti_api config w =
     (let name = sanitized_tcti_name config;
          w = (if name \<noteq> [] then write_log (log_tcti_event ev_tcti_configuring ''string'' name) w else w)
      in case load_tcti T H tcti_api config w of
           (Inl f, w) \<Rightarrow> (Inl f, w)
         | (Inr (Inl e), w) \<Rightarrow> (fails e, w)
         | (Inr (Inr handle), w) \<Rightarrow>
             (returns handle, write_log (log_tcti_event ev_tcti_configured ''string'' name) w))"

text \<open>The result is the raw pointer the \<^verbatim>\<open>unique_esys_ptr\<close> holds.\<close>

definition initialize_esys :: "tss \<Rightarrow> 'b esys_api \<Rightarrow> ptr \<Rightarrow> ('b, 'e, ptr) operation" where
  "initialize_esys T api tcti w =
     (let ((rc, raw_esys, version), b) = api_initialize api tcti (abi_version_current T) (backend w);
          w = act (Called (Esys_Initialize tcti raw_esys)) (w\<lparr>backend := b\<rparr>)
      in if rc \<noteq> rc_success T
         then report_context_failure T (api_decode_error api) rc ''esys_initialize'' w
         else (returns raw_esys,
               write_log (emit_success_record True ev_esys_initialized
                            [fld ''abi_version'' (abi_version_string version)]) w))"

definition is_startup_already_initialized :: "tss \<Rightarrow> u32 \<Rightarrow> bool" where
  "is_startup_already_initialized T rc \<longleftrightarrow> rc = tpm_rc_code T INITIALIZE"

definition startup_result_field :: "tss \<Rightarrow> u32 \<Rightarrow> string" where
  "startup_result_field T rc =
     (if is_startup_already_initialized T rc then ''already_initialized'' else ''ok'')"

definition start_tpm :: "tss \<Rightarrow> 'b esys_api \<Rightarrow> ptr \<Rightarrow> startup_mode \<Rightarrow> ('b, 'e, unit) operation" where
  "start_tpm T api esys mode w =
     (let mode_name = startup_mode_name mode;
          w = write_log (emit_success_record True ev_startup_invoked [fld ''startup_mode'' mode_name]) w
      in if mode = startup_skip
         then (returns (), write_log (emit_success_record True ev_startup_completed
                 [fld ''startup_mode'' mode_name, fld ''result'' ''skipped'']) w)
         else let (rc, w) = invoke (Esys_Startup esys (startup_type T mode))
                              (api_startup api esys (startup_type T mode)) w
              in if rc \<noteq> rc_success T \<and> \<not> is_startup_already_initialized T rc
                 then report_context_failure T (api_decode_error api) rc ''esys_startup'' w
                 else (returns (), write_log (emit_success_record True ev_startup_completed
                         [fld ''startup_mode'' mode_name,
                          fld ''result'' (startup_result_field T rc)]) w))"

text \<open>The context: \<open>None\<close> is the moved-from context without \<^verbatim>\<open>impl\<close>.\<close>

record context_impl =
  ctx_tcti :: tcti_handle
  ctx_esys :: ptr
  ctx_log :: logger_ref

type_synonym tpm_context = "context_impl option"

definition create_from_resolved_tcti ::
  "tss \<Rightarrow> 'b host \<Rightarrow> 'b esys_api \<Rightarrow> tcti_handle \<Rightarrow> startup_mode \<Rightarrow> logger_ref \<Rightarrow>
   ('b, 'e, tpm_context) operation" where
  "create_from_resolved_tcti T H api tcti startup log w =
     (case initialize_esys T api (tcti_pointer tcti) w of
        (Inl f, w) \<Rightarrow> (Inl f, delete_tcti H tcti w)
      | (Inr (Inl e), w) \<Rightarrow> (fails e, delete_tcti H tcti w)
      | (Inr (Inr esys), w) \<Rightarrow>
          (case start_tpm T api esys startup w of
             (Inl f, w) \<Rightarrow> (Inl f, delete_tcti H tcti (esys_context_delete (Some api) esys w))
           | (Inr (Inl e), w) \<Rightarrow> (fails e, delete_tcti H tcti (esys_context_delete (Some api) esys w))
           | (Inr (Inr u), w) \<Rightarrow>
               (returns (Some \<lparr>ctx_tcti = tcti, ctx_esys = esys, ctx_log = log\<rparr>), w)))"

definition create_context_from_config ::
  "tss \<Rightarrow> 'b host \<Rightarrow> 'b tcti_loader_api \<Rightarrow> 'b esys_api \<Rightarrow> tpm_context_config \<Rightarrow>
   ('b, 'e, tpm_context) operation" where
  "create_context_from_config T H tcti_api api config w =
     (case validate_context_config config of
        Inl e \<Rightarrow> (fails e, w)
      | Inr u \<Rightarrow>
          let log = effective_logger (cfg_log config) in
          case resolve_tcti T H tcti_api (cfg_tcti config) w of
            (Inl f, w) \<Rightarrow> (Inl f, w)
          | (Inr (Inl e), w) \<Rightarrow> (fails e, w)
          | (Inr (Inr handle), w) \<Rightarrow>
              create_from_resolved_tcti T H api handle (cfg_startup config) log w)"

text \<open>
  The owned handle is a pointer with a function pointer to its deleter. At the end of its scope a
  handle that is not null is deleted, through a null function pointer if the caller gave one.
\<close>

definition drop_owned :: "'b host \<Rightarrow> owned_tcti_context \<Rightarrow> error \<Rightarrow> ('b, 'e, 'a) operation" where
  "drop_owned H owned e w =
     (case owned_pointer owned of
        None \<Rightarrow> (fails e, w)
      | Some p \<Rightarrow>
          (case owned_deleter owned of
             None \<Rightarrow> (Inl bad_dereference, w)
           | Some f \<Rightarrow>
               (fails e, delete_tcti H \<lparr>tcti_pointer = Some p, tcti_delete_with = Owner_supplied f\<rparr> w)))"

definition create_context_from_owned_tcti ::
  "tss \<Rightarrow> 'b host \<Rightarrow> 'b esys_api \<Rightarrow> owned_tcti_context \<Rightarrow> startup_mode \<Rightarrow> logger_ref option \<Rightarrow>
   ('b, 'e, tpm_context) operation" where
  "create_context_from_owned_tcti T H api owned startup log w =
     (if \<not> is_valid_startup_mode startup
      then drop_owned H owned (err input_error ''TPM startup mode is invalid'') w
      else case owned_pointer owned of
        None \<Rightarrow> drop_owned H owned (err input_error ''TCTI owned handle must not be null'') w
      | Some p \<Rightarrow>
          (case owned_deleter owned of
             None \<Rightarrow> drop_owned H (owned\<lparr>owned_pointer := None\<rparr>)
                       (err input_error ''TCTI owned handle deleter must not be null'') w
           | Some f \<Rightarrow>
               let effective_log = effective_logger log;
                   w = write_log (log_tcti_event ev_tcti_configuring ''owned_handle'' ''<owned>'') w;
                   owned_tcti = \<lparr>tcti_pointer = Some p, tcti_delete_with = Owner_supplied f\<rparr>;
                   w = write_log (log_tcti_event ev_tcti_configured ''owned_handle'' ''<owned>'') w
               in create_from_resolved_tcti T H api owned_tcti startup effective_log w))"

definition tpm_context_create ::
  "tss \<Rightarrow> 'b host \<Rightarrow> 'b tcti_loader_api \<Rightarrow> 'b esys_api \<Rightarrow> tpm_context_config \<Rightarrow>
   ('b, 'e, tpm_context) operation" where
  "tpm_context_create T H tcti_lib lib config =
     create_context_from_config T H (default_tcti_loader_api tcti_lib) (default_esys_api lib) config"

definition tpm_context_create_string ::
  "tss \<Rightarrow> 'b host \<Rightarrow> 'b tcti_loader_api \<Rightarrow> 'b esys_api \<Rightarrow> string \<Rightarrow> startup_mode \<Rightarrow>
   logger_ref option \<Rightarrow> ('b, 'e, tpm_context) operation" where
  "tpm_context_create_string T H tcti_lib lib tcti_config startup log =
     tpm_context_create T H tcti_lib lib
       \<lparr>cfg_tcti = tcti_config, cfg_startup = startup, cfg_log = log\<rparr>"

definition create_context ::
  "tss \<Rightarrow> 'b host \<Rightarrow> 'b esys_api \<Rightarrow> owned_tcti_context \<Rightarrow> startup_mode \<Rightarrow> logger_ref option \<Rightarrow>
   ('b, 'e, tpm_context) operation" where
  "create_context T H lib owned startup log =
     create_context_from_owned_tcti T H (default_esys_api lib) owned startup log"

section \<open>Use and teardown\<close>

text \<open>
  The destructor body logs; then the members are destroyed in reverse order of declaration, the
  ESYS context before the TCTI it uses.
\<close>

definition destroy_context_impl :: "'b host \<Rightarrow> 'b esys_api \<Rightarrow> context_impl \<Rightarrow> ('b, 'e) world \<Rightarrow> ('b, 'e) world" where
  "destroy_context_impl H api ctx w =
     (let w = write_log (emit_success_record True ev_finalized []) w;
          w = esys_context_delete (Some api) (ctx_esys ctx) w
      in delete_tcti H (ctx_tcti ctx) w)"

definition destroy_context :: "'b host \<Rightarrow> 'b esys_api \<Rightarrow> tpm_context \<Rightarrow> ('b, 'e) world \<Rightarrow> ('b, 'e) world" where
  "destroy_context H api ctx w =
     (case ctx of None \<Rightarrow> w | Some i \<Rightarrow> destroy_context_impl H api i w)"

text \<open>The moves return the new target and the new source.\<close>

definition move_context :: "tpm_context \<Rightarrow> tpm_context \<times> tpm_context" where
  "move_context other = (other, None)"

definition assign_context ::
  "'b host \<Rightarrow> 'b esys_api \<Rightarrow> tpm_context \<Rightarrow> tpm_context \<Rightarrow> ('b, 'e) world \<Rightarrow>
   (tpm_context \<times> tpm_context) \<times> ('b, 'e) world" where
  "assign_context H api target source w = ((source, None), destroy_context H api target w)"

definition create_pcr_provider :: "tpm_context \<Rightarrow> bool \<Rightarrow> provider outcome" where
  "create_pcr_provider ctx has_observer =
     (case ctx of
        None \<Rightarrow> Inl (err resource_error ''TPM context does not contain a usable backend'')
      | Some i \<Rightarrow>
          if ctx_esys i = None
          then Inl (err resource_error ''TPM context does not contain a usable backend'')
          else Inr (new_esys_pcr_provider (ctx_esys i) has_observer))"

section \<open>What creation and teardown leave behind\<close>

text \<open>\<^verbatim>\<open>Esys_Initialize\<close> hands out no context when it fails.\<close>

definition init_null_on_failure :: "tss \<Rightarrow> 'b esys_api \<Rightarrow> bool" where
  "init_null_on_failure T api \<longleftrightarrow>
     (\<forall>t v b. fst (fst (api_initialize api t v b)) \<noteq> rc_success T \<longrightarrow>
        fst (snd (fst (api_initialize api t v b))) = None)"

definition addresses :: "ptr \<Rightarrow> nat list" where
  "addresses p = (case p of None \<Rightarrow> [] | Some a \<Rightarrow> [a])"

lemma addresses_simps [simp]: "addresses None = []" "addresses (Some a) = [a]"
  by (simp_all add: addresses_def)

definition no_handles :: "'e action list \<Rightarrow> bool" where
  "no_handles new \<longleftrightarrow> tcti_opened new = [] \<and> tcti_closed new = [] \<and> esys_opened new = [] \<and> esys_closed new = []"

lemma no_handles_simps [simp]:
  "no_handles []" "no_handles (map Logged cs)" "no_handles (as @ bs) \<longleftrightarrow> no_handles as \<and> no_handles bs"
  "no_handles (Called (Esys_Startup e t) # as) \<longleftrightarrow> no_handles as"
  by (auto simp: no_handles_def)

lemma discreet_success:
  "(\<forall>f \<in> set fs. field_key f = ''tcti_name'' \<longrightarrow> field_value f \<in> public_tcti_names) \<Longrightarrow>
   discreet (map Logged (emit_success_record True event fs))"
  unfolding emit_success_record_eq by (simp add: discreet_def)

lemma discreet_lifecycle [simp]:
  "discreet (map Logged (emit_success_record True event [fld ''startup_mode'' m]))"
  "discreet (map Logged (emit_success_record True event [fld ''startup_mode'' m, fld ''result'' r]))"
  "discreet (map Logged (emit_success_record True event [fld ''abi_version'' v]))"
  "discreet (map Logged (emit_success_record True event []))"
  by (rule discreet_success; simp)+

lemma is_known_public: "is_known_tcti_name n \<Longrightarrow> n \<in> public_tcti_names"
  by (auto simp: is_known_tcti_name_def public_tcti_names_def)

lemma sanitized_name_public: "sanitized_tcti_name config = [] \<or> sanitized_tcti_name config \<in> public_tcti_names"
proof -
  have "''<custom>'' \<in> public_tcti_names" by (simp add: public_tcti_names_def)
  then show ?thesis
    using is_known_public by (simp add: sanitized_tcti_name_def Let_def)
qed

lemma sanitized_name_empty_iff: "sanitized_tcti_name config = [] \<longleftrightarrow> \<not> wf_tcti_config config"
proof (cases "config \<noteq> [] \<and> length (trim config) = length config")
  case True
  then have t: "trim config = config" using trim_whole by auto
  have shape: "find_char (CHR '':'') config \<noteq> None \<and> find_char (CHR '':'') config \<noteq> Some 0 \<longleftrightarrow>
      has_name_args_shape config"
    by (auto simp: has_name_args_shape_def split: option.splits)
  show ?thesis
  proof (cases "find_char (CHR '':'') config")
    case None
    with True t shape has_shape_iff [of config] show ?thesis
      by (auto simp: sanitized_tcti_name_def Let_def wf_tcti_config_def)
  next
    case (Some n)
    have "n \<noteq> 0 \<Longrightarrow> take n config \<noteq> []" using True by auto
    with True t shape Some has_shape_iff [of config] trim_length_iff [of config] show ?thesis
      by (auto simp: sanitized_tcti_name_def Let_def wf_tcti_config_def is_known_tcti_name_def)
  qed
next
  case False
  then show ?thesis using trim_length_iff [of config]
    by (auto simp: sanitized_tcti_name_def Let_def wf_tcti_config_def)
qed

lemma log_tcti_discreet:
  "name \<in> public_tcti_names \<Longrightarrow> discreet (map Logged (log_tcti_event event kind name))"
  unfolding log_tcti_event_def by (rule discreet_success) simp

lemma resolve_tcti_leaves: "leaves w (no_leak loaded) (resolve_tcti T H api config w)"
proof -
  let ?name = "sanitized_tcti_name config"
  let ?pre = "if ?name \<noteq> [] then map Logged (log_tcti_event ev_tcti_configuring ''string'' ?name) else []"
  let ?w = "if ?name \<noteq> [] then write_log (log_tcti_event ev_tcti_configuring ''string'' ?name) w else w"
  have w: "actions ?w = actions w @ ?pre" by simp
  have pub: "?name \<in> public_tcti_names" if "?name \<noteq> []"
    using sanitized_name_public [of config] that by auto
  obtain r w' new where load: "load_tcti T H api config ?w = (r, w')"
    and new: "actions w' = actions ?w @ new" "no_leak loaded new r"
    using leavesE [OF load_tcti_leaves [of ?w T H api config]] by blast
  show ?thesis
  proof (cases r rule: try_cases)
    case (abrupt f)
    with new show ?thesis by simp
  next
    case (failed e)
    with load new w show ?thesis
      by (intro leavesI [of _ _ "?pre @ new"]) (auto simp: resolve_tcti_def Let_def log_tcti_discreet [OF pub])
  next
    case (returned h)
    have "wf_tcti_config config"
    proof (rule ccontr)
      assume "\<not> wf_tcti_config config"
      with load returned show False by (simp add: load_tcti_def validate_config_eq)
    qed
    then have name: "?name \<in> public_tcti_names"
      using sanitized_name_empty_iff sanitized_name_public by blast
    let ?post = "map Logged (log_tcti_event ev_tcti_configured ''string'' ?name)"
    from load new w returned show ?thesis
      by (intro leavesI [of _ _ "?pre @ new @ ?post"])
         (auto simp: resolve_tcti_def Let_def loaded_def log_tcti_discreet [OF name])
  qed
qed

lemma esys_context_delete_leaves:
  "actions (esys_context_delete (Some api) esys w) =
     actions w @ map (\<lambda>e. Called (Esys_Finalize (Some e))) (addresses esys)"
  by (cases esys) (simp_all add: esys_context_delete_def)

definition esys_ready :: "ptr \<Rightarrow> 'e action list \<Rightarrow> bool" where
  "esys_ready esys new \<longleftrightarrow>
     esys_opened new = addresses esys \<and> esys_closed new = [] \<and> tcti_opened new = [] \<and> tcti_closed new = []"

lemma initialize_esys_leaves:
  assumes "init_null_on_failure T api"
  shows "leaves w (\<lambda>new r. no_leak esys_ready new r \<and> tcti_opened new = [] \<and> tcti_closed new = [])
           (initialize_esys T api tcti w)"
proof -
  obtain rc raw version b where reply: "api_initialize api tcti (abi_version_current T) (backend w) = ((rc, raw, version), b)"
    by (metis prod.exhaust)
  show ?thesis
  proof (cases "rc = rc_success T")
    case True
    from True reply show ?thesis
      by (intro leavesI [of _ _ "Called (Esys_Initialize tcti raw) # map Logged (emit_success_record True
            ev_esys_initialized [fld ''abi_version'' (abi_version_string version)])"])
         (cases raw; simp_all add: initialize_esys_def esys_ready_def)+
  next
    case False
    with reply assms have raw: "raw = None"
      unfolding init_null_on_failure_def by (metis fst_conv snd_conv)
    let ?rec = "log_tss_error T True rc (rc_layer T rc) (mapped_category (rc_error T rc)) ''esys_initialize''
        ev_tss_error (api_decode_error api)"
    from False reply raw show ?thesis
      by (intro leavesI [of _ _ "Called (Esys_Initialize tcti None) # map Logged ?rec"])
         (simp_all add: initialize_esys_def report_context_failure_eq rc_error_listed)
  qed
qed

lemma start_tpm_leaves:
  "leaves w (\<lambda>new r. no_leak (\<lambda>u new. True) new r \<and> no_handles new) (start_tpm T api esys mode w)"
proof -
  let ?i = "map Logged (emit_success_record True ev_startup_invoked [fld ''startup_mode'' (startup_mode_name mode)])"
  show ?thesis
  proof (cases "mode = startup_skip")
    case True
    then show ?thesis
      by (intro leavesI [of _ _ "?i @ map Logged (emit_success_record True ev_startup_completed
             [fld ''startup_mode'' (startup_mode_name mode), fld ''result'' ''skipped''])"])
         (simp_all add: start_tpm_def Let_def)
  next
    case False
    obtain rc b where reply: "api_startup api esys (startup_type T mode) (backend w) = (rc, b)"
      by (metis prod.exhaust)
    let ?c = "[Called (Esys_Startup esys (startup_type T mode))]"
    show ?thesis
    proof (cases "rc \<noteq> rc_success T \<and> \<not> is_startup_already_initialized T rc")
      case True
      let ?rec = "log_tss_error T True rc (rc_layer T rc) (mapped_category (rc_error T rc)) ''esys_startup''
        ev_tss_error (api_decode_error api)"
      from True False reply show ?thesis
        by (intro leavesI [of _ _ "?i @ ?c @ map Logged ?rec"])
           (simp_all add: start_tpm_def report_context_failure_eq rc_error_listed invoke_def Let_def write_log_def)
    next
      case ok_rc: False
      from ok_rc False reply show ?thesis
        by (intro leavesI [of _ _ "?i @ ?c @ map Logged (emit_success_record True ev_startup_completed
             [fld ''startup_mode'' (startup_mode_name mode), fld ''result'' (startup_result_field T rc)])"])
           (auto simp: start_tpm_def invoke_def Let_def write_log_def)
    qed
  qed
qed

text \<open>
  Creation from a handle takes the handle over: it deletes it on failure, and keeps it on success.
\<close>

definition took_over :: "tcti_handle \<Rightarrow> 'e action list \<Rightarrow> tpm_context call \<Rightarrow> bool" where
  "took_over h new r \<longleftrightarrow> discreet new \<and> tcti_opened new = [] \<and>
     (case r of
        Inl f \<Rightarrow> False
      | Inr (Inl e) \<Rightarrow> listed_category (category e) \<and> tcti_closed new = addresses (tcti_pointer h) \<and>
          esys_closed new = esys_opened new
      | Inr (Inr ctx) \<Rightarrow> \<exists>i. ctx = Some i \<and> ctx_tcti i = h \<and> tcti_closed new = [] \<and>
          esys_opened new = addresses (ctx_esys i) \<and> esys_closed new = [])"

lemma took_over_simps [simp]:
  "took_over h new (fails e) \<longleftrightarrow> discreet new \<and> tcti_opened new = [] \<and> listed_category (category e) \<and>
     tcti_closed new = addresses (tcti_pointer h) \<and> esys_closed new = esys_opened new"
  "took_over h new (returns (Some i)) \<longleftrightarrow> discreet new \<and> tcti_opened new = [] \<and> ctx_tcti i = h \<and>
     tcti_closed new = [] \<and> esys_opened new = addresses (ctx_esys i) \<and> esys_closed new = []"
  "\<not> took_over h new (Inl f)"
  by (simp_all add: took_over_def)

lemma delete_tcti_actions:
  "\<exists>d. actions (delete_tcti H h w) = actions w @ d \<and> tcti_closed d = addresses (tcti_pointer h) \<and>
     tcti_opened d = [] \<and> esys_opened d = [] \<and> esys_closed d = [] \<and> discreet d"
  using delete_tcti_leaves [of w h H] by (auto simp: leaves_def addresses_def)

lemma finalize_esys_trace [simp]:
  "tcti_opened (map (\<lambda>e. Called (Esys_Finalize (Some e))) es) = []"
  "tcti_closed (map (\<lambda>e. Called (Esys_Finalize (Some e))) es) = []"
  "esys_opened (map (\<lambda>e. Called (Esys_Finalize (Some e))) es) = []"
  "esys_closed (map (\<lambda>e. Called (Esys_Finalize (Some e))) es) = es"
  "discreet (map (\<lambda>e. Called (Esys_Finalize (Some e))) es)"
  by (induction es) simp_all

lemma create_from_resolved_leaves:
  assumes "init_null_on_failure T api"
  shows "leaves w (took_over h) (create_from_resolved_tcti T H api h startup log w)"
proof -
  obtain r1 w1 new1 where init: "initialize_esys T api (tcti_pointer h) w = (r1, w1)"
    and new1: "actions w1 = actions w @ new1" "no_leak esys_ready new1 r1" "tcti_opened new1 = []" "tcti_closed new1 = []"
    using leavesE [OF initialize_esys_leaves [OF assms, of w "tcti_pointer h"]] by blast
  show ?thesis
  proof (cases r1 rule: try_cases)
    case (failed e)
    obtain d where "actions (delete_tcti H h w1) = actions w1 @ d" "tcti_closed d = addresses (tcti_pointer h)"
      "tcti_opened d = []" "esys_opened d = []" "esys_closed d = []" "discreet d"
      using delete_tcti_actions by blast
    with failed init new1 show ?thesis
      by (intro leavesI [of _ _ "new1 @ d"]) (simp_all add: create_from_resolved_tcti_def)
  next
    case (returned esys)
    obtain r2 w2 new2 where start: "start_tpm T api esys startup w1 = (r2, w2)"
      and new2: "actions w2 = actions w1 @ new2" "no_leak (\<lambda>u new. True) new2 r2" "no_handles new2"
      using leavesE [OF start_tpm_leaves [of w1 T api esys startup]] by blast
    show ?thesis
    proof (cases r2 rule: try_cases)
      case (failed e)
      let ?w3 = "esys_context_delete (Some api) esys w2"
      obtain d where "actions (delete_tcti H h ?w3) = actions ?w3 @ d" "tcti_closed d = addresses (tcti_pointer h)"
        "tcti_opened d = []" "esys_opened d = []" "esys_closed d = []" "discreet d"
        using delete_tcti_actions by blast
      with failed returned init start new1 new2 show ?thesis
        by (intro leavesI [of _ _ "new1 @ new2 @ map (\<lambda>e. Called (Esys_Finalize (Some e))) (addresses esys) @ d"])
           (simp_all add: create_from_resolved_tcti_def esys_context_delete_leaves esys_ready_def no_handles_def)
    next
      case (returned u)
      with \<open>r1 = returns esys\<close> init start new1 new2 show ?thesis
        by (intro leavesI [of _ _ "new1 @ new2"])
           (simp_all add: create_from_resolved_tcti_def esys_ready_def no_handles_def)
    qed (use new2 in simp)
  qed (use new1 in simp)
qed

definition context_open :: "tpm_context \<Rightarrow> 'e action list \<Rightarrow> bool" where
  "context_open ctx new \<longleftrightarrow>
     (\<exists>i p. ctx = Some i \<and> ctx_tcti i = \<lparr>tcti_pointer = Some p, tcti_delete_with = Finalize_loaded_tcti\<rparr> \<and>
        tcti_opened new = [p] \<and> tcti_closed new = [] \<and>
        esys_opened new = addresses (ctx_esys i) \<and> esys_closed new = [])"

lemma create_from_config_leaves:
  assumes "init_null_on_failure T api"
  shows "leaves w (no_leak context_open) (create_context_from_config T H tcti_api api config w)"
proof (cases "is_valid_startup_mode (cfg_startup config)")
  case False
  then show ?thesis
    by (intro leavesI [of _ _ "[]"]) (simp_all add: create_context_from_config_def validate_context_config_def)
next
  case True
  obtain r1 w1 new1 where res: "resolve_tcti T H tcti_api (cfg_tcti config) w = (r1, w1)"
    and new1: "actions w1 = actions w @ new1" "no_leak loaded new1 r1"
    using leavesE [OF resolve_tcti_leaves [of w T H tcti_api "cfg_tcti config"]] by blast
  show ?thesis
  proof (cases r1 rule: try_cases)
    case (failed e)
    with True res new1 show ?thesis
      by (intro leavesI [of _ _ new1])
         (simp_all add: create_context_from_config_def validate_context_config_def Let_def)
  next
    case (returned h)
    obtain r2 w2 new2 where create: "create_from_resolved_tcti T H api h (cfg_startup config)
          (effective_logger (cfg_log config)) w1 = (r2, w2)"
      and new2: "actions w2 = actions w1 @ new2" "took_over h new2 r2"
      using leavesE [OF create_from_resolved_leaves [OF assms, of w1 h]] by blast
    obtain p where h: "h = \<lparr>tcti_pointer = Some p, tcti_delete_with = Finalize_loaded_tcti\<rparr>"
      "tcti_opened new1 = [p]" "tcti_closed new1 = []" "esys_opened new1 = []" "esys_closed new1 = []" "discreet new1"
      using new1 returned by (auto simp: loaded_def)
    have eq: "create_context_from_config T H tcti_api api config w = (r2, w2)"
      using True res returned create by (simp add: create_context_from_config_def validate_context_config_def Let_def)
    show ?thesis unfolding eq
    proof (rule leavesI [of _ _ "new1 @ new2"])
      show "no_leak context_open (new1 @ new2) (fst (r2, w2))"
        using new2 h by (cases r2 rule: try_cases) (auto simp: took_over_def context_open_def)
    qed (use new1 new2 in simp)
  qed (use new1 in simp)
qed

lemma drop_owned_leaves:
  "owned_deleter owned \<noteq> None \<Longrightarrow>
   leaves w (\<lambda>new r. r = fails e \<and> tcti_closed new = addresses (owned_pointer owned) \<and>
       tcti_opened new = [] \<and> esys_opened new = [] \<and> esys_closed new = [] \<and> discreet new)
     (drop_owned H owned e w)"
proof (cases "owned_pointer owned")
  case None
  then show ?thesis by (intro leavesI [of _ _ "[]"]) (simp_all add: drop_owned_def)
next
  case (Some p)
  assume "owned_deleter owned \<noteq> None"
  then obtain f where f: "owned_deleter owned = Some f" by auto
  let ?h = "\<lparr>tcti_pointer = Some p, tcti_delete_with = Owner_supplied f\<rparr>"
  obtain d where "actions (delete_tcti H ?h w) = actions w @ d" "tcti_closed d = addresses (tcti_pointer ?h)"
     "tcti_opened d = []" "esys_opened d = []" "esys_closed d = []" "discreet d"
    using delete_tcti_actions by blast
  with Some f show ?thesis by (intro leavesI [of _ _ d]) (simp_all add: drop_owned_def)
qed

lemma create_from_owned_leaves:
  assumes "init_null_on_failure T api" and "owned_deleter owned = Some f"
  shows "leaves w (\<lambda>new r. discreet new \<and> tcti_opened new = [] \<and>
      (case r of
         Inl x \<Rightarrow> False
       | Inr (Inl e) \<Rightarrow> listed_category (category e) \<and>
           tcti_closed new = addresses (owned_pointer owned) \<and> esys_closed new = esys_opened new
       | Inr (Inr ctx) \<Rightarrow> \<exists>i. ctx = Some i \<and>
           ctx_tcti i = \<lparr>tcti_pointer = owned_pointer owned, tcti_delete_with = Owner_supplied f\<rparr> \<and>
           owned_pointer owned \<noteq> None \<and> is_valid_startup_mode startup \<and> tcti_closed new = [] \<and>
           esys_opened new = addresses (ctx_esys i) \<and> esys_closed new = []))
    (create_context_from_owned_tcti T H api owned startup log w)"
proof (cases "is_valid_startup_mode startup \<and> owned_pointer owned \<noteq> None")
  case False
  obtain e where e: "create_context_from_owned_tcti T H api owned startup log w = drop_owned H owned e w"
    "listed_category (category e)"
    using False by (cases "is_valid_startup_mode startup")
      (auto simp: create_context_from_owned_tcti_def)
  have d: "owned_deleter owned \<noteq> None" using assms(2) by simp
  obtain r w' new where "drop_owned H owned e w = (r :: tpm_context call, w')" "actions w' = actions w @ new" "r = fails e"
     "tcti_closed new = addresses (owned_pointer owned)" "tcti_opened new = []" "esys_opened new = []"
     "esys_closed new = []" "discreet new"
    using leavesE [OF drop_owned_leaves [OF d, of w e H]] by blast
  with e show ?thesis by (intro leavesI [of _ _ new]) simp_all
next
  case True
  then obtain p where p: "owned_pointer owned = Some p" by auto
  let ?h = "\<lparr>tcti_pointer = Some p, tcti_delete_with = Owner_supplied f\<rparr>"
  let ?logs = "log_tcti_event ev_tcti_configuring ''owned_handle'' ''<owned>'' @
               log_tcti_event ev_tcti_configured ''owned_handle'' ''<owned>''"
  let ?w = "write_log ?logs w"
  have eq: "create_context_from_owned_tcti T H api owned startup log w =
      create_from_resolved_tcti T H api ?h startup (effective_logger log) ?w"
    using True p assms(2) by (simp add: create_context_from_owned_tcti_def write_log_def Let_def)
  obtain r w' new where x: "create_from_resolved_tcti T H api ?h startup (effective_logger log) ?w = (r, w')"
    "actions w' = actions ?w @ new" "took_over ?h new r"
    using leavesE [OF create_from_resolved_leaves [OF assms(1), of ?w ?h]] by blast
  have logs: "discreet (map Logged ?logs)"
    by (simp add: log_tcti_discreet public_tcti_names_def)
  show ?thesis
    unfolding eq using x p True logs
    by (intro leavesI [of _ _ "map Logged ?logs @ new"])
       (auto simp: took_over_def log_tcti_discreet public_tcti_names_def split: sum.splits)
qed

lemma destroy_loaded_context:
  assumes "ctx_tcti i = \<lparr>tcti_pointer = Some p, tcti_delete_with = Finalize_loaded_tcti\<rparr>"
  shows "actions (destroy_context H api (Some i) w) = actions w @
     map Logged (emit_success_record True ev_finalized []) @
     map (\<lambda>e. Called (Esys_Finalize (Some e))) (addresses (ctx_esys i)) @ [Called (Tcti_Finalize (Some p))]"
  using assms
  by (simp add: destroy_context_def destroy_context_impl_def delete_tcti_def finalize_loaded_tcti_def
      esys_context_delete_leaves Let_def)

section \<open>An instance of the libraries\<close>

definition lab_host :: "u32 host" where
  "lab_host =
     \<lparr>tctildr_finalize = (\<lambda>c b. (None, b)), host_calloc = (\<lambda>n b. (Some 50, b)),
      host_free = (\<lambda>p b. b), owner_deleter = (\<lambda>f p b. b)\<rparr>"

definition lab_tcti_api :: "u32 tcti_loader_api" where
  "lab_tcti_api =
     \<lparr>ld_get_info = (\<lambda>name b. ((0, Some 40), b)), ld_free_info = (\<lambda>p b. b),
      ld_init = (\<lambda>c n conf b. ((0, 64), b)), ld_decode_error = None\<rparr>"

lemma lab_init_null: "init_null_on_failure tss_4_1 (lab_api\<lparr>api_initialize := \<lambda>t v b. ((0, Some 1, v), b)\<rparr>)"
  by (simp add: init_null_on_failure_def tss_4_1_fields)

definition lab_config :: tpm_context_config where
  "lab_config = \<lparr>cfg_tcti = ''swtpm:port=2321'', cfg_startup = startup_clear, cfg_log = None\<rparr>"

abbreviation lab_esys :: "u32 esys_api" where
  "lab_esys \<equiv> lab_api\<lparr>api_initialize := \<lambda>t v b. ((0, Some 1, v), b)\<rparr>"

section \<open>Properties\<close>

text \<open>
  C9: Creating a context from a configuration leaks nothing and never crashes, whatever the
  libraries answer at every step: when it fails, each TCTI context that was opened and each ESYS
  context that was created has been finalized exactly once and the error has a listed category;
  when it succeeds, the context owns the one TCTI and the ESYS context that are open. On every path
  the log names a TCTI only by a well-known name or a placeholder.
\<close>
theorem create_no_leak:
  assumes "init_null_on_failure T api"
  shows "\<exists>new. actions (snd (create_context_from_config T H tcti_api api config w)) = actions w @ new \<and>
    discreet new \<and>
    (case fst (create_context_from_config T H tcti_api api config w) of
       Inl f \<Rightarrow> False
     | Inr (Inl e) \<Rightarrow> listed_category (category e) \<and> tcti_closed new = tcti_opened new \<and>
         esys_closed new = esys_opened new
     | Inr (Inr ctx) \<Rightarrow> \<exists>i p. ctx = Some i \<and>
         ctx_tcti i = \<lparr>tcti_pointer = Some p, tcti_delete_with = Finalize_loaded_tcti\<rparr> \<and>
         tcti_opened new = [p] \<and> tcti_closed new = [] \<and>
         esys_opened new = addresses (ctx_esys i) \<and> esys_closed new = [])"
proof -
  obtain new where "actions (snd (create_context_from_config T H tcti_api api config w)) = actions w @ new"
    "no_leak context_open new (fst (create_context_from_config T H tcti_api api config w))"
    using create_from_config_leaves [OF assms, of w H tcti_api config] unfolding leaves_def by blast
  then show ?thesis by (intro exI [of _ new]) (auto simp: no_leak_def context_open_def split: sum.splits)
qed

lemma create_no_leak_witness:
  "\<exists>new. actions (snd (create_context_from_config tss_4_1 lab_host lab_tcti_api lab_esys lab_config (lab_world 0x101))) =
      actions (lab_world 0x101) @ new \<and> discreet new \<and>
    (case fst (create_context_from_config tss_4_1 lab_host lab_tcti_api lab_esys lab_config (lab_world 0x101)) of
       Inl f \<Rightarrow> False
     | Inr (Inl e) \<Rightarrow> listed_category (category e) \<and> tcti_closed new = tcti_opened new \<and>
         esys_closed new = esys_opened new
     | Inr (Inr ctx) \<Rightarrow> \<exists>i p. ctx = Some i \<and>
         ctx_tcti i = \<lparr>tcti_pointer = Some p, tcti_delete_with = Finalize_loaded_tcti\<rparr> \<and>
         tcti_opened new = [p] \<and> tcti_closed new = [] \<and>
         esys_opened new = addresses (ctx_esys i) \<and> esys_closed new = [])"
  by (rule create_no_leak [OF lab_init_null])

text \<open>
  C10: Destroying a context that was created from a configuration writes the finalized record, then
  finalizes the ESYS context, then the TCTI it runs on, each once and in this order, so that
  creation and destruction together close exactly what was opened.
\<close>
theorem teardown_order:
  assumes "init_null_on_failure T api"
    and "create_context_from_config T H tcti_api api config w = (returns ctx, w')"
  shows "\<exists>new p e. actions w' = actions w @ new \<and> tcti_opened new = [p] \<and> esys_opened new = addresses e \<and>
    tcti_closed new = [] \<and> esys_closed new = [] \<and>
    actions (destroy_context H api ctx w'') = actions w'' @
      map Logged (emit_success_record True ev_finalized []) @
      map (\<lambda>a. Called (Esys_Finalize (Some a))) (addresses e) @ [Called (Tcti_Finalize (Some p))]"
proof -
  obtain new where "actions w' = actions w @ new" "context_open ctx new"
    using create_from_config_leaves [OF assms(1), of w H tcti_api config] assms(2)
    unfolding leaves_def by auto
  then show ?thesis using destroy_loaded_context unfolding context_open_def by blast
qed

lemma lab_create:
  "create_context_from_config tss_4_1 lab_host lab_tcti_api lab_esys lab_config (lab_world 0) =
     (returns (Some \<lparr>ctx_tcti = \<lparr>tcti_pointer = Some 50, tcti_delete_with = Finalize_loaded_tcti\<rparr>,
                     ctx_esys = Some 1, ctx_log = Noop_logger\<rparr>),
      snd (create_context_from_config tss_4_1 lab_host lab_tcti_api lab_esys lab_config (lab_world 0)))"
proof -
  have wf: "wf_tcti_config ''swtpm:port=2321''"
    by (simp add: wf_tcti_config_def is_space_def Let_def)
  have "fst (create_context_from_config tss_4_1 lab_host lab_tcti_api lab_esys lab_config (lab_world 0)) =
     returns (Some \<lparr>ctx_tcti = \<lparr>tcti_pointer = Some 50, tcti_delete_with = Finalize_loaded_tcti\<rparr>,
                     ctx_esys = Some 1, ctx_log = Noop_logger\<rparr>)"
    by (simp add: create_context_from_config_def validate_context_config_def lab_config_def
        resolve_tcti_def load_tcti_def validate_config_eq wf invoke_def lab_tcti_api_def tss_4_1_fields
        allocate_tcti_loader_context_def lab_host_def create_from_resolved_tcti_def initialize_esys_def
        start_tpm_def effective_logger_def lab_api_def act_def write_log_def lab_world_def Let_def)
  then show ?thesis by (simp add: prod_eq_iff)
qed

lemma teardown_order_witness:
  "\<exists>new p e. actions (snd (create_context_from_config tss_4_1 lab_host lab_tcti_api lab_esys lab_config (lab_world 0))) =
      actions (lab_world 0) @ new \<and> tcti_opened new = [p] \<and> esys_opened new = addresses e \<and>
    tcti_closed new = [] \<and> esys_closed new = [] \<and>
    actions (destroy_context lab_host lab_esys (Some \<lparr>ctx_tcti = \<lparr>tcti_pointer = Some 50,
        tcti_delete_with = Finalize_loaded_tcti\<rparr>, ctx_esys = Some 1, ctx_log = Noop_logger\<rparr>) (lab_world 0)) =
      actions (lab_world 0) @
      map Logged (emit_success_record True ev_finalized []) @
      map (\<lambda>a. Called (Esys_Finalize (Some a))) (addresses e) @ [Called (Tcti_Finalize (Some p))]"
  by (rule teardown_order [OF lab_init_null lab_create])

text \<open>
  C18: A handle given to create_context with its deleter is the library's from then on: it is
  deleted exactly once when the creation fails, for an invalid startup mode too, and kept by the
  context when it succeeds, which happens only for a handle that is not null and a listed mode.
\<close>
theorem owned_handle_taken_over:
  assumes "init_null_on_failure T api" and "owned_deleter owned = Some f"
  shows "\<exists>new. actions (snd (create_context_from_owned_tcti T H api owned startup log w)) = actions w @ new \<and>
    discreet new \<and> tcti_opened new = [] \<and>
    (case fst (create_context_from_owned_tcti T H api owned startup log w) of
       Inl x \<Rightarrow> False
     | Inr (Inl e) \<Rightarrow> listed_category (category e) \<and>
         tcti_closed new = addresses (owned_pointer owned) \<and> esys_closed new = esys_opened new
     | Inr (Inr ctx) \<Rightarrow> \<exists>i. ctx = Some i \<and>
         ctx_tcti i = \<lparr>tcti_pointer = owned_pointer owned, tcti_delete_with = Owner_supplied f\<rparr> \<and>
         owned_pointer owned \<noteq> None \<and> is_valid_startup_mode startup \<and> tcti_closed new = [] \<and>
         esys_opened new = addresses (ctx_esys i) \<and> esys_closed new = [])"
  using create_from_owned_leaves [OF assms, of w startup H log] unfolding leaves_def by blast

lemma owned_handle_taken_over_witness:
  "\<exists>new. actions (snd (create_context_from_owned_tcti tss_4_1 lab_host lab_esys
        \<lparr>owned_pointer = Some 60, owned_deleter = Some 3\<rparr> (unlisted_mode 9) None (lab_world 0))) =
      actions (lab_world 0) @ new \<and> discreet new \<and> tcti_opened new = [] \<and>
    (case fst (create_context_from_owned_tcti tss_4_1 lab_host lab_esys
        \<lparr>owned_pointer = Some 60, owned_deleter = Some 3\<rparr> (unlisted_mode 9) None (lab_world 0)) of
       Inl x \<Rightarrow> False
     | Inr (Inl e) \<Rightarrow> listed_category (category e) \<and>
         tcti_closed new = addresses (owned_pointer \<lparr>owned_pointer = Some 60, owned_deleter = Some 3\<rparr>) \<and>
         esys_closed new = esys_opened new
     | Inr (Inr ctx) \<Rightarrow> \<exists>i. ctx = Some i \<and>
         ctx_tcti i = \<lparr>tcti_pointer = owned_pointer \<lparr>owned_pointer = Some 60, owned_deleter = Some 3\<rparr>,
                       tcti_delete_with = Owner_supplied 3\<rparr> \<and>
         owned_pointer \<lparr>owned_pointer = Some 60, owned_deleter = Some 3\<rparr> \<noteq> None \<and>
         is_valid_startup_mode (unlisted_mode 9) \<and> tcti_closed new = [] \<and>
         esys_opened new = addresses (ctx_esys i) \<and> esys_closed new = [])"
  by (rule owned_handle_taken_over [OF lab_init_null]) simp

text \<open>
  C19: A handle whose deleter is a null function pointer is refused without being deleted, but only
  when the startup mode is a listed one: with any other mode the early return comes first, and the
  end of the handle's scope calls the null deleter.
\<close>
theorem null_deleter_guard_order:
  "create_context_from_owned_tcti T H api \<lparr>owned_pointer = Some p, owned_deleter = None\<rparr> startup log w =
     (if is_valid_startup_mode startup
      then fails (err input_error ''TCTI owned handle deleter must not be null'')
      else Inl bad_dereference, w)"
  by (simp add: create_context_from_owned_tcti_def drop_owned_def)

text \<open>
  C20: Startup succeeds exactly when it is skipped, when the TPM reports success, or when it
  reports that it was already initialized; the TPM gets one startup command, of the type the mode
  asks for, or none when it is skipped; and any other answer is translated to its error.
\<close>
theorem startup_semantics:
  "fst (start_tpm T api esys mode w) =
     (let rc = fst (api_startup api esys (startup_type T mode) (backend w)) in
      if mode = startup_skip \<or> rc = rc_success T \<or> rc = tpm_rc_code T INITIALIZE then returns ()
      else fails (tss_failure T rc)) \<and>
   (\<exists>new. actions (snd (start_tpm T api esys mode w)) = actions w @ new \<and>
      commands new = (if mode = startup_skip then []
        else [Esys_Startup esys (if mode = startup_state then su_state T else su_clear T)]))"
proof (cases "mode = startup_skip")
  case True
  then show ?thesis by (simp add: start_tpm_def Let_def)
next
  case False
  obtain rc b where reply: "api_startup api esys (startup_type T mode) (backend w) = (rc, b)"
    by (metis prod.exhaust)
  have type: "startup_type T mode = (if mode = startup_state then su_state T else su_clear T)"
    by (cases mode) simp_all
  show ?thesis
    using False reply
    by (auto simp: start_tpm_def invoke_def write_log_def report_context_failure_eq tss_failure_def
        is_startup_already_initialized_def type Let_def)
qed

text \<open>
  The provider a context hands out runs on the context's ESYS context with the observer of the
  caller, and a context without one hands out none: moved-from contexts report a resource error.
\<close>
theorem provider_factory:
  "(create_pcr_provider ctx ob = Inr p \<longleftrightarrow>
      (\<exists>i e. ctx = Some i \<and> ctx_esys i = Some e \<and> provider_esys p = Some e \<and> provider_has_observer p = ob)) \<and>
   create_pcr_provider (snd (move_context ctx)) ob =
     Inl (err resource_error ''TPM context does not contain a usable backend'')"
  by (cases p) (auto simp: create_pcr_provider_def new_esys_pcr_provider_def move_context_def split: option.splits)

end
