(* ===== verification/Handle_Protocol.thy ===== *)
theory Handle_Protocol
  imports Tpm_Context
begin

text \<open>
  The order in which the adapter may use the handles of the TCTI loader and of ESYS, as a transition
  system over the visible actions, and the proof that the creation and the teardown of a context keep
  it. The stages follow the ownership of \<^verbatim>\<open>context/tpm_context.cpp\<close> and \<^verbatim>\<open>context/tcti_loader.cpp\<close>: the
  storage of a TCTI, the TCTI on it, the ESYS context on the TCTI. The documentation of the libraries
  gives the two hypotheses of \<open>handles_documented\<close>.
\<close>

section \<open>The stages of the handles\<close>

text \<open>
  \<open>Unused q\<close> remembers the address that was finalized last, which \<^verbatim>\<open>release_failed_tcti_init\<close> may still
  have to free. The flag of \<open>Esys_ready\<close> tells whether a command was sent to the TPM already.
\<close>

datatype handle_stage =
    Unused ptr
  | Info_held
  | Storage nat u64
  | Tcti_given nat
  | Tcti_ready nat
  | Esys_ready nat nat bool
  | Tcti_closing nat

text \<open>The ESYS context a PCR command runs on.\<close>

fun command_on :: "esys_command \<Rightarrow> ptr option" where
  "command_on (Esys_PCR_Allocate e h s1 s2 s3 a) = Some e"
| "command_on (Esys_PCR_Event e h s1 s2 s3 d) = Some e"
| "command_on (Esys_PCR_Extend e h s1 s2 s3 d2) = Some e"
| "command_on (Esys_PCR_Read e s1 s2 s3 s) = Some e"
| "command_on (Esys_PCR_Reset e h s1 s2 s3) = Some e"
| "command_on (Esys_PCR_SetAuthPolicy e h s1 s2 s3 d alg n) = Some e"
| "command_on (Esys_PCR_SetAuthValue e h s1 s2 s3 d) = Some e"
| "command_on (Esys_TR_SetAuth e h d) = Some e"
| "command_on c = None"

text \<open>The record that announces a configured TCTI; an ESYS context may be created only after it.\<close>

definition announces_tcti :: "log_call \<Rightarrow> bool" where
  "announces_tcti c \<longleftrightarrow> map field_value (take 1 (call_fields c)) = [event_name ev_tcti_configured]"

inductive handle_step :: "handle_stage \<Rightarrow> 'e action \<Rightarrow> handle_stage \<Rightarrow> bool" where
  logged: "\<not> announces_tcti c \<Longrightarrow> handle_step s (Logged c) s"
| announced: "announces_tcti c \<Longrightarrow> handle_step (Tcti_given p) (Logged c) (Tcti_ready p)"
| info_asked: "handle_step (Unused q) (Called (Tcti_GetInfo n)) Info_held"
| info_freed: "handle_step Info_held (Called (Tcti_FreeInfo i)) (Unused None)"
| size_asked: "handle_step (Unused q) (Called (Tcti_Init None 0 None)) (Unused q)"
| no_storage: "handle_step (Unused q) (Called (Calloc n None)) (Unused q)"
| storage: "handle_step (Unused q) (Called (Calloc n (Some p))) (Storage p n)"
| tcti_initialized: "handle_step (Storage p n) (Called (Tcti_Init (Some p) n (Some conf))) (Tcti_given p)"
| esys_refused: "handle_step (Tcti_ready p) (Called (Esys_Initialize (Some p) None)) (Tcti_ready p)"
| esys_initialized:
    "handle_step (Tcti_ready p) (Called (Esys_Initialize (Some p) (Some e))) (Esys_ready p e False)"
| started: "handle_step (Esys_ready p e False) (Called (Esys_Startup (Some e) t)) (Esys_ready p e True)"
| commanded:
    "command_on c = Some (Some e) \<Longrightarrow> handle_step (Esys_ready p e b) (Called c) (Esys_ready p e True)"
| buffer_freed: "handle_step (Esys_ready p e b) (Freed x) (Esys_ready p e b)"
| observer_told: "handle_step (Esys_ready p e b) (Notified n) (Esys_ready p e b)"
| esys_finalized: "handle_step (Esys_ready p e b) (Called (Esys_Finalize (Some e))) (Tcti_closing p)"
| tcti_finalized:
    "s = Tcti_given p \<or> s = Tcti_ready p \<or> s = Tcti_closing p \<Longrightarrow>
     handle_step s (Called (Tcti_Finalize (Some p))) (Unused (Some p))"
| storage_freed: "handle_step (Unused (Some p)) (Called (Free (Some p))) (Unused None)"
| owner_deleted:
    "s = Tcti_given p \<or> s = Tcti_ready p \<or> s = Tcti_closing p \<Longrightarrow>
     handle_step s (Called (Owner_Delete f (Some p))) (Unused None)"

inductive_simps handle_step_simps [simp]:
  "handle_step s (Logged c) t"
  "handle_step s (Called (Tcti_GetInfo n)) t"
  "handle_step s (Called (Tcti_FreeInfo i)) t"
  "handle_step s (Called (Tcti_Init q n conf)) t"
  "handle_step s (Called (Calloc n q)) t"
  "handle_step s (Called (Free q)) t"
  "handle_step s (Called (Tcti_Finalize q)) t"
  "handle_step s (Called (Owner_Delete f q)) t"
  "handle_step s (Called (Esys_Initialize q r)) t"
  "handle_step s (Called (Esys_Finalize r)) t"
  "handle_step s (Called (Esys_Startup r k)) t"
  "handle_step s (Freed x) t"
  "handle_step s (Notified n) t"

inductive handle_run :: "handle_stage \<Rightarrow> 'e action list \<Rightarrow> handle_stage \<Rightarrow> bool" where
  run_Nil: "handle_run s [] s"
| run_Cons: "handle_step s a u \<Longrightarrow> handle_run u as t \<Longrightarrow> handle_run s (a # as) t"

inductive_simps handle_run_simps [simp]:
  "handle_run s [] t"
  "handle_run s (a # as) t"

lemma handle_run_append [simp]:
  "handle_run s (as @ bs) t \<longleftrightarrow> (\<exists>u. handle_run s as u \<and> handle_run u bs t)"
  by (induction as arbitrary: s) auto

lemma handle_run_logged: "list_all (\<lambda>c. \<not> announces_tcti c) cs \<Longrightarrow> handle_run s (map Logged cs) t \<longleftrightarrow> t = s"
  by (induction cs) auto

section \<open>What the protocol means for a trace\<close>

text \<open>The handles that are open in a stage.\<close>

fun open_esys :: "handle_stage \<Rightarrow> nat list" where
  "open_esys (Esys_ready p e b) = [e]"
| "open_esys s = []"

fun open_tcti :: "handle_stage \<Rightarrow> nat list" where
  "open_tcti (Storage p n) = [p]"
| "open_tcti (Tcti_given p) = [p]"
| "open_tcti (Tcti_ready p) = [p]"
| "open_tcti (Esys_ready p e b) = [p]"
| "open_tcti (Tcti_closing p) = [p]"
| "open_tcti s = []"

lemma step_opens:
  "handle_step s a t \<Longrightarrow>
     open_esys s @ esys_opened [a] = esys_closed [a] @ open_esys t \<and>
     open_tcti s @ tcti_opened [a] = tcti_closed [a] @ open_tcti t"
proof (induction rule: handle_step.induct)
  case (commanded c e p b)
  then show ?case by (cases c) simp_all
qed auto

text \<open>Handles are closed in the order they were opened, each one before the next is opened.\<close>

lemma run_opens:
  "handle_run s as t \<Longrightarrow>
     open_esys s @ esys_opened as = esys_closed as @ open_esys t \<and>
     open_tcti s @ tcti_opened as = tcti_closed as @ open_tcti t"
proof (induction rule: handle_run.induct)
  case (run_Cons s a u as t)
  from step_opens [OF run_Cons(1)] run_Cons(3)
  show ?case
    by (metis append.assoc append_Cons append_Nil handles_append)
qed simp

text \<open>
  The ESYS context of a command is open at its position in the trace: it was the last one opened,
  and all others were closed before.
\<close>

definition commands_on_open_contexts :: "'e action list \<Rightarrow> bool" where
  "commands_on_open_contexts as \<longleftrightarrow>
     (\<forall>xs c ys r. as = xs @ Called c # ys \<longrightarrow> command_on c = Some r \<longrightarrow>
        (\<exists>e. r = Some e \<and> esys_opened xs = esys_closed xs @ [e]) \<and>
        (\<exists>p. tcti_opened xs = tcti_closed xs @ [p]))"

lemma step_commanded:
  "handle_step s (Called c) t \<Longrightarrow> command_on c = Some r \<Longrightarrow> \<exists>p e b. s = Esys_ready p e b \<and> r = Some e"
  by (erule handle_step.cases) auto

lemma run_commands_open:
  fixes as :: "'e action list"
  assumes "handle_run (Unused q) as t"
  shows "commands_on_open_contexts as"
proof (unfold commands_on_open_contexts_def, intro allI impI)
  fix xs c ys r
  assume as: "as = xs @ Called c # ys" and c: "command_on c = Some r"
  with assms obtain s u where s: "handle_run (Unused q) xs s" "handle_step s (Called c :: 'e action) u" by auto
  with step_commanded [OF _ c] obtain p e b where "s = Esys_ready p e b" "r = Some e" by blast
  with run_opens [OF s(1)]
  show "(\<exists>e. r = Some e \<and> esys_opened xs = esys_closed xs @ [e]) \<and> (\<exists>p. tcti_opened xs = tcti_closed xs @ [p])"
    by simp
qed

section \<open>Creation and teardown keep the protocol\<close>

text \<open>
  \<^verbatim>\<open>Tss2_TctiLdr_Finalize\<close> nulls the pointer it is given or leaves it; \<^verbatim>\<open>Esys_Initialize\<close> hands out a
  context exactly when it succeeds.
\<close>

definition handles_documented :: "tss \<Rightarrow> 'b host \<Rightarrow> 'b esys_api \<Rightarrow> bool" where
  "handles_documented T H api \<longleftrightarrow>
     (\<forall>p b. fst (tctildr_finalize H p b) = None \<or> fst (tctildr_finalize H p b) = p) \<and>
     (\<forall>t v b. fst (snd (fst (api_initialize api t v b))) = None \<longleftrightarrow>
        fst (fst (api_initialize api t v b)) \<noteq> rc_success T)"

lemmas finalize_documented = handles_documented_def [THEN iffD1, THEN conjunct1, rule_format]
lemmas initialize_documented = handles_documented_def [THEN iffD1, THEN conjunct2, rule_format]

text \<open>An operation that starts in stage \<open>s\<close> and ends in a stage that fits its result.\<close>

definition handles_from ::
  "handle_stage \<Rightarrow> (handle_stage \<Rightarrow> 'r \<Rightarrow> bool) \<Rightarrow> ('b, 'e) world \<Rightarrow> 'r \<times> ('b, 'e) world \<Rightarrow> bool" where
  "handles_from s Q w x \<longleftrightarrow>
     (\<exists>new t. actions (snd x) = actions w @ new \<and> handle_run s new t \<and> Q t (fst x))"

lemma handles_fromI:
  "actions (snd x) = actions w @ new \<Longrightarrow> handle_run s new t \<Longrightarrow> Q t (fst x) \<Longrightarrow> handles_from s Q w x"
  unfolding handles_from_def by blast

lemma handles_fromE:
  assumes "handles_from s Q w x"
  obtains r w' new t where "x = (r, w')" "actions w' = actions w @ new" "handle_run s new t" "Q t r"
  using assms unfolding handles_from_def by (cases x) auto

lemma handles_weaken: "handles_from s Q w x \<Longrightarrow> (\<And>t r. Q t r \<Longrightarrow> Q' t r) \<Longrightarrow> handles_from s Q' w x"
  unfolding handles_from_def by blast

text \<open>Records are written before, and what follows starts where this one ended.\<close>

lemma handles_after:
  assumes "actions w' = actions w @ new" and "handle_run s new u" and "handles_from u Q w' x"
  shows "handles_from s Q w x"
proof -
  obtain more t where "actions (snd x) = actions w' @ more" "handle_run u more t" "Q t (fst x)"
    using assms(3) unfolding handles_from_def by blast
  with assms(1,2) show ?thesis by (intro handles_fromI [of _ _ "new @ more" _ t]) auto
qed

lemma handles_success:
  "event_name event \<noteq> event_name ev_tcti_configured \<Longrightarrow>
   handle_run s (map Logged (emit_success_record h event fs)) t \<longleftrightarrow> t = s"
  by (rule handle_run_logged) (simp add: emit_success_record_eq announces_tcti_def)

lemma handles_configured:
  "handle_run (Tcti_given p) (map Logged (log_tcti_event ev_tcti_configured kind name)) t \<longleftrightarrow> t = Tcti_ready p"
  by (auto simp: log_tcti_event_def emit_success_record_eq announces_tcti_def)

lemma handles_failure:
  "event_name event \<noteq> event_name ev_tcti_configured \<Longrightarrow>
   handle_run s (map Logged (log_tss_error T h rc layer cat op event d)) t \<longleftrightarrow> t = s"
  by (rule handle_run_logged) (simp add: log_tss_error_def emit_failure_record_eq announces_tcti_def)

lemma handles_configuring:
  "handle_run s (map Logged (log_tcti_event ev_tcti_configuring kind name)) t \<longleftrightarrow> t = s"
  unfolding log_tcti_event_def
  by (rule handles_success) (simp add: ev_tcti_configuring_def ev_tcti_configured_def)

lemma other_events [simp]:
  "event_name ev_tss_error \<noteq> event_name ev_tcti_configured"
  "event_name ev_pcr_tss_error \<noteq> event_name ev_tcti_configured"
  "event_name ev_esys_initialized \<noteq> event_name ev_tcti_configured"
  "event_name ev_startup_invoked \<noteq> event_name ev_tcti_configured"
  "event_name ev_startup_completed \<noteq> event_name ev_tcti_configured"
  "event_name ev_finalized \<noteq> event_name ev_tcti_configured"
  by (simp_all add: ev_tss_error_def ev_pcr_tss_error_def ev_esys_initialized_def ev_startup_invoked_def
      ev_startup_completed_def ev_finalized_def ev_tcti_configured_def)

lemmas handles_logs = handles_success handles_configured handles_failure handles_configuring

text \<open>The deletion of a TCTI that no ESYS context uses.\<close>

lemma delete_tcti_handles:
  assumes "handles_documented T H api" and "s = Tcti_given p \<or> s = Tcti_ready p \<or> s = Tcti_closing p"
    and "tcti_pointer h = Some p"
  shows "handles_from s (\<lambda>t (u :: unit). \<exists>q. t = Unused q) w ((), delete_tcti H h w)"
proof (cases "tcti_delete_with h")
  case Finalize_loaded_tcti
  with assms show ?thesis
    by (intro handles_fromI [of _ _ "[Called (Tcti_Finalize (Some p))]"])
       (auto simp: delete_tcti_def finalize_loaded_tcti_def)
next
  case Release_failed_tcti_init
  obtain c b where reply: "tctildr_finalize H (Some p) (backend w) = (c, b)" by (metis prod.exhaust)
  with finalize_documented [OF assms(1), of "Some p" "backend w"] have c: "c = None \<or> c = Some p" by simp
  from c Release_failed_tcti_init assms reply show ?thesis
    by (intro handles_fromI [of _ _ "Called (Tcti_Finalize (Some p)) # (if c = None then [] else [Called (Free c)])"
          s "Unused (if c = None then Some p else None)"])
       (auto simp: delete_tcti_def release_failed_tcti_init_def invoke_def)
next
  case (Owner_supplied f)
  with assms show ?thesis
    by (intro handles_fromI [of _ _ "[Called (Owner_Delete f (Some p))]"]) (auto simp: delete_tcti_def)
qed

text \<open>The loading of a TCTI ends with nothing open, or with the TCTI of its result.\<close>

definition tcti_given :: "handle_stage \<Rightarrow> tcti_handle call \<Rightarrow> bool" where
  "tcti_given t r \<longleftrightarrow>
     (case r of
        Inl f \<Rightarrow> False
      | Inr (Inl e) \<Rightarrow> \<exists>q. t = Unused q
      | Inr (Inr h) \<Rightarrow> \<exists>p. tcti_pointer h = Some p \<and> t = Tcti_given p)"

lemma load_tcti_handles:
  assumes "handles_documented T H esys_api"
  shows "handles_from (Unused q) tcti_given w (load_tcti T H api config w)"
proof (cases "wf_tcti_config config")
  case False
  then show ?thesis
    by (intro handles_fromI [of _ _ "[]" _ "Unused q"]) (auto simp: load_tcti_def validate_config_eq tcti_given_def)
next
  case True
  let ?name = "c_str (tcti_name config)"
  let ?conf = "Some (c_str config)"
  obtain rc1 i b1 where r1: "ld_get_info api ?name (backend w) = ((rc1, i), b1)" by (metis prod.exhaust)
  let ?b2 = "ld_free_info api i b1"
  obtain rc2 sz b3 where r2: "ld_init api None 0 None ?b2 = ((rc2, sz), b3)" by (metis prod.exhaust)
  obtain p0 b4 where r3: "host_calloc H sz b3 = (p0, b4)" by (metis prod.exhaust)
  obtain rc5 sz' b5 where r5: "ld_init api p0 sz ?conf b4 = ((rc5, sz'), b5)" by (metis prod.exhaust)
  note eqs = load_tcti_def validate_config_eq True allocate_tcti_loader_context_def invoke_def
    report_context_failure_eq translate_tss_rc_eq write_log_def act_def r1 r2 r3 Let_def tcti_given_def handles_failure
  let ?pre = "[Called (Tcti_GetInfo ?name), Called (Tcti_FreeInfo i), Called (Tcti_Init None 0 None)]"
  show ?thesis
  proof (cases "rc1 = rc_success T \<and> rc2 = rc_success T \<and> sz \<noteq> 0")
    case False
    then show ?thesis
      by (cases "rc1 = rc_success T"; cases "rc2 = rc_success T")
         (intro handles_fromI [where t = "Unused None"]; simp add: eqs; simp add: handles_failure)+
  next
    case ok: True
    show ?thesis
    proof (cases p0)
      case None
      with ok show ?thesis
        by (intro handles_fromI [of _ _ "?pre @ [Called (Calloc sz None)]" _ "Unused None"]) (simp_all add: eqs)
    next
      case (Some p)
      let ?h = "\<lparr>tcti_pointer = Some p, tcti_delete_with = Release_failed_tcti_init\<rparr>"
      let ?new = "?pre @ [Called (Calloc sz (Some p)), Called (Tcti_Init (Some p) sz ?conf)]"
      let ?rec = "log_tss_error T True rc5 (rc_layer T rc5) (mapped_category (rc_error T rc5)) ''tcti_init''
          ev_tss_error (ld_decode_error api)"
      let ?w = "w\<lparr>backend := b5, actions := actions w @ ?new @ map Logged ?rec\<rparr>"
      show ?thesis
      proof (cases "rc5 = rc_success T")
        case True
        with ok Some r5 show ?thesis
          by (intro handles_fromI [of _ _ ?new _ "Tcti_given p"]) (simp_all add: eqs)
      next
        case False
        with ok Some r5 have "load_tcti T H api config w =
            (fails (err (mapped_category (rc_error T rc5)) (mapped_message (rc_error T rc5))), delete_tcti H ?h ?w)"
          by (simp add: eqs)
        moreover have "handles_from (Unused q) (\<lambda>t (u :: unit). \<exists>q. t = Unused q) w ((), delete_tcti H ?h ?w)"
          using delete_tcti_handles [OF assms, of "Tcti_given p" p ?h ?w]
          by (rule handles_after [rotated 2]) (auto simp: handles_failure)
        ultimately show ?thesis by (auto simp: handles_from_def tcti_given_def)
      qed
    qed
  qed
qed

text \<open>The TCTI a context is created on is announced first.\<close>

definition tcti_ready :: "handle_stage \<Rightarrow> tcti_handle call \<Rightarrow> bool" where
  "tcti_ready t r \<longleftrightarrow>
     (case r of
        Inl f \<Rightarrow> False
      | Inr (Inl e) \<Rightarrow> \<exists>q. t = Unused q
      | Inr (Inr h) \<Rightarrow> \<exists>p. tcti_pointer h = Some p \<and> t = Tcti_ready p)"

lemma resolve_tcti_handles:
  assumes "handles_documented T H esys_api"
  shows "handles_from (Unused q) tcti_ready w (resolve_tcti T H api config w)"
proof -
  let ?name = "sanitized_tcti_name config"
  let ?w = "if ?name \<noteq> [] then write_log (log_tcti_event ev_tcti_configuring ''string'' ?name) w else w"
  obtain r w' new t where load: "load_tcti T H api config ?w = (r, w')" "actions w' = actions ?w @ new"
      "handle_run (Unused q) new t" "tcti_given t r"
    using load_tcti_handles [OF assms, of q ?w api config] by (rule handles_fromE)
  show ?thesis
  proof (rule handles_after)
    show "actions ?w = actions w @
        (if ?name \<noteq> [] then map Logged (log_tcti_event ev_tcti_configuring ''string'' ?name) else [])" by simp
    show "handle_run (Unused q) (if ?name \<noteq> [] then map Logged (log_tcti_event ev_tcti_configuring ''string'' ?name)
        else []) (Unused q)" by (simp add: handles_configuring)
    show "handles_from (Unused q) tcti_ready ?w (resolve_tcti T H api config w)"
    proof (cases r rule: try_cases)
      case (abrupt f)
      with load(4) show ?thesis by (simp add: tcti_given_def)
    next
      case (failed e)
      with load show ?thesis
        by (intro handles_fromI [of _ _ new _ t]) (simp_all add: resolve_tcti_def Let_def tcti_given_def tcti_ready_def)
    next
      case (returned h)
      with load(4) obtain p where p: "tcti_pointer h = Some p" "t = Tcti_given p" by (auto simp: tcti_given_def)
      with load returned show ?thesis
        by (intro handles_fromI [of _ _ "new @ map Logged (log_tcti_event ev_tcti_configured ''string'' ?name)" _
              "Tcti_ready p"])
           (auto simp: resolve_tcti_def Let_def tcti_ready_def handles_configured)
    qed
  qed
qed

text \<open>A failed \<^verbatim>\<open>Esys_Initialize\<close> leaves the TCTI ready, a successful one the context it hands out.\<close>

lemma initialize_esys_handles:
  assumes "handles_documented T H api"
  shows "handles_from (Tcti_ready p)
     (\<lambda>t r. case r of Inl f \<Rightarrow> False | Inr (Inl e) \<Rightarrow> t = Tcti_ready p
        | Inr (Inr esys) \<Rightarrow> \<exists>e. esys = Some e \<and> t = Esys_ready p e False)
     w (initialize_esys T api (Some p) w)"
proof -
  obtain rc raw v b where reply: "api_initialize api (Some p) (abi_version_current T) (backend w) = ((rc, raw, v), b)"
    by (metis prod.exhaust)
  with initialize_documented [OF assms, of "Some p" "abi_version_current T" "backend w"]
  have raw: "raw = None \<longleftrightarrow> rc \<noteq> rc_success T" by simp
  show ?thesis
  proof (cases raw)
    case None
    with raw reply show ?thesis
      by (intro handles_fromI [of _ _ "Called (Esys_Initialize (Some p) None) # map Logged (log_tss_error T True rc
            (rc_layer T rc) (mapped_category (rc_error T rc)) ''esys_initialize'' ev_tss_error (api_decode_error api))"
            _ "Tcti_ready p"])
         (simp_all add: initialize_esys_def report_context_failure_eq handles_failure)
  next
    case (Some e)
    with raw reply show ?thesis
      by (intro handles_fromI [of _ _ "Called (Esys_Initialize (Some p) (Some e)) # map Logged (emit_success_record True
            ev_esys_initialized [fld ''abi_version'' (abi_version_string v)])" _ "Esys_ready p e False"])
         (simp_all add: initialize_esys_def handles_success)
  qed
qed

lemma start_tpm_handles:
  "handles_from (Esys_ready p e False)
     (\<lambda>t r. (\<exists>b. t = Esys_ready p e b) \<and> (case r of Inl f \<Rightarrow> False | Inr x \<Rightarrow> True))
     w (start_tpm T api (Some e) mode w)"
proof -
  let ?name = "startup_mode_name mode"
  let ?i = "map Logged (emit_success_record True ev_startup_invoked [fld ''startup_mode'' ?name])"
  let ?ok = "\<lambda>r. map Logged (emit_success_record True ev_startup_completed [fld ''startup_mode'' ?name, fld ''result'' r])"
  let ?c = "[Called (Esys_Startup (Some e) (startup_type T mode))]"
  obtain rc b where reply: "api_startup api (Some e) (startup_type T mode) (backend w) = (rc, b)"
    by (metis prod.exhaust)
  note eqs = start_tpm_def invoke_def write_log_def report_context_failure_eq Let_def handles_success handles_failure
  consider "mode = startup_skip"
    | "mode \<noteq> startup_skip" "rc \<noteq> rc_success T \<and> \<not> is_startup_already_initialized T rc"
    | "mode \<noteq> startup_skip" "\<not> (rc \<noteq> rc_success T \<and> \<not> is_startup_already_initialized T rc)"
    by blast
  then show ?thesis
  proof cases
    case 1
    then show ?thesis
      by (intro handles_fromI [of _ _ "?i @ ?ok ''skipped''" _ "Esys_ready p e False"]) (auto simp: eqs)
  next
    case 2
    with reply show ?thesis
      by (intro handles_fromI [of _ _ "?i @ ?c @ map Logged (log_tss_error T True rc (rc_layer T rc)
            (mapped_category (rc_error T rc)) ''esys_startup'' ev_tss_error (api_decode_error api))" _ "Esys_ready p e True"])
         (auto simp: eqs)
  next
    case 3
    with reply show ?thesis
      by (intro handles_fromI [of _ _ "?i @ ?c @ ?ok (startup_result_field T rc)" _ "Esys_ready p e True"])
         (auto simp: eqs)
  qed
qed

text \<open>An open context holds the ESYS context and the TCTI of the stage.\<close>

definition context_ready :: "handle_stage \<Rightarrow> tpm_context call \<Rightarrow> bool" where
  "context_ready t r \<longleftrightarrow>
     (case r of
        Inl f \<Rightarrow> False
      | Inr (Inl e) \<Rightarrow> \<exists>q. t = Unused q
      | Inr (Inr ctx) \<Rightarrow> \<exists>i p e b. ctx = Some i \<and> tcti_pointer (ctx_tcti i) = Some p \<and>
          ctx_esys i = Some e \<and> t = Esys_ready p e b)"

lemma delete_esys_handles:
  "actions (esys_context_delete (Some api) (Some e) w) = actions w @ [Called (Esys_Finalize (Some e))]"
  by (simp add: esys_context_delete_leaves)

lemma create_from_resolved_handles:
  assumes doc: "handles_documented T H api" and p: "tcti_pointer h = Some p"
  shows "handles_from (Tcti_ready p) context_ready w (create_from_resolved_tcti T H api h mode log w)"
proof -
  obtain r w1 new t where init: "initialize_esys T api (Some p) w = (r, w1)" "actions w1 = actions w @ new"
      "handle_run (Tcti_ready p) new t"
      "case r of Inl f \<Rightarrow> False | Inr (Inl e) \<Rightarrow> t = Tcti_ready p
        | Inr (Inr esys) \<Rightarrow> \<exists>e. esys = Some e \<and> t = Esys_ready p e False"
    using initialize_esys_handles [OF doc, of p w] by (rule handles_fromE)
  show ?thesis
  proof (cases r rule: try_cases)
    case (abrupt f)
    with init(4) show ?thesis by simp
  next
    case (failed e)
    from delete_tcti_handles [OF doc _ p, of "Tcti_ready p" w1]
    have "handles_from (Tcti_ready p) context_ready w1 (fails e, delete_tcti H h w1)"
      by (simp add: handles_from_def context_ready_def)
    with failed init p show ?thesis
      by (intro handles_after [of w1 w new _ "Tcti_ready p"]) (simp_all add: create_from_resolved_tcti_def)
  next
    case (returned esys)
    with init(4) obtain e where e: "esys = Some e" "t = Esys_ready p e False" by auto
    obtain r2 w2 new2 b where start: "start_tpm T api (Some e) mode w1 = (r2, w2)" "actions w2 = actions w1 @ new2"
        "handle_run (Esys_ready p e False) new2 (Esys_ready p e b)" "case r2 of Inl f \<Rightarrow> False | Inr x \<Rightarrow> True"
      using start_tpm_handles [of p e w1 T api mode] by (fastforce elim: handles_fromE)
    show ?thesis
    proof (cases r2 rule: try_cases)
      case (abrupt f)
      with start(4) show ?thesis by simp
    next
      case failed2: (failed x)
      let ?w3 = "esys_context_delete (Some api) (Some e) w2"
      from delete_tcti_handles [OF doc _ p, of "Tcti_closing p" ?w3]
      have "handles_from (Tcti_closing p) context_ready ?w3 (fails x, delete_tcti H h ?w3)"
        by (simp add: handles_from_def context_ready_def)
      then have "handles_from (Tcti_ready p) context_ready w (fails x, delete_tcti H h ?w3)"
        using init start e
        by (intro handles_after [of ?w3 w "new @ new2 @ [Called (Esys_Finalize (Some e))]" _ "Tcti_closing p"])
           (auto simp: delete_esys_handles)
      with failed2 returned init start p e show ?thesis by (simp add: create_from_resolved_tcti_def)
    next
      case (returned u)
      with \<open>r = returns esys\<close> init start p e show ?thesis
        by (intro handles_fromI [of _ _ "new @ new2" _ "Esys_ready p e b"])
           (auto simp: create_from_resolved_tcti_def context_ready_def)
    qed
  qed
qed

lemma create_handles:
  assumes "handles_documented T H api"
  shows "handles_from (Unused q) context_ready w (create_context_from_config T H tcti_api api config w)"
proof (cases "validate_context_config config")
  case (Inl e)
  then show ?thesis
    by (intro handles_fromI [of _ _ "[]" _ "Unused q"]) (auto simp: create_context_from_config_def context_ready_def)
next
  case (Inr u)
  obtain r w1 new t where res: "resolve_tcti T H tcti_api (cfg_tcti config) w = (r, w1)" "actions w1 = actions w @ new"
      "handle_run (Unused q) new t" "tcti_ready t r"
    using resolve_tcti_handles [OF assms, of q w tcti_api "cfg_tcti config"] by (rule handles_fromE)
  show ?thesis
  proof (cases r rule: try_cases)
    case (returned h)
    with res(4) obtain p where p: "tcti_pointer h = Some p" "t = Tcti_ready p" by (auto simp: tcti_ready_def)
    from handles_after [OF res(2) res(3) [unfolded p(2)] create_from_resolved_handles [OF assms p(1)]]
    show ?thesis using res(1) Inr returned by (simp add: create_context_from_config_def Let_def)
  next
    case (failed e)
    with res Inr show ?thesis
      by (intro handles_fromI [of _ _ new _ t])
         (auto simp: create_context_from_config_def tcti_ready_def context_ready_def Let_def)
  qed (use res in \<open>simp add: tcti_ready_def\<close>)
qed

text \<open>The teardown ends the protocol.\<close>

lemma destroy_handles:
  assumes "handles_documented T H api" and "tcti_pointer (ctx_tcti i) = Some p" and "ctx_esys i = Some e"
  shows "handles_from (Esys_ready p e b) (\<lambda>t (u :: unit). \<exists>q. t = Unused q) w ((), destroy_context H api (Some i) w)"
proof -
  let ?w1 = "write_log (emit_success_record True ev_finalized []) w"
  let ?w2 = "esys_context_delete (Some api) (Some e) ?w1"
  have "handles_from (Tcti_closing p) (\<lambda>t (u :: unit). \<exists>q. t = Unused q) ?w2 ((), delete_tcti H (ctx_tcti i) ?w2)"
    using delete_tcti_handles [OF assms(1) _ assms(2)] by blast
  then have "handles_from (Esys_ready p e b) (\<lambda>t (u :: unit). \<exists>q. t = Unused q) w ((), delete_tcti H (ctx_tcti i) ?w2)"
    by (intro handles_after [of ?w2 w
          "map Logged (emit_success_record True ev_finalized []) @ [Called (Esys_Finalize (Some e))]" _ "Tcti_closing p"])
       (auto simp: delete_esys_handles handles_success)
  then show ?thesis using assms(3) by (simp add: destroy_context_def destroy_context_impl_def Let_def)
qed

end
