(* ===== verification/Audit_Log.thy ===== *)
theory Audit_Log
  imports Handle_Protocol
begin

text \<open>
  What the creation of a context adds to the trace besides handles: its records are of the events the
  adapter lists, with the keys of its vocabulary, and observers hear nothing.
\<close>

section \<open>Records of listed events\<close>

text \<open>The table of \<^verbatim>\<open>support/log_events.h\<close>.\<close>

definition listed_events :: "event_descriptor list" where
  "listed_events =
     [ev_esys_initialized, ev_finalized, ev_pcr_allocate_completed, ev_pcr_auth_policy_set,
      ev_pcr_auth_value_set, ev_pcr_event_completed, ev_pcr_extend_completed, ev_pcr_read_completed,
      ev_pcr_reset_completed, ev_pcr_tss_error, ev_startup_completed, ev_startup_invoked,
      ev_tcti_configured, ev_tcti_configuring, ev_tss_error]"

definition tidy :: "log_call \<Rightarrow> bool" where
  "tidy c \<longleftrightarrow> in_vocabulary c \<and>
     list_ex (\<lambda>e. call_message c = event_message e \<and> field_lookup ''event'' c = Some (event_name e)) listed_events"

definition caller_keys :: "log_field list \<Rightarrow> bool" where
  "caller_keys fs \<longleftrightarrow>
     list_all (\<lambda>f. field_key f \<in> set log_field_keys - {''event'', ''component'', ''outcome''}) fs \<and>
     distinct (map field_key fs)"

lemma tidy_emitted:
  assumes "event \<in> set listed_events" and "caller_keys fs"
  shows "list_all tidy (emit_success_record h event fs)" and "list_all tidy (emit_failure_record h event fs)"
  using emitted_in_vocabulary [of fs h event] assms
  by (auto simp: caller_keys_def tidy_def emit_success_record_eq emit_failure_record_eq field_lookup_def list_ex_iff)

lemma tidy_failure [simp]: "event \<in> set listed_events \<Longrightarrow> list_all tidy (log_tss_error T h rc layer cat op event d)"
  by (simp add: log_tss_error_def tidy_emitted caller_keys_def log_field_keys_def)

lemma tidy_translated [simp]:
  "event \<in> set listed_events \<Longrightarrow> list_all tidy (snd (translate_tss_rc T rc op h event d))"
  by (simp add: translate_tss_rc_eq)

lemma listed [simp]:
  "ev_esys_initialized \<in> set listed_events" "ev_finalized \<in> set listed_events"
  "ev_pcr_allocate_completed \<in> set listed_events" "ev_pcr_auth_policy_set \<in> set listed_events"
  "ev_pcr_auth_value_set \<in> set listed_events" "ev_pcr_event_completed \<in> set listed_events"
  "ev_pcr_extend_completed \<in> set listed_events" "ev_pcr_read_completed \<in> set listed_events"
  "ev_pcr_reset_completed \<in> set listed_events" "ev_pcr_tss_error \<in> set listed_events"
  "ev_startup_completed \<in> set listed_events" "ev_startup_invoked \<in> set listed_events"
  "ev_tcti_configured \<in> set listed_events" "ev_tcti_configuring \<in> set listed_events"
  "ev_tss_error \<in> set listed_events"
  by (simp_all add: listed_events_def)

lemma tidy_lifecycle [simp]:
  "list_all tidy (emit_success_record h ev_startup_invoked [fld ''startup_mode'' m])"
  "list_all tidy (emit_success_record h ev_startup_completed [fld ''startup_mode'' m, fld ''result'' r])"
  "list_all tidy (emit_success_record h ev_esys_initialized [fld ''abi_version'' v])"
  "list_all tidy (emit_success_record h ev_finalized [])"
  "list_all tidy (log_tcti_event ev_tcti_configuring kind name)"
  "list_all tidy (log_tcti_event ev_tcti_configured kind name)"
  by (simp_all add: log_tcti_event_def tidy_emitted caller_keys_def log_field_keys_def)

lemma pcr_logs_tidy [simp]:
  "list_all tidy (log_allocate_completed b n)" "list_all tidy (log_auth_policy_set i a)"
  "list_all tidy (log_auth_value_set i)" "list_all tidy (log_event_completed i n k)"
  "list_all tidy (log_extend_completed i n)" "list_all tidy (log_read_completed sel n)"
  "list_all tidy (log_reset_completed i)"
  by (simp_all add: pcr_log_defs tidy_emitted caller_keys_def log_field_keys_def)

section \<open>Views that creation does not change\<close>

text \<open>A view of the trace that neither a library call nor a tidy record changes.\<close>

locale trace_view =
  fixes f :: "'e action list \<Rightarrow> 'x"
  assumes called: "f (as @ [Called c]) = f as"
    and logged: "list_all tidy cs \<Longrightarrow> f (as @ map Logged cs) = f as"
begin

definition view :: "('b, 'e) world \<Rightarrow> 'x" where
  "view w = f (actions w)"

lemma view_simps [simp]:
  "list_all tidy cs \<Longrightarrow> view (write_log cs w) = view w" "view (act (Called c) w) = view w"
  "view (snd (invoke c g w)) = view w" "view (w\<lparr>backend := b\<rparr>) = view w"
  by (simp_all add: view_def called logged)

lemma view_delete_tcti [simp]: "view (delete_tcti H h w) = view w"
  by (simp add: delete_tcti_def finalize_loaded_tcti_def release_failed_tcti_init_def split_beta
      split: tcti_deleter.split)

lemma view_esys_delete [simp]: "view (esys_context_delete api p w) = view w"
  by (auto simp: esys_context_delete_def view_def called split: option.split)

lemma view_report [simp]: "view (snd (report_context_failure T d rc op w)) = view w"
  by (simp add: report_context_failure_def split_beta Let_def split: sum.split)

lemma view_allocate [simp]: "view (snd (allocate_tcti_loader_context T H api w)) = view w"
  by (simp add: allocate_tcti_loader_context_def split_beta Let_def)

lemma view_load [simp]: "view (snd (load_tcti T H api config w)) = view w"
proof (cases "validate_config config")
  case (Inr v)
  let ?w1 = "snd (invoke (Tcti_GetInfo (c_str (tcti_name v))) (ld_get_info api (c_str (tcti_name v))) w)"
  let ?r1 = "fst (invoke (Tcti_GetInfo (c_str (tcti_name v))) (ld_get_info api (c_str (tcti_name v))) w)"
  let ?w2 = "snd (invoke (Tcti_FreeInfo (snd ?r1)) (\<lambda>b. ((), ld_free_info api (snd ?r1) b)) ?w1)"
  show ?thesis
    using view_allocate [of T H api ?w2] Inr
    by (cases "allocate_tcti_loader_context T H api ?w2"; cases "fst (allocate_tcti_loader_context T H api ?w2)" rule: try_cases)
       (auto simp: load_tcti_def split_beta Let_def)
qed (simp add: load_tcti_def)

lemma view_resolve [simp]: "view (snd (resolve_tcti T H api config w)) = view w"
proof -
  let ?w = "if sanitized_tcti_name config \<noteq> [] then write_log (log_tcti_event ev_tcti_configuring ''string'' (sanitized_tcti_name config)) w else w"
  show ?thesis
    using view_load [of T H api config ?w]
    by (cases "load_tcti T H api config ?w"; cases "fst (load_tcti T H api config ?w)" rule: try_cases)
       (auto simp: resolve_tcti_def Let_def simp del: view_load)
qed

lemma view_initialize [simp]: "view (snd (initialize_esys T api tcti w)) = view w"
  by (simp add: initialize_esys_def split_beta Let_def)

lemma view_start [simp]: "view (snd (start_tpm T api esys mode w)) = view w"
  by (simp add: start_tpm_def split_beta Let_def)

lemma view_create_resolved [simp]: "view (snd (create_from_resolved_tcti T H api tcti startup log w)) = view w"
proof -
  obtain r w1 where init: "initialize_esys T api (tcti_pointer tcti) w = (r, w1)" by fastforce
  with view_initialize [of T api "tcti_pointer tcti" w] have w1: "view w1 = view w" by simp
  show ?thesis
  proof (cases r rule: try_cases)
    case (returned esys)
    with w1 init view_start [of T api esys startup w1] show ?thesis
      by (cases "start_tpm T api esys startup w1"; cases "fst (start_tpm T api esys startup w1)" rule: try_cases)
         (auto simp: create_from_resolved_tcti_def)
  qed (use w1 init in \<open>simp_all add: create_from_resolved_tcti_def\<close>)
qed

lemma view_create [simp]: "view (snd (create_context_from_config T H tcti_api api config w)) = view w"
proof -
  obtain r w1 where res: "resolve_tcti T H tcti_api (cfg_tcti config) w = (r, w1)" by fastforce
  with view_resolve [of T H tcti_api "cfg_tcti config" w] have w1: "view w1 = view w" by simp
  with res show ?thesis
    by (cases r rule: try_cases)
       (auto simp: create_context_from_config_def validate_context_config_def Let_def)
qed

end

interpretation told_view: trace_view notifications
  by unfold_locales simp_all

interpretation untidy_view: trace_view "\<lambda>as. filter (\<lambda>c. \<not> tidy c) (records as)"
  by unfold_locales (simp_all add: list_all_iff)

lemma records_of_calls [simp]: "records (map (\<lambda>x. Called (g x)) xs) = []"
  by (induction xs) simp_all

lemma created_tidy:
  assumes "create_context_from_config T H tcti_api api config w = (r, w')" and "actions w' = actions w @ new"
  shows "list_all tidy (records new)"
  using untidy_view.view_create [of T H tcti_api api config w] assms
  by (simp add: untidy_view.view_def list_all_iff filter_empty_conv)

end
