(* ===== verification/Mock_Pcr.thy ===== *)
theory Mock_Pcr
  imports Pcr_Provider_Port
begin

text \<open>
  The test substitutes of the PCR ports: \<^verbatim>\<open>src/adapters/mock/mock_pcr_provider.cpp\<close>, a provider with
  programmed answers and call counters, and \<^verbatim>\<open>src/adapters/mock/in_memory_pcr_observer.cpp\<close>, an
  observer that keeps what it hears. The counters have the 64 bits of \<^verbatim>\<open>std::size_t\<close>.
\<close>

section \<open>mock_pcr_provider\<close>

record mock_provider =
  allocate_call_count :: u64
  allocate_programmed :: "allocate_result outcome"
  event_call_count :: u64
  event_programmed :: "event_result outcome"
  extend_call_count :: u64
  extend_programmed :: "unit outcome"
  read_call_count :: u64
  read_programmed :: "read_result outcome"
  reset_call_count :: u64
  reset_programmed :: "unit outcome"
  set_auth_policy_call_count :: u64
  set_auth_policy_programmed :: "unit outcome"
  set_auth_value_call_count :: u64
  set_auth_value_programmed :: "unit outcome"

definition make_default_error :: error where
  "make_default_error = err backend_error ''mock PCR provider response was not programmed''"

definition make_default_failure :: "'a outcome" where
  "make_default_failure = Inl make_default_error"

definition make_default_void_failure :: "unit outcome" where
  "make_default_void_failure = Inl make_default_error"

definition new_mock_provider :: mock_provider where
  "new_mock_provider =
     \<lparr>allocate_call_count = 0, allocate_programmed = make_default_failure,
      event_call_count = 0, event_programmed = make_default_failure,
      extend_call_count = 0, extend_programmed = make_default_void_failure,
      read_call_count = 0, read_programmed = make_default_failure,
      reset_call_count = 0, reset_programmed = make_default_void_failure,
      set_auth_policy_call_count = 0, set_auth_policy_programmed = make_default_void_failure,
      set_auth_value_call_count = 0, set_auth_value_programmed = make_default_void_failure\<rparr>"

definition mock_clear_call_counts :: "mock_provider \<Rightarrow> mock_provider" where
  "mock_clear_call_counts m =
     m\<lparr>allocate_call_count := 0, event_call_count := 0, extend_call_count := 0,
       read_call_count := 0, reset_call_count := 0, set_auth_policy_call_count := 0,
       set_auth_value_call_count := 0\<rparr>"

definition mock_allocate :: "mock_provider \<Rightarrow> bank list \<Rightarrow> allocate_result outcome \<times> mock_provider" where
  "mock_allocate m banks =
     (let m = m\<lparr>allocate_call_count := allocate_call_count m + 1\<rparr> in (allocate_programmed m, m))"

definition mock_event :: "mock_provider \<Rightarrow> index \<Rightarrow> byte list \<Rightarrow> event_result outcome \<times> mock_provider" where
  "mock_event m i event_data =
     (let m = m\<lparr>event_call_count := event_call_count m + 1\<rparr> in (event_programmed m, m))"

definition mock_extend :: "mock_provider \<Rightarrow> index \<Rightarrow> digest_value list \<Rightarrow> unit outcome \<times> mock_provider" where
  "mock_extend m i digests =
     (let m = m\<lparr>extend_call_count := extend_call_count m + 1\<rparr> in (extend_programmed m, m))"

definition mock_read :: "mock_provider \<Rightarrow> selection \<Rightarrow> read_result outcome \<times> mock_provider" where
  "mock_read m sel =
     (let m = m\<lparr>read_call_count := read_call_count m + 1\<rparr> in (read_programmed m, m))"

definition mock_reset :: "mock_provider \<Rightarrow> index \<Rightarrow> unit outcome \<times> mock_provider" where
  "mock_reset m i =
     (let m = m\<lparr>reset_call_count := reset_call_count m + 1\<rparr> in (reset_programmed m, m))"

definition mock_set_auth_policy ::
  "mock_provider \<Rightarrow> index \<Rightarrow> hash_algorithm \<Rightarrow> byte list \<Rightarrow> unit outcome \<times> mock_provider" where
  "mock_set_auth_policy m i policy_alg policy_digest =
     (let m = m\<lparr>set_auth_policy_call_count := set_auth_policy_call_count m + 1\<rparr>
      in (set_auth_policy_programmed m, m))"

definition mock_set_auth_value :: "mock_provider \<Rightarrow> index \<Rightarrow> byte list \<Rightarrow> unit outcome \<times> mock_provider" where
  "mock_set_auth_value m i auth =
     (let m = m\<lparr>set_auth_value_call_count := set_auth_value_call_count m + 1\<rparr>
      in (set_auth_value_programmed m, m))"

definition mock_set_allocate_result :: "allocate_result outcome \<Rightarrow> mock_provider \<Rightarrow> mock_provider" where
  "mock_set_allocate_result r m = m\<lparr>allocate_programmed := r\<rparr>"

definition mock_set_event_result :: "event_result outcome \<Rightarrow> mock_provider \<Rightarrow> mock_provider" where
  "mock_set_event_result r m = m\<lparr>event_programmed := r\<rparr>"

definition mock_set_extend_result :: "unit outcome \<Rightarrow> mock_provider \<Rightarrow> mock_provider" where
  "mock_set_extend_result r m = m\<lparr>extend_programmed := r\<rparr>"

definition mock_set_read_result :: "read_result outcome \<Rightarrow> mock_provider \<Rightarrow> mock_provider" where
  "mock_set_read_result r m = m\<lparr>read_programmed := r\<rparr>"

definition mock_set_reset_result :: "unit outcome \<Rightarrow> mock_provider \<Rightarrow> mock_provider" where
  "mock_set_reset_result r m = m\<lparr>reset_programmed := r\<rparr>"

definition mock_set_auth_policy_result :: "unit outcome \<Rightarrow> mock_provider \<Rightarrow> mock_provider" where
  "mock_set_auth_policy_result r m = m\<lparr>set_auth_policy_programmed := r\<rparr>"

definition mock_set_auth_value_result :: "unit outcome \<Rightarrow> mock_provider \<Rightarrow> mock_provider" where
  "mock_set_auth_value_result r m = m\<lparr>set_auth_value_programmed := r\<rparr>"

lemmas mock_ops = mock_allocate_def mock_event_def mock_extend_def mock_read_def mock_reset_def
  mock_set_auth_policy_def mock_set_auth_value_def

section \<open>The mock behind the provider port\<close>

definition reply_outcome :: "('a \<Rightarrow> reply) \<Rightarrow> 'a outcome \<times> mock_provider \<Rightarrow> reply call \<times> mock_provider" where
  "reply_outcome f x = (Inr (case fst x of Inl e \<Rightarrow> Inl e | Inr a \<Rightarrow> Inr (f a)), snd x)"

fun mock_step :: "mock_provider \<Rightarrow> request \<Rightarrow> reply call \<times> mock_provider" where
  "mock_step m (Allocate banks) = reply_outcome Allocated (mock_allocate m banks)"
| "mock_step m (Event i event_data) = reply_outcome Measured (mock_event m i event_data)"
| "mock_step m (Extend i ds) = reply_outcome (\<lambda>_. Completed) (mock_extend m i ds)"
| "mock_step m (Read sel) = reply_outcome Was_read (mock_read m sel)"
| "mock_step m (Reset i) = reply_outcome (\<lambda>_. Completed) (mock_reset m i)"
| "mock_step m (Set_auth_policy i a policy) =
     reply_outcome (\<lambda>_. Completed) (mock_set_auth_policy m i a policy)"
| "mock_step m (Set_auth_value i auth) =
     reply_outcome (\<lambda>_. Completed) (mock_set_auth_value m i auth)"

text \<open>
  A programming of the mock that a provider could have: every programmed failure has a listed
  category, every programmed value keeps its type's invariant.
\<close>

definition safe_outcome :: "('a \<Rightarrow> bool) \<Rightarrow> 'a outcome \<Rightarrow> bool" where
  "safe_outcome P r \<longleftrightarrow> (case r of Inl e \<Rightarrow> listed_category (category e) | Inr x \<Rightarrow> P x)"

definition mock_valid :: "bool \<Rightarrow> mock_provider \<Rightarrow> bool" where
  "mock_valid legacy m \<longleftrightarrow>
     safe_outcome (\<lambda>_. True) (allocate_programmed m) \<and>
     safe_outcome (wf_event_result legacy) (event_programmed m) \<and>
     safe_outcome (\<lambda>_. True) (extend_programmed m) \<and>
     safe_outcome (wf_read_result legacy) (read_programmed m) \<and>
     safe_outcome (\<lambda>_. True) (reset_programmed m) \<and>
     safe_outcome (\<lambda>_. True) (set_auth_policy_programmed m) \<and>
     safe_outcome (\<lambda>_. True) (set_auth_value_programmed m)"

lemma new_mock_valid: "mock_valid legacy new_mock_provider"
  by (simp add: mock_valid_def new_mock_provider_def safe_outcome_def make_default_failure_def
      make_default_void_failure_def make_default_error_def)

lemma mock_step_keeps: "mock_valid legacy (snd (mock_step m q)) = mock_valid legacy m"
  by (cases q) (simp_all add: reply_outcome_def mock_ops mock_valid_def Let_def)

lemma mock_step_safe: "mock_valid legacy m \<Longrightarrow> safe_call (answers legacy q) (fst (mock_step m q))"
  by (cases q)
     (auto simp: reply_outcome_def mock_ops mock_valid_def safe_outcome_def Let_def split: sum.splits)

interpretation mock: provider_port mock_step legacy "mock_valid legacy" "\<lambda>_. []" "\<lambda>_. False"
  for legacy
  by unfold_locales (simp_all add: mock_step_keeps mock_step_safe)

fun mock_counter :: "request \<Rightarrow> mock_provider \<Rightarrow> u64" where
  "mock_counter (Allocate banks) m = allocate_call_count m"
| "mock_counter (Event i event_data) m = event_call_count m"
| "mock_counter (Extend i ds) m = extend_call_count m"
| "mock_counter (Read sel) m = read_call_count m"
| "mock_counter (Reset i) m = reset_call_count m"
| "mock_counter (Set_auth_policy i a policy) m = set_auth_policy_call_count m"
| "mock_counter (Set_auth_value i auth) m = set_auth_value_call_count m"

fun same_operation :: "request \<Rightarrow> request \<Rightarrow> bool" where
  "same_operation (Allocate _) (Allocate _) = True"
| "same_operation (Event _ _) (Event _ _) = True"
| "same_operation (Extend _ _) (Extend _ _) = True"
| "same_operation (Read _) (Read _) = True"
| "same_operation (Reset _) (Reset _) = True"
| "same_operation (Set_auth_policy _ _ _) (Set_auth_policy _ _ _) = True"
| "same_operation (Set_auth_value _ _) (Set_auth_value _ _) = True"
| "same_operation _ _ = False"

lemma mock_step_counter:
  "mock_counter k (snd (mock_step m q)) = mock_counter k m + (if same_operation k q then 1 else 0)"
  by (cases k; cases q) (simp_all add: reply_outcome_def mock_ops Let_def)

lemma mock_run_counter:
  "mock_counter k (snd (run_requests mock_step m qs)) =
     mock_counter k m + of_nat (length (filter (same_operation k) qs))"
  by (induction qs arbitrary: m) (simp_all add: Let_def split_beta mock_step_counter)

lemma mock_step_reply: "same_operation k q \<Longrightarrow> fst (mock_step (snd (mock_step m q')) k) = fst (mock_step m q)"
  by (cases k; cases q; cases q') (simp_all add: reply_outcome_def mock_ops Let_def)

section \<open>in_memory_pcr_observer\<close>

datatype pcr_measurement_operation = op_extend | op_event

record pcr_measurement_record =
  pmr_index :: index
  pmr_operation :: pcr_measurement_operation
  pmr_digests :: "digest_value list"
  pmr_event_data :: "byte list"

record in_memory_observer =
  pmr_records :: "pcr_measurement_record list"

definition make_event_record :: "index \<Rightarrow> byte list \<Rightarrow> event_result \<Rightarrow> pcr_measurement_record" where
  "make_event_record i event_data result =
     \<lparr>pmr_index = i, pmr_operation = op_event, pmr_digests = er_digests result,
      pmr_event_data = event_data\<rparr>"

definition make_extend_record :: "index \<Rightarrow> digest_value list \<Rightarrow> pcr_measurement_record" where
  "make_extend_record i digests =
     \<lparr>pmr_index = i, pmr_operation = op_extend, pmr_digests = digests, pmr_event_data = []\<rparr>"

definition observer_clear :: "in_memory_observer \<Rightarrow> in_memory_observer" where
  "observer_clear ob = ob\<lparr>pmr_records := []\<rparr>"

definition observer_count :: "in_memory_observer \<Rightarrow> nat" where
  "observer_count ob = length (pmr_records ob)"

definition observer_entries :: "in_memory_observer \<Rightarrow> pcr_measurement_record list" where
  "observer_entries ob = pmr_records ob"

definition observer_entries_by_index :: "in_memory_observer \<Rightarrow> index \<Rightarrow> pcr_measurement_record list" where
  "observer_entries_by_index ob i = filter (\<lambda>r. index_eq (pmr_index r) i) (pmr_records ob)"

definition observer_on_event ::
  "in_memory_observer \<Rightarrow> index \<Rightarrow> byte list \<Rightarrow> event_result \<Rightarrow> in_memory_observer" where
  "observer_on_event ob i event_data result =
     ob\<lparr>pmr_records := pmr_records ob @ [make_event_record i event_data result]\<rparr>"

definition observer_on_extend :: "in_memory_observer \<Rightarrow> index \<Rightarrow> digest_value list \<Rightarrow> in_memory_observer" where
  "observer_on_extend ob i digests =
     ob\<lparr>pmr_records := pmr_records ob @ [make_extend_record i digests]\<rparr>"

text \<open>The observer hears the calls a provider makes on it, one after the other.\<close>

fun observer_hear :: "in_memory_observer \<Rightarrow> notification \<Rightarrow> in_memory_observer" where
  "observer_hear ob (On_extend i ds) = observer_on_extend ob i ds"
| "observer_hear ob (On_event i event_data r) = observer_on_event ob i event_data r"

fun measurement_record :: "notification \<Rightarrow> pcr_measurement_record" where
  "measurement_record (On_extend i ds) = make_extend_record i ds"
| "measurement_record (On_event i event_data r) = make_event_record i event_data r"

lemma observer_hear_all:
  "observer_entries (foldl observer_hear ob ns) = observer_entries ob @ map measurement_record ns"
proof (induction ns arbitrary: ob)
  case (Cons n ns)
  then show ?case
    by (cases n) (simp_all add: observer_on_extend_def observer_on_event_def observer_entries_def)
qed simp

lemma measurement_record_inject: "measurement_record m = measurement_record n \<Longrightarrow> m = n"
proof (cases m; cases n)
  fix i d r j e s
  assume "measurement_record m = measurement_record n" "m = On_event i d r" "n = On_event j e s"
  then show "m = n" by (cases r; cases s) (simp add: make_event_record_def)
qed (simp_all add: make_event_record_def make_extend_record_def)

section \<open>Properties\<close>

text \<open>
  The mock counts the calls of each operation separately and exactly, modulo the width of its
  counters, over any sequence of requests, and its answers to an operation do not depend on the
  calls made before.
\<close>
theorem mock_counts_exactly:
  "mock_counter k (snd (run_requests mock_step m qs)) =
     mock_counter k m + of_nat (length (filter (same_operation k) qs)) \<and>
   fst (mock_step (snd (run_requests mock_step m qs)) k) = fst (mock_step m k)"
proof
  show "mock_counter k (snd (run_requests mock_step m qs)) =
     mock_counter k m + of_nat (length (filter (same_operation k) qs))"
    by (rule mock_run_counter)
  have refl: "same_operation k k" by (cases k) simp_all
  show "fst (mock_step (snd (run_requests mock_step m qs)) k) = fst (mock_step m k)"
    by (induction qs arbitrary: m) (simp_all add: Let_def split_beta mock_step_reply [OF refl])
qed

end
