(* ===== verification/Provider_Session.thy ===== *)
theory Provider_Session
  imports Pcr_Session Audit_Log Mock_Pcr
begin

text \<open>
  The ESYS provider and the mock provider keep the contract of a session (locale \<open>provider_session\<close>
  of the theory Pcr_Session). For the ESYS provider this says that no operation opens or closes a
  handle, sends a command to an ESYS context other than its own or logs the name of a TCTI, whatever
  the library answers.
\<close>

section \<open>The provider uses its ESYS context and touches no other handle\<close>

text \<open>
  What an operation of a provider on the ESYS context \<open>e\<close> may do: write tidy records that name no TCTI
  and announce none, send commands to \<open>e\<close>, hand buffers back and tell the observer.
\<close>

definition ordinary :: "log_call \<Rightarrow> bool" where
  "ordinary c \<longleftrightarrow> (\<forall>f \<in> set (call_fields c). field_key f \<noteq> ''tcti_name'') \<and> \<not> announces_tcti c \<and> tidy c"

fun use_of :: "ptr \<Rightarrow> 'e action \<Rightarrow> bool" where
  "use_of e (Logged c) = ordinary c"
| "use_of e (Called c) = (command_on c = Some e)"
| "use_of e (Freed x) = True"
| "use_of e (Notified n) = True"

definition uses :: "ptr \<Rightarrow> ('b, 'e) world \<Rightarrow> ('b, 'e) world \<Rightarrow> bool" where
  "uses e w w' \<longleftrightarrow> (\<exists>new. actions w' = actions w @ new \<and> list_all (use_of e) new)"

definition uses_op :: "ptr \<Rightarrow> ('b, 'e, 'a) operation \<Rightarrow> bool" where
  "uses_op e f \<longleftrightarrow> (\<forall>w. uses e w (snd (f w)))"

lemma use_no_handles: "use_of e a \<Longrightarrow> no_handles [a]"
proof (cases a)
  case (Called c)
  then show "use_of e a \<Longrightarrow> ?thesis" by (cases c) (simp_all add: no_handles_def)
qed (simp_all add: no_handles_def)

text \<open>Such a use keeps the handles, and the protocol in the stage where \<open>e\<close> is open.\<close>

lemma uses_quiet: "list_all (use_of e) new \<Longrightarrow> no_handles new \<and> discreet new"
proof (induction new)
  case (Cons a new)
  have "discreet [a]" using Cons.prems by (cases a) (auto simp: discreet_def ordinary_def)
  with Cons use_no_handles [of e a] no_handles_simps(3) [of "[a]" new] discreet_simps(2) [of "[a]" new]
  show ?case by simp
qed simp

lemma uses_tidy: "list_all (use_of e) new \<Longrightarrow> list_all tidy (records new)"
proof (induction new)
  case (Cons a new)
  then show ?case by (cases a) (simp_all add: ordinary_def)
qed simp

lemma uses_in_stage:
  "list_all (use_of (Some e)) new \<Longrightarrow> \<exists>b'. handle_run (Esys_ready p e b) new (Esys_ready p e b')"
proof (induction new arbitrary: b)
  case (Cons a new)
  have "\<exists>b'. handle_step (Esys_ready p e b) a (Esys_ready p e b')"
    using Cons.prems commanded by (cases a) (fastforce simp: ordinary_def)+
  with Cons show ?case by fastforce
qed simp

lemma uses_refl [simp]: "uses e w w"
  unfolding uses_def by (intro exI [of _ "[]"]) simp

lemma uses_trans: "uses e w v \<Longrightarrow> uses e v u \<Longrightarrow> uses e w u"
  unfolding uses_def by (metis append.assoc list_all_append)

lemma uses_write_log: "list_all ordinary cs \<Longrightarrow> uses e w (write_log cs w)"
  unfolding uses_def by (intro exI [of _ "map Logged cs"]) (simp add: list_all_iff)

lemma uses_act: "use_of e a \<Longrightarrow> actions w' = actions w @ [a] \<Longrightarrow> uses e w w'"
  unfolding uses_def by (intro exI [of _ "[a]"]) simp

lemma uses_notify: "uses e w (notify p n w)"
  by (simp add: notify_def uses_act [of _ "Notified n"])

lemma uses_release: "uses e w (release_buffer api buf w)"
proof (cases buf)
  case (Some x)
  then show ?thesis by (cases x) (simp add: uses_act [of _ "Freed (fst x)"])
qed simp

lemma uses_invoke: "command_on c = Some e \<Longrightarrow> uses e w (snd (invoke c f w))"
  by (simp add: uses_act [of _ "Called c"])

named_theorems uses_rules \<open>the rules for operations that only use their context\<close>

lemma uses_ensure [uses_rules]: "uses_op e rest \<Longrightarrow> uses_op e (ensure c rest)"
  by (cases c) (simp_all add: uses_op_def)

lemma uses_compute [uses_rules]: "(\<And>x. uses_op e (rest x)) \<Longrightarrow> uses_op e (compute r rest)"
  by (cases r) (simp_all add: uses_op_def)

lemma uses_attempt [uses_rules]: "(\<And>x. uses_op e (rest x)) \<Longrightarrow> uses_op e (attempt r rest)"
  by (cases r rule: try_cases) (simp_all add: uses_op_def)

lemma uses_call [uses_rules]:
  "command_on c = Some e \<Longrightarrow> (\<And>x. uses_op e (body x)) \<Longrightarrow> uses_op e (\<lambda>w. case invoke c f w of (x, w) \<Rightarrow> body x w)"
  unfolding uses_op_def split_beta using uses_invoke uses_trans by blast

lemma uses_if [uses_rules]: "uses_op e f \<Longrightarrow> uses_op e g \<Longrightarrow> uses_op e (\<lambda>w. if b then f w else g w)"
  by (cases b) simp_all

lemma uses_logged [uses_rules]: 
  "list_all ordinary cs \<Longrightarrow> uses_op e (\<lambda>w :: ('b, 'e) world. (r, write_log cs w))"
  by (simp add: uses_op_def uses_write_log)

lemma uses_noted [uses_rules]: 
  "list_all ordinary cs \<Longrightarrow> uses_op e (\<lambda>w. (r, notify p n (write_log cs w)))"
  unfolding uses_op_def using uses_write_log uses_notify uses_trans by (metis snd_conv)

lemma uses_return [uses_rules]: "uses_op e (\<lambda>w. (r, w))"
  by (simp add: uses_op_def)

lemma uses_finally [uses_rules]:
  "uses_op e f \<Longrightarrow> uses_op e (\<lambda>w. case f w of (r, w) \<Rightarrow> (r, release_buffer api buf w))"
  unfolding uses_op_def split_beta using uses_release uses_trans by (metis snd_conv)

lemma ordinary_success:
  "event_name event \<noteq> event_name ev_tcti_configured \<Longrightarrow> \<forall>f \<in> set fs. field_key f \<noteq> ''tcti_name'' \<Longrightarrow>
   list_all tidy (emit_success_record h event fs) \<Longrightarrow> list_all ordinary (emit_success_record h event fs)"
  by (auto simp: emit_success_record_eq ordinary_def announces_tcti_def)

lemma ordinary_failure [simp]:
  "event_name event \<noteq> event_name ev_tcti_configured \<Longrightarrow> event \<in> set listed_events \<Longrightarrow>
   list_all ordinary (log_tss_error T h rc layer cat op event d)"
  using tidy_failure [of event T h rc layer cat op d]
  by (auto simp: log_tss_error_def emit_failure_record_eq ordinary_def announces_tcti_def)

lemma pcr_events [simp]:
  "event_name ev_pcr_allocate_completed \<noteq> event_name ev_tcti_configured"
  "event_name ev_pcr_auth_policy_set \<noteq> event_name ev_tcti_configured"
  "event_name ev_pcr_auth_value_set \<noteq> event_name ev_tcti_configured"
  "event_name ev_pcr_event_completed \<noteq> event_name ev_tcti_configured"
  "event_name ev_pcr_extend_completed \<noteq> event_name ev_tcti_configured"
  "event_name ev_pcr_read_completed \<noteq> event_name ev_tcti_configured"
  "event_name ev_pcr_reset_completed \<noteq> event_name ev_tcti_configured"
  by code_simp+

lemma pcr_logs_ordinary [simp]:
  "list_all ordinary (log_allocate_completed b n)" "list_all ordinary (log_auth_policy_set i a)"
  "list_all ordinary (log_auth_value_set i)" "list_all ordinary (log_event_completed i n k)"
  "list_all ordinary (log_extend_completed i n)" "list_all ordinary (log_read_completed sel n)"
  "list_all ordinary (log_reset_completed i)"
  using pcr_logs_tidy by (simp_all add: pcr_log_defs ordinary_success)

lemma uses_report [uses_rules]: "uses_op e (report_tss_failure T api rc op)"
  unfolding uses_op_def report_tss_failure_def
  by (cases "translate_tss_rc T rc op True ev_pcr_tss_error (api_decode_error api)")
     (auto simp: translate_tss_rc_eq Let_def intro!: uses_write_log split: sum.splits if_splits)

lemma uses_op_step: "uses_op e f \<Longrightarrow> uses e w (snd (reply_with g (f w)))"
  by (simp add: uses_op_def reply_with_def)

lemma uses_set_tr_auth [uses_rules]:
  "uses_op (provider_esys p) rest \<Longrightarrow> uses_op (provider_esys p) (set_tr_auth T api p i op rest)"
  unfolding set_tr_auth_def Let_def by (rule uses_rules | simp)+

lemma uses_provider:
  "uses_op (provider_esys p) (provider_allocate legacy T api p banks)"
  "uses_op (provider_esys p) (provider_extend legacy T api p i ds)"
  "uses_op (provider_esys p) (provider_reset T api p i)"
  "uses_op (provider_esys p) (provider_set_auth_policy legacy T api p i a policy)"
  "uses_op (provider_esys p) (provider_set_auth_value T api p i auth)"
  unfolding provider_allocate_def provider_extend_def provider_reset_def provider_set_auth_policy_def
    provider_set_auth_value_def Let_def
  by (rule uses_rules | simp)+

lemma uses_event_response [uses_rules]: "uses_op e (event_response legacy T api p i event_data rc raw)"
proof (cases "rc = rc_success T")
  case True
  show ?thesis
  proof (cases raw)
    case None
    with True show ?thesis by (simp add: event_response_def [abs_def] uses_return)
  next
    case (Some x)
    with True show ?thesis
      by (cases x; cases "to_domain_digests legacy T (snd x)" rule: try_cases)
         (auto simp: event_response_def [abs_def] Let_def intro!: uses_noted uses_return)
  qed
next
  case False
  have "uses_op e (report_tss_failure T api rc ''pcr_event'')" by (rule uses_report)
  with False show ?thesis by (simp add: event_response_def [abs_def])
qed

lemma uses_read_response [uses_rules]: "uses_op e (read_response legacy T api sel rc out)"
proof (cases "rc = rc_success T")
  case True
  show ?thesis
  proof (cases "\<exists>a s b v. out_selection out = Some (a, s) \<and> out_values out = Some (b, v)")
    case False
    with True show ?thesis
      by (cases "out_selection out"; cases "out_values out")
         (auto simp: read_response_def [abs_def] uses_return split_beta)
  next
    case found: True
    then obtain a s b v where out: "out_selection out = Some (a, s)" "out_values out = Some (b, v)" by blast
    show ?thesis
    proof (cases "to_domain_selection legacy T s (sel_algorithm sel)" rule: try_cases)
      case (returned ds)
      with True out show ?thesis
        by (cases "to_domain_read_values legacy v ds" rule: try_cases)
           (simp_all add: read_response_def [abs_def] Let_def uses_logged uses_return)
    qed (use True out in \<open>simp_all add: read_response_def [abs_def] uses_return\<close>)
  qed
next
  case False
  have "uses_op e (report_tss_failure T api rc ''pcr_read'')" by (rule uses_report)
  with False show ?thesis by (simp add: read_response_def [abs_def])
qed

lemma uses_provider_answers:
  "uses_op (provider_esys p) (provider_event legacy T api p i event_data)"
  "uses_op (provider_esys p) (provider_read legacy T api p sel)"
proof -
  have "uses_op (provider_esys p) (\<lambda>w. case event_response legacy T api p i event_data rc raw w of (r, w) \<Rightarrow>
      (r, release_buffer api raw w))" for rc raw
    by (rule uses_finally [OF uses_event_response])
  then show "uses_op (provider_esys p) (provider_event legacy T api p i event_data)"
    unfolding provider_event_def Let_def
    by (intro uses_ensure uses_compute uses_call) simp_all
  have "uses_op (provider_esys p) (\<lambda>w. case read_response legacy T api sel rc out w of (r, w) \<Rightarrow>
      (r, release_buffer api (out_selection out) (release_buffer api (out_values out) w)))" for rc out
    using uses_finally [OF uses_finally [OF uses_read_response]] by (simp add: split_beta)
  then show "uses_op (provider_esys p) (provider_read legacy T api p sel)"
    unfolding provider_read_def Let_def
    by (intro uses_ensure uses_compute uses_call) simp_all
qed

lemma provider_step_uses: "uses (provider_esys p) w (snd (provider_step legacy T api p w q))"
  by (cases q) (simp_all add: uses_op_step uses_provider uses_provider_answers)

section \<open>The creation of a context tells observers nothing\<close>

definition told :: "('b, 'e) world \<Rightarrow> 'e list" where
  "told w = notifications (actions w)"

lemma told_create: "told (snd (create_context_from_config T H tcti_api api config w)) = told w"
  using told_view.view_create [of T H tcti_api api config w] by (simp add: told_view.view_def told_def)

section \<open>The session contract\<close>

definition same_service :: "'b esys_provider \<Rightarrow> 'b esys_provider \<Rightarrow> bool" where
  "same_service s t \<longleftrightarrow>
     ep_tss t = ep_tss s \<and> ep_api t = ep_api s \<and> ep_provider t = ep_provider s \<and>
     uses (provider_esys (ep_provider s)) (ep_world s) (ep_world t)"

interpretation esys_client: provider_session
  "esys_provider_step legacy" legacy esys_provider_valid
  "\<lambda>s. notifications (actions (ep_world s))" "\<lambda>s. provider_has_observer (ep_provider s)" same_service
  for legacy
  by unfold_locales
     (auto simp: same_service_def esys_provider_step_def provider_step_uses split_beta intro: uses_trans)

text \<open>The mock keeps its programming over a session.\<close>

definition same_programming :: "mock_provider \<Rightarrow> mock_provider \<Rightarrow> bool" where
  "same_programming m n \<longleftrightarrow>
     allocate_programmed n = allocate_programmed m \<and> event_programmed n = event_programmed m \<and>
     extend_programmed n = extend_programmed m \<and> read_programmed n = read_programmed m \<and>
     reset_programmed n = reset_programmed m \<and> set_auth_policy_programmed n = set_auth_policy_programmed m \<and>
     set_auth_value_programmed n = set_auth_value_programmed m"

interpretation mock_client: provider_session
  mock_step legacy "mock_valid legacy" "\<lambda>_. []" "\<lambda>_. False" same_programming
  for legacy
proof unfold_locales
  show "same_programming s (snd (mock_step s q))" for s q
    by (cases q) (simp_all add: same_programming_def reply_outcome_def mock_ops Let_def)
qed (simp_all add: same_programming_def)

end
