(* ===== verification/Examples.thy ===== *)
theory Examples
  imports Provider_Session
begin

text \<open>
  The programs of \<^verbatim>\<open>examples/\<close>, whole: arguments, context, provider, the work on the provider (theory
  Pcr_Client) and the teardown at the end of \<^verbatim>\<open>main\<close>. An exception that leaves \<^verbatim>\<open>main\<close> ends the process
  without the teardown, as \<^verbatim>\<open>std::terminate\<close> may.
\<close>

section \<open>The parts of a main function\<close>

text \<open>What the programs are built and linked with.\<close>

record 'b installation =
  in_tss :: tss
  in_legacy :: bool
  in_limits :: std_limits
  in_host :: "'b host"
  in_tcti :: "'b tcti_loader_api"
  in_esys :: "'b esys_api"

type_synonym 'b process = "('b, notification) world program"

definition start :: "'b \<Rightarrow> ('b, notification) world session" where
  "start b = \<lparr>port = \<lparr>backend = b, actions = []\<rparr>, out_text = [], err_text = []\<rparr>"

definition usage :: "string list \<Rightarrow> string \<Rightarrow> 'b process" where
  "usage argv arguments = give_up (''usage: '' @ hd argv @ arguments @ newline)"

definition argument_or :: "string \<Rightarrow> nat \<Rightarrow> string list \<Rightarrow> string" where
  "argument_or fallback n argv = (if n < length argv then argv ! n else fallback)"

text \<open>\<^verbatim>\<open>auto context = tpm_context::create(\<dots>)\<close> with its check, and the end of the context's scope.\<close>

definition create_in :: "'b installation \<Rightarrow> string \<Rightarrow> logger_ref option \<Rightarrow> ('b, notification, tpm_context) operation" where
  "create_in I config log =
     tpm_context_create_string (in_tss I) (in_host I) (in_tcti I) (in_esys I) config startup_clear log"

definition with_context ::
  "'b installation \<Rightarrow> string \<Rightarrow> logger_ref option \<Rightarrow> (tpm_context \<Rightarrow> 'b process) \<Rightarrow> 'b process" where
  "with_context I config log body = checked (create_in I config log) (\<lambda>ctx m.
     let (r, m) = body ctx m
     in case r of
          Inl f \<Rightarrow> (Inl f, m)
        | Inr c \<Rightarrow>
            (Inr c, m\<lparr>port := destroy_context (in_host I) (default_esys_api (in_esys I)) ctx (port m)\<rparr>))"

text \<open>\<^verbatim>\<open>auto provider = context->create_pcr_provider(\<dots>)\<close> with its check.\<close>

definition service :: "'b installation \<Rightarrow> provider \<Rightarrow> ('b, notification) world session \<Rightarrow> 'b esys_provider session" where
  "service I p m =
     \<lparr>port = \<lparr>ep_tss = in_tss I, ep_api = default_esys_api (in_esys I), ep_provider = p, ep_world = port m\<rparr>,
      out_text = out_text m, err_text = err_text m\<rparr>"

definition world_session :: "'b esys_provider session \<Rightarrow> ('b, notification) world session" where
  "world_session s = \<lparr>port = ep_world (port s), out_text = out_text s, err_text = err_text s\<rparr>"

definition with_provider ::
  "'b installation \<Rightarrow> bool \<Rightarrow> 'b esys_provider program \<Rightarrow> tpm_context \<Rightarrow> 'b process" where
  "with_provider I has_observer body ctx m =
     (case create_pcr_provider ctx has_observer of
        Inl e \<Rightarrow> report e m
      | Inr p \<Rightarrow> let (r, s) = body (service I p m) in (r, world_session s))"

definition step_in :: "'b installation \<Rightarrow> 'b esys_provider stepper" where
  "step_in I = esys_provider_step (in_legacy I)"

definition heard_in :: "'b esys_provider \<Rightarrow> notification list" where
  "heard_in s = notifications (actions (ep_world s))"

text \<open>A program with one optional argument, the TCTI configuration, or with two.\<close>

definition one_argument :: "'b installation \<Rightarrow> string list \<Rightarrow> 'b esys_provider program \<Rightarrow> 'b process" where
  "one_argument I argv body =
     (if length argv > 2 then usage argv '' [tcti-config]''
      else with_context I (argument_or default_tcti_config 1 argv) None (with_provider I False body))"

section \<open>The main functions\<close>

definition main_tpm_context_basics :: "bool \<Rightarrow> 'b installation \<Rightarrow> string list \<Rightarrow> 'b process" where
  "main_tpm_context_basics has_stdio I argv =
     (if length argv > 2 then usage argv '' [tcti-config]''
      else let log = if has_stdio then Some Caller_logger else None in
        with_context I (argument_or default_tcti_config 1 argv) log
          (\<lambda>_. printing (''tpm_context ready'' @ newline) (finish Exit_success)))"

definition main_active_banks :: "'b installation \<Rightarrow> string list \<Rightarrow> 'b process" where
  "main_active_banks I argv = one_argument I argv (active_banks (step_in I) (in_legacy I) (in_limits I))"

text \<open>\<^verbatim>\<open>parse_args\<close> of \<^verbatim>\<open>allocate_banks.cpp\<close>; \<open>None\<close> is the result \<^verbatim>\<open>false\<close>.\<close>

definition add_sha384_flag :: string where
  "add_sha384_flag = ''--add-sha384''"

fun parse_arguments :: "string list \<Rightarrow> bool \<Rightarrow> string \<Rightarrow> bool \<Rightarrow> (string \<times> bool) option" where
  "parse_arguments [] has_tcti_config tcti_config add_sha384 = Some (tcti_config, add_sha384)"
| "parse_arguments (argument # rest) has_tcti_config tcti_config add_sha384 =
     (if argument = add_sha384_flag then parse_arguments rest has_tcti_config tcti_config True
      else if has_tcti_config then None
      else parse_arguments rest True argument add_sha384)"

definition parse_args :: "string list \<Rightarrow> (string \<times> bool) option" where
  "parse_args argv =
     (if length argv > 3 then None else parse_arguments (drop 1 argv) False default_tcti_config False)"

definition main_allocate_banks :: "'b installation \<Rightarrow> string list \<Rightarrow> 'b process" where
  "main_allocate_banks I argv =
     (case parse_args argv of
        None \<Rightarrow> usage argv '' [tcti-config] [--add-sha384]''
      | Some (tcti_config, add_sha384) \<Rightarrow>
          with_context I tcti_config None
            (with_provider I False (allocate_banks (step_in I) (in_legacy I) add_sha384)))"

definition main_auth_value_rejected :: "'b installation \<Rightarrow> string list \<Rightarrow> 'b process" where
  "main_auth_value_rejected I argv = one_argument I argv (auth_value_rejected (step_in I))"

definition main_reset_debug :: "'b installation \<Rightarrow> string list \<Rightarrow> 'b process" where
  "main_reset_debug I argv = one_argument I argv (reset_debug (step_in I) (in_legacy I) (in_limits I))"

definition main_read_sha256 :: "'b installation \<Rightarrow> string list \<Rightarrow> 'b process" where
  "main_read_sha256 I argv = one_argument I argv (read_sha256 (step_in I) (in_legacy I) (in_limits I))"

definition main_read_all_sha256 :: "'b installation \<Rightarrow> string list \<Rightarrow> 'b process" where
  "main_read_all_sha256 I argv = one_argument I argv (read_all_sha256 (step_in I) (in_legacy I) (in_limits I))"

definition main_multi_bank_extend_debug :: "'b installation \<Rightarrow> string list \<Rightarrow> 'b process" where
  "main_multi_bank_extend_debug I argv =
     one_argument I argv (multi_bank_extend_debug (step_in I) (in_legacy I) (in_limits I))"

definition main_event_all_banks :: "'b installation \<Rightarrow> string list \<Rightarrow> 'b process" where
  "main_event_all_banks I argv =
     (if length argv > 3 then usage argv '' [tcti-config] [event-text]''
      else let event_text = argument_or ''tpmkit PCR all-bank event example'' 2 argv in
        with_context I (argument_or default_tcti_config 1 argv) None
          (with_provider I False (event_all_banks (step_in I) (in_legacy I) (in_limits I) event_text)))"

definition main_event_debug :: "'b installation \<Rightarrow> string list \<Rightarrow> 'b process" where
  "main_event_debug I argv =
     (if length argv > 3 then usage argv '' [tcti-config] [event-text]''
      else let event_text = argument_or ''tpmkit PCR event example'' 2 argv in
        with_context I (argument_or default_tcti_config 1 argv) None
          (with_provider I True (event_debug (step_in I) heard_in (in_legacy I) (in_limits I) event_text)))"

definition default_sha256_digest :: string where
  "default_sha256_digest = ''000102030405060708090a0b0c0d0e0f101112131415161718191a1b1c1d1e1f''"

definition main_extend_debug :: "'b installation \<Rightarrow> string list \<Rightarrow> 'b process" where
  "main_extend_debug I argv =
     (if length argv > 3 then usage argv '' [tcti-config] [sha256-digest-hex]''
      else let digest_hex = argument_or default_sha256_digest 2 argv in
        checked_outcome (\<lambda>digest_bytes.
          with_context I (argument_or default_tcti_config 1 argv) None
            (with_provider I False
              (extend_debug (step_in I) (in_legacy I) (in_limits I) digest_hex digest_bytes)))
          (sha256_digest_bytes (in_legacy I) (in_limits I) digest_hex))"

definition traced_sha256_digest :: string where
  "traced_sha256_digest = ''101112131415161718191a1b1c1d1e1f202122232425262728292a2b2c2d2e2f''"

definition main_observer_trace :: "'b installation \<Rightarrow> string list \<Rightarrow> 'b process" where
  "main_observer_trace I argv =
     (if length argv > 3 then usage argv '' [tcti-config] [event-text]''
      else let event_text = argument_or ''tpmkit observer example'' 2 argv in
        checked_outcome (\<lambda>digest_bytes.
          with_context I (argument_or default_tcti_config 1 argv) None
            (with_provider I True
              (observer_trace (step_in I) heard_in (in_legacy I) event_text digest_bytes)))
          (decode_hex (in_limits I) traced_sha256_digest))"

datatype example =
    Tpm_context_basics bool
  | Active_banks
  | Allocate_banks
  | Auth_value_rejected
  | Event_all_banks
  | Event_debug
  | Extend_debug
  | Multi_bank_extend_debug
  | Observer_trace
  | Read_all_sha256
  | Read_sha256
  | Reset_debug

fun example_main :: "example \<Rightarrow> 'b installation \<Rightarrow> string list \<Rightarrow> 'b process" where
  "example_main (Tpm_context_basics has_stdio) = main_tpm_context_basics has_stdio"
| "example_main Active_banks = main_active_banks"
| "example_main Allocate_banks = main_allocate_banks"
| "example_main Auth_value_rejected = main_auth_value_rejected"
| "example_main Event_all_banks = main_event_all_banks"
| "example_main Event_debug = main_event_debug"
| "example_main Extend_debug = main_extend_debug"
| "example_main Multi_bank_extend_debug = main_multi_bank_extend_debug"
| "example_main Observer_trace = main_observer_trace"
| "example_main Read_all_sha256 = main_read_all_sha256"
| "example_main Read_sha256 = main_read_sha256"
| "example_main Reset_debug = main_reset_debug"

text \<open>The programs that ask for every bank the library knows by name.\<close>

definition probes_banks :: "example \<Rightarrow> bool" where
  "probes_banks ex \<longleftrightarrow>
     ex = Active_banks \<or> ex = Allocate_banks \<or> ex = Event_all_banks \<or> ex = Multi_bank_extend_debug"

section \<open>Every program ends, and leaves nothing open\<close>

text \<open>
  What a process leaves behind: its records are tidy, a program that returns from \<^verbatim>\<open>main\<close> has closed
  what it opened, one that an exception ends has left its context open. With libraries that keep their
  documentation, it has used its handles by the protocol of the theory Handle_Protocol.
\<close>

definition protocol_kept :: "fault + exit_code \<Rightarrow> notification action list \<Rightarrow> bool" where
  "protocol_kept r new \<longleftrightarrow>
     (case r of
        Inr c \<Rightarrow> \<exists>q. handle_run (Unused None) new (Unused q)
      | Inl f \<Rightarrow> \<exists>p e b. handle_run (Unused None) new (Esys_ready p e b))"

lemma protocol_kept_simps [simp]:
  "protocol_kept (Inr c) new \<longleftrightarrow> (\<exists>q. handle_run (Unused None) new (Unused q))"
  "protocol_kept (Inl f) new \<longleftrightarrow> (\<exists>p e b. handle_run (Unused None) new (Esys_ready p e b))"
  by (simp_all add: protocol_kept_def)

definition handles_installed :: "'b installation \<Rightarrow> bool" where
  "handles_installed I \<longleftrightarrow> handles_documented (in_tss I) (in_host I) (in_esys I)"

definition left_behind :: "'b installation \<Rightarrow> fault + exit_code \<Rightarrow> notification action list \<Rightarrow> bool" where
  "left_behind I r new \<longleftrightarrow> discreet new \<and> list_all tidy (records new) \<and>
     (case r of
        Inr c \<Rightarrow> tcti_closed new = tcti_opened new \<and> esys_closed new = esys_opened new
      | Inl f \<Rightarrow> length (tcti_opened new) = 1 \<and> tcti_closed new = [] \<and> esys_closed new = []) \<and>
     (handles_installed I \<longrightarrow> protocol_kept r new)"

definition clean ::
  "'b installation \<Rightarrow> (fault + exit_code \<Rightarrow> bool) \<Rightarrow> ('b, notification) world session \<Rightarrow>
   (fault + exit_code) \<times> ('b, notification) world session \<Rightarrow> bool" where
  "clean I R m x \<longleftrightarrow> R (fst x) \<and>
     (\<exists>new. actions (port (snd x)) = actions (port m) @ new \<and> left_behind I (fst x) new)"

lemma cleanI:
  "R (fst x) \<Longrightarrow> actions (port (snd x)) = actions (port m) @ new \<Longrightarrow> left_behind I (fst x) new \<Longrightarrow> clean I R m x"
  unfolding clean_def by blast

text \<open>The work on a context \<open>ctx\<close>: it uses the ESYS context of \<open>ctx\<close> and touches no other handle.\<close>

definition context_esys :: "tpm_context \<Rightarrow> ptr" where
  "context_esys ctx = (case ctx of None \<Rightarrow> None | Some i \<Rightarrow> ctx_esys i)"

definition gentle :: "(fault + exit_code \<Rightarrow> bool) \<Rightarrow> tpm_context \<Rightarrow> 'b process \<Rightarrow> bool" where
  "gentle R ctx P \<longleftrightarrow> (\<forall>m. R (fst (P m)) \<and> uses (context_esys ctx) (port m) (port (snd (P m))))"

definition documented_installation :: "'b installation \<Rightarrow> bool" where
  "documented_installation I \<longleftrightarrow>
     sizes_documented (in_tss I) \<and> alg_ids_documented (in_tss I) \<and> api_sized (in_tss I) (in_esys I) \<and>
     init_null_on_failure (in_tss I) (in_esys I) \<and> roomy (in_limits I)"

lemma gentle_with_provider:
  assumes "documented_installation I" and "R (Inr Exit_failure)" and "sound R same_service esys_provider_valid body"
  shows "gentle R ctx (with_provider I has_observer body ctx)"
proof (unfold gentle_def, intro allI)
  fix m :: "('a, notification) world session"
  show "R (fst (with_provider I has_observer body ctx m)) \<and>
      uses (context_esys ctx) (port m) (port (snd (with_provider I has_observer body ctx m)))"
  proof (cases "create_pcr_provider ctx has_observer")
    case (Inr p)
    have esys: "provider_esys p = context_esys ctx"
      using Inr by (auto simp: create_pcr_provider_def new_esys_pcr_provider_def context_esys_def
          split: option.splits if_splits)
    have "esys_provider_valid (port (service I p m))"
      using assms(1) by (simp add: service_def esys_provider_valid_def documented_installation_def default_esys_api_forwards)
    with assms(3) have "R (fst (body (service I p m))) \<and>
        same_service (port (service I p m)) (port (snd (body (service I p m))))"
      unfolding sound_def by blast
    with Inr esys show ?thesis
      by (simp add: with_provider_def split_beta same_service_def) (simp add: service_def world_session_def)
  qed (simp add: with_provider_def report_def assms(2))
qed

lemma create_in_leaves:
  assumes "documented_installation I"
  obtains r w new where "create_in I config log (port m) = (r, w)" "actions w = actions (port m) @ new"
    "no_leak context_open new r" "list_all tidy (records new)"
    "handles_installed I \<longrightarrow> (\<exists>t. handle_run (Unused None) new t \<and> context_ready t r)"
proof -
  let ?config = "\<lparr>cfg_tcti = config, cfg_startup = startup_clear, cfg_log = log\<rparr>"
  let ?create = "create_context_from_config (in_tss I) (in_host I) (default_tcti_loader_api (in_tcti I))
      (default_esys_api (in_esys I)) ?config (port m)"
  have api: "init_null_on_failure (in_tss I) (default_esys_api (in_esys I))"
    using assms by (simp add: documented_installation_def default_esys_api_forwards)
  have eq: "create_in I config log (port m) = ?create"
    by (simp add: create_in_def tpm_context_create_string_def tpm_context_create_def)
  obtain r w new where x: "?create = (r, w)" "actions w = actions (port m) @ new" "no_leak context_open new r"
    using leavesE [OF create_from_config_leaves [OF api, of "port m" "in_host I"
        "default_tcti_loader_api (in_tcti I)" ?config]] by blast
  moreover have "\<exists>t. handle_run (Unused None) new t \<and> context_ready t r" if "handles_installed I"
  proof -
    from that have doc: "handles_documented (in_tss I) (in_host I) (default_esys_api (in_esys I))"
      by (simp add: handles_installed_def default_esys_api_forwards)
    from create_handles [OF doc, of None "port m" "default_tcti_loader_api (in_tcti I)" ?config] x
    show ?thesis by (auto simp: handles_from_def)
  qed
  moreover from created_tidy x have "list_all tidy (records new)" by blast
  ultimately show thesis using that eq by auto
qed

lemma with_context_returned:
  "create_in I config log (port m) = (returns ctx, w) \<Longrightarrow> body ctx (m\<lparr>port := w\<rparr>) = (r, m') \<Longrightarrow>
   with_context I config log body m =
     (r, case r of
           Inl f \<Rightarrow> m'
         | Inr c \<Rightarrow> m'\<lparr>port := destroy_context (in_host I) (default_esys_api (in_esys I)) ctx (port m')\<rparr>)"
  by (simp add: with_context_def checked_def calling_def checked_outcome_def Let_def split: sum.splits)

text \<open>The run of the handles over the whole process.\<close>

lemma handles_of_process:
  assumes "handles_installed I" and "handle_run (Unused None) new t" and "context_ready t (returns ctx)"
    and "actions w = actions w0 @ new" and "actions v = actions w @ used" and "list_all (use_of (context_esys ctx)) used"
  shows "\<exists>p e b. handle_run (Unused None) (new @ used) (Esys_ready p e b)"
    and "\<exists>tail q. actions (destroy_context (in_host I) (default_esys_api (in_esys I)) ctx v) = actions v @ tail \<and>
        handle_run (Unused None) (new @ used @ tail) (Unused q)"
proof -
  obtain i p e b where ctx: "ctx = Some i" "tcti_pointer (ctx_tcti i) = Some p" "ctx_esys i = Some e"
      "t = Esys_ready p e b"
    using assms(3) by (auto simp: context_ready_def)
  with assms(6) uses_in_stage [of e used p b] obtain b' where used: "handle_run t used (Esys_ready p e b')"
    by (auto simp: context_esys_def)
  with assms(2) show "\<exists>p e b. handle_run (Unused None) (new @ used) (Esys_ready p e b)" by auto
  from assms(1) have "handles_documented (in_tss I) (in_host I) (default_esys_api (in_esys I))"
    by (simp add: handles_installed_def default_esys_api_forwards)
  from destroy_handles [OF this ctx(2,3), of b' v] obtain tail q where
    "actions (destroy_context (in_host I) (default_esys_api (in_esys I)) ctx v) = actions v @ tail"
    "handle_run (Esys_ready p e b') tail (Unused q)"
    unfolding handles_from_def ctx(1) by auto
  with used assms(2) show "\<exists>tail q. actions (destroy_context (in_host I) (default_esys_api (in_esys I)) ctx v) =
      actions v @ tail \<and> handle_run (Unused None) (new @ used @ tail) (Unused q)" by auto
qed

lemma clean_with_context:
  assumes I: "documented_installation I" and "R (Inr Exit_failure)" and "\<And>ctx. gentle R ctx (body ctx)"
  shows "clean I R m (with_context I config log body m)"
proof -
  obtain r w new where create: "create_in I config log (port m) = (r, w)"
    "actions w = actions (port m) @ new" "no_leak context_open new r"
    "list_all tidy (records new)" "handles_installed I \<longrightarrow> (\<exists>t. handle_run (Unused None) new t \<and> context_ready t r)"
    by (rule create_in_leaves [OF I, where config = config and log = log and m = m])
  show ?thesis
  proof (cases r rule: try_cases)
    case (failed e)
    then have "handles_installed I \<Longrightarrow> \<exists>q. handle_run (Unused None) new (Unused q)"
      using create(5) by (auto simp: context_ready_def)
    with failed create(1-4) assms(2) show ?thesis
      by (intro cleanI [of _ _ _ new])
         (auto simp: left_behind_def with_context_def checked_def calling_def checked_outcome_def report_def)
  next
    case (returned ctx)
    obtain i p where ctx: "ctx = Some i" "tcti_opened new = [p]" "tcti_closed new = []"
      "ctx_tcti i = \<lparr>tcti_pointer = Some p, tcti_delete_with = Finalize_loaded_tcti\<rparr>"
      "esys_opened new = addresses (ctx_esys i)" "esys_closed new = []"
      using create(3) returned by (auto simp: context_open_def)
    have disc: "discreet new" using create(3) returned by simp
    obtain b m' where eq: "body ctx (m\<lparr>port := w\<rparr>) = (b, m')" by fastforce
    obtain used where body: "R b" "actions (port m') = actions w @ used" "list_all (use_of (context_esys ctx)) used"
      using assms(3) [of ctx] eq unfolding gentle_def uses_def
      by (metis fst_conv session.select_convs(1) session.surjective session.update_convs(1) snd_conv)
    have quiet: "no_handles used" "discreet used" "list_all tidy (records used)"
      using uses_quiet [OF body(3)] uses_tidy [OF body(3)] by simp_all
    let ?tail = "map Logged (emit_success_record True ev_finalized []) @
        map (\<lambda>e. Called (Esys_Finalize (Some e))) (addresses (ctx_esys i)) @ [Called (Tcti_Finalize (Some p))]"
    note whole = with_context_returned [where body = body, OF create(1) [unfolded returned] eq]
    have runs: "\<exists>p e b. handle_run (Unused None) (new @ used) (Esys_ready p e b)"
      "\<exists>q. handle_run (Unused None) (new @ used @ ?tail) (Unused q)" if doc: "handles_installed I"
    proof -
      from create(5) doc returned obtain t where t: "handle_run (Unused None) new t" "context_ready t (returns ctx)"
        by auto
      note process = handles_of_process [OF doc t create(2) body(2,3)]
      show "\<exists>p e b. handle_run (Unused None) (new @ used) (Esys_ready p e b)" by (rule process(1))
      from process(2) destroy_loaded_context [OF ctx(4), of "in_host I" "default_esys_api (in_esys I)" "port m'"]
      show "\<exists>q. handle_run (Unused None) (new @ used @ ?tail) (Unused q)"
        unfolding ctx(1) by (auto simp del: handle_run_append)
    qed
    show ?thesis
    proof (cases b)
      case (Inl f)
      with whole body quiet ctx disc create(2,4) show ?thesis
        by (intro cleanI [of _ _ _ "new @ used"]) (simp_all add: left_behind_def no_handles_def runs del: handle_run_append)
    next
      case (Inr c)
      with whole body quiet ctx disc create(2,4) show ?thesis
        by (intro cleanI [of _ _ _ "new @ used @ ?tail"])
           (simp_all add: left_behind_def no_handles_def runs del: handle_run_append
             add: destroy_loaded_context [OF ctx(4), of "in_host I" "default_esys_api (in_esys I)" "port m'"])
    qed
  qed (use create in simp)
qed

lemma clean_stop [simp]:
  "R (Inr Exit_failure) \<Longrightarrow> clean I R m (report e m)" "R (Inr Exit_failure) \<Longrightarrow> clean I R m (give_up s m)"
  "R (Inr Exit_failure) \<Longrightarrow> clean I R m (usage argv s m)"
  by (auto simp: left_behind_def report_def give_up_def usage_def intro!: cleanI [of _ _ _ "[]"])

lemma gentle_basics: "R (Inr c) \<Longrightarrow> gentle R ctx (printing s (finish c))"
  by (simp add: gentle_def printing_def finish_def)

lemma client_programs:
  "in_legacy I \<Longrightarrow> roomy L \<Longrightarrow> sound exits same_service esys_provider_valid (active_banks (step_in I) (in_legacy I) L)"
  "in_legacy I \<Longrightarrow> sound exits same_service esys_provider_valid (allocate_banks (step_in I) (in_legacy I) add_sha384)"
  "sound exits same_service esys_provider_valid (auth_value_rejected (step_in I))"
  "roomy L \<Longrightarrow> sound exits same_service esys_provider_valid (reset_debug (step_in I) (in_legacy I) L)"
  "roomy L \<Longrightarrow> sound exits same_service esys_provider_valid (read_sha256 (step_in I) (in_legacy I) L)"
  "roomy L \<Longrightarrow> sound exits same_service esys_provider_valid (read_all_sha256 (step_in I) (in_legacy I) L)"
  "in_legacy I \<Longrightarrow> roomy L \<Longrightarrow>
     sound exits same_service esys_provider_valid (event_all_banks (step_in I) (in_legacy I) L event_text)"
  "roomy L \<Longrightarrow> sound exits same_service esys_provider_valid (event_debug (step_in I) heard_in (in_legacy I) L event_text)"
  "roomy L \<Longrightarrow> length digest_bytes = 32 \<Longrightarrow>
     sound exits same_service esys_provider_valid (extend_debug (step_in I) (in_legacy I) L digest_hex digest_bytes)"
  "in_legacy I \<Longrightarrow> roomy L \<Longrightarrow>
     sound exits same_service esys_provider_valid (multi_bank_extend_debug (step_in I) (in_legacy I) L)"
  "length digest_bytes = 32 \<Longrightarrow>
     sound exits same_service esys_provider_valid (observer_trace (step_in I) heard_in (in_legacy I) event_text digest_bytes)"
  unfolding step_in_def heard_in_def [abs_def]
  by (fact esys_client.sound_active_banks esys_client.sound_allocate_banks esys_client.sound_auth_value_rejected
      esys_client.sound_reset_debug esys_client.sound_read_sha256 esys_client.sound_read_all_sha256
      esys_client.sound_event_all_banks esys_client.sound_event_debug esys_client.sound_extend_debug
      esys_client.sound_multi_bank_extend_debug esys_client.sound_observer_trace)+

lemma one_argument_clean:
  "documented_installation I \<Longrightarrow> R (Inr Exit_failure) \<Longrightarrow> sound R same_service esys_provider_valid body \<Longrightarrow>
   clean I R m (one_argument I argv body m)"
  by (simp add: one_argument_def clean_with_context gentle_with_provider)

lemma sha256_digest_bytes_length: "sha256_digest_bytes legacy L s = Inr bs \<Longrightarrow> length bs = 32"
  by (auto simp: sha256_digest_bytes_def bind_ok_Inr_iff split: if_splits)

lemma traced_digest_length: "decode_hex L traced_sha256_digest = Inr bs \<Longrightarrow> length bs = 32"
proof -
  assume "decode_hex L traced_sha256_digest = Inr bs"
  then have "decode_pairs traced_sha256_digest = Some bs"
    by (simp add: decode_hex_cases split: if_splits option.splits)
  then have "concat (map encode_byte bs) = map lower_hex traced_sha256_digest"
    by (rule encoded_decode_pairs)
  then have "2 * length bs = length traced_sha256_digest" by (metis length_encoded length_map)
  then show ?thesis by (simp add: traced_sha256_digest_def)
qed

lemma example_clean:
  assumes I: "documented_installation I" and probe: "in_legacy I \<or> \<not> probes_banks ex"
  shows "clean I exits m (example_main ex I argv m)"
proof -
  have roomy: "roomy (in_limits I)" using I by (simp add: documented_installation_def)
  note one = one_argument_clean [OF I] and inner = clean_with_context [OF I] gentle_with_provider [OF I]
  note body = client_programs [where I = I]
  show ?thesis
  proof (cases ex)
    case (Tpm_context_basics has_stdio)
    then show ?thesis
      by (simp add: main_tpm_context_basics_def Let_def clean_with_context [OF I] gentle_basics)
  next
    case Active_banks
    with probe have "clean I exits m (one_argument I argv (active_banks (step_in I) (in_legacy I) (in_limits I)) m)"
      by (intro one body roomy exits_Inr) (simp_all add: probes_banks_def)
    with Active_banks show ?thesis by (simp add: main_active_banks_def)
  next
    case Multi_bank_extend_debug
    with probe have "clean I exits m (one_argument I argv (multi_bank_extend_debug (step_in I) (in_legacy I) (in_limits I)) m)"
      by (intro one body roomy exits_Inr) (simp_all add: probes_banks_def)
    with Multi_bank_extend_debug show ?thesis by (simp add: main_multi_bank_extend_debug_def)
  next
    case Allocate_banks
    with probe have "clean I exits m (with_context I config None (with_provider I False
        (allocate_banks (step_in I) (in_legacy I) add_sha384)) m)" for config add_sha384
      by (intro inner body exits_Inr) (simp_all add: probes_banks_def)
    with Allocate_banks show ?thesis
      by (auto simp: main_allocate_banks_def split: option.splits)
  next
    case Extend_debug
    then show ?thesis
      by (auto simp: main_extend_debug_def Let_def checked_outcome_def split: sum.splits
          intro!: inner body roomy exits_Inr sha256_digest_bytes_length)
  next
    case Observer_trace
    then show ?thesis
      by (auto simp: main_observer_trace_def Let_def checked_outcome_def split: sum.splits
          intro!: inner body roomy exits_Inr traced_digest_length)
  next
    case Event_all_banks
    with probe have "clean I exits m (with_context I config None (with_provider I False
        (event_all_banks (step_in I) (in_legacy I) (in_limits I) event_text)) m)" for config event_text
      by (intro inner body roomy exits_Inr) (simp_all add: probes_banks_def)
    with Event_all_banks show ?thesis by (simp add: main_event_all_banks_def Let_def)
  next
    case Event_debug
    then show ?thesis
      by (simp add: main_event_debug_def Let_def inner body roomy)
  qed (simp_all add: main_auth_value_rejected_def main_read_all_sha256_def main_read_sha256_def
        main_reset_debug_def one body roomy)
qed

lemma default_failure [simp]: "default_build_end (Inr Exit_failure)"
  by (simp add: default_build_end_def)

lemma probe_programs_default:
  "\<not> in_legacy I \<Longrightarrow> sound default_build_end same_service esys_provider_valid (active_banks (step_in I) (in_legacy I) L)"
  "\<not> in_legacy I \<Longrightarrow>
     sound default_build_end same_service esys_provider_valid (allocate_banks (step_in I) (in_legacy I) add_sha384)"
  "\<not> in_legacy I \<Longrightarrow> roomy L \<Longrightarrow>
     sound default_build_end same_service esys_provider_valid (event_all_banks (step_in I) (in_legacy I) L event_text)"
  "\<not> in_legacy I \<Longrightarrow>
     sound default_build_end same_service esys_provider_valid (multi_bank_extend_debug (step_in I) (in_legacy I) L)"
  unfolding step_in_def
  by (fact esys_client.sound_active_banks_default esys_client.sound_allocate_banks_default
      esys_client.sound_event_all_banks_default esys_client.sound_multi_bank_extend_debug_default)+

lemma example_default_build:
  assumes I: "documented_installation I" and "\<not> in_legacy I" and "probes_banks ex"
  shows "clean I default_build_end m (example_main ex I argv m)"
proof -
  have roomy: "roomy (in_limits I)" using I by (simp add: documented_installation_def)
  note one = one_argument_clean [where R = default_build_end, OF I default_failure]
    and inner = clean_with_context [where R = default_build_end, OF I default_failure]
      gentle_with_provider [where R = default_build_end, OF I default_failure]
    and body = probe_programs_default [OF assms(2)]
  from assms(3) consider "ex = Active_banks" | "ex = Allocate_banks" | "ex = Event_all_banks" | "ex = Multi_bank_extend_debug"
    by (auto simp: probes_banks_def)
  then show ?thesis
  proof cases
    case 1
    then show ?thesis using one [OF body(1)] by (simp add: main_active_banks_def)
  next
    case 2
    then show ?thesis using inner(1) [OF inner(2) [OF body(2)]]
      by (auto simp: main_allocate_banks_def split: option.splits)
  next
    case 3
    then show ?thesis using inner(1) [OF inner(2) [OF body(3) [OF roomy]]]
      by (simp add: main_event_all_banks_def Let_def)
  next
    case 4
    then show ?thesis using one [OF body(4)] by (simp add: main_multi_bank_extend_debug_def)
  qed
qed

section \<open>The trace program\<close>

definition trace_outcome :: "string \<Rightarrow> (fault + exit_code) \<times> 's session \<Rightarrow> bool" where
  "trace_outcome event_text x \<longleftrightarrow>
     (fst x = Inr Exit_failure \<and> out_text (snd x) = [] \<and> err_text (snd x) \<noteq> []) \<or>
     (fst x = Inr Exit_success \<and> err_text (snd x) = [] \<and> (\<exists>n. out_text (snd x) =
        ''extend digests=1 event_bytes=0'' @ newline @ ''event digests='' @ decimal_string n @ '' event_bytes='' @
        decimal_string (length event_text) @ newline))"

lemma trace_lines:
  "measurement_line \<lparr>digest_count = 1, event_size = 0, operation = ''extend''\<rparr> =
     ''extend digests=1 event_bytes=0'' @ newline"
  by code_simp

lemma trace_failed: "out_text m = [] \<Longrightarrow> trace_outcome event_text (report e m)"
  by (simp add: trace_outcome_def report_def print_error_def complain_def newline_def)

lemma told_create_in: "create_in I config log w = (r, w') \<Longrightarrow> told w' = told w"
  using told_create [of "in_tss I" "in_host I" "default_tcti_loader_api (in_tcti I)"
      "default_esys_api (in_esys I)" "\<lparr>cfg_tcti = config, cfg_startup = startup_clear, cfg_log = log\<rparr>" w]
  by (simp add: create_in_def tpm_context_create_string_def tpm_context_create_def)

lemma trace_service:
  assumes I: "documented_installation I" and p: "create_pcr_provider ctx True = Inr p" and told: "told (port m) = []"
    and bytes: "length bytes = 32" and texts: "out_text m = []" "err_text m = []"
    and run: "observer_trace (step_in I) heard_in (in_legacy I) event_text bytes (service I p m) = (c, s)"
  shows "trace_outcome event_text (c, s) \<and> (\<exists>x. c = Inr x)"
proof -
  let ?s = "service I p m"
  have s: "esys_provider_valid (port ?s)" "provider_has_observer (ep_provider (port ?s))"
    "notifications (actions (ep_world (port ?s))) = []"
    using I p told
    by (auto simp: service_def esys_provider_valid_def documented_installation_def default_esys_api_forwards
        create_pcr_provider_def new_esys_pcr_provider_def told_def split: option.splits if_splits)
  have "out_text ?s = []" "err_text ?s = []" using texts by (simp_all add: service_def)
  with esys_client.observer_trace_result [OF s bytes run [unfolded step_in_def heard_in_def [abs_def]]]
  show ?thesis
    unfolding trace_lines
    by (fastforce simp: trace_outcome_def newline_def measurement_line_def)
qed

lemma trace_process:
  assumes I: "documented_installation I" and told: "told (port m) = []"
    and bytes: "length bytes = 32" and texts: "out_text m = []" "err_text m = []"
  shows "trace_outcome event_text (with_context I config None (with_provider I True
      (observer_trace (step_in I) heard_in (in_legacy I) event_text bytes)) m)"
    (is "trace_outcome _ (with_context _ _ _ ?body _)")
proof -
  obtain r w where create: "create_in I config None (port m) = (r, w)" by fastforce
  let ?m = "m\<lparr>port := w\<rparr>"
  have new: "told (port ?m) = []" "out_text ?m = []" "err_text ?m = []"
    using told_create_in [OF create] told texts by simp_all
  show ?thesis
  proof (cases r rule: try_cases)
    case (abrupt f)
    with create_in_leaves [OF I, of config None m] create show ?thesis by (metis fst_conv no_leak_simps(3))
  next
    case (failed e)
    with create new trace_failed [of ?m event_text e] show ?thesis
      by (simp add: with_context_def checked_def calling_def checked_outcome_def)
  next
    case (returned ctx)
    obtain c s where body: "?body ctx ?m = (c, s)" by fastforce
    have "trace_outcome event_text (c, s) \<and> (\<exists>x. c = Inr x)"
    proof (cases "create_pcr_provider ctx True")
      case (Inl e)
      with body trace_failed [of ?m event_text e] new(2) show ?thesis
        by (auto simp: with_provider_def report_def)
    next
      case (Inr p)
      obtain d t where run: "observer_trace (step_in I) heard_in (in_legacy I) event_text bytes (service I p ?m) = (d, t)"
        by fastforce
      with body Inr have "c = d" "s = world_session t" by (simp_all add: with_provider_def)
      with trace_service [OF I Inr new(1) bytes new(2,3) run] show ?thesis
        by (simp add: trace_outcome_def world_session_def)
    qed
    with with_context_returned [where body = ?body, OF create [unfolded returned] body] show ?thesis
      by (auto simp: trace_outcome_def)
  qed
qed

section \<open>The banks a program asks for\<close>

lemma requested_small:
  assumes "subseq found all_hash_algorithms"
  shows "distinct (requested_banks add found) \<and> set (requested_banks add found) \<subseteq> set all_hash_algorithms \<and>
    length (requested_banks add found) \<le> 4"
proof -
  let ?r = "requested_banks add found"
  have "found \<in> set (subseqs all_hash_algorithms)" using assms by simp
  then have found: "distinct found" "set found \<subseteq> set all_hash_algorithms"
    by (auto simp: all_hash_algorithms_def simp del: in_set_subseqs)
  then have r: "distinct ?r" "set ?r \<subseteq> set all_hash_algorithms"
    by (auto simp: requested_banks_def contains_algorithm_def find_None_iff all_hash_algorithms_def)
  have "length ?r = card (set ?r)" using r(1) by (simp add: distinct_card)
  also have "\<dots> \<le> card (set all_hash_algorithms)" using r(2) by (intro card_mono) simp_all
  finally show ?thesis using r by (simp add: all_hash_algorithms_def)
qed

lemma active_banks_found:
  assumes "esys_provider_valid (port m)"
    and run: "active_pcr_algorithms (esys_provider_step True) True (port m) = (r, s)"
  shows "\<exists>found. r = Inr found \<and> subseq found all_hash_algorithms \<and>
      same_service (port m) s"
proof -
  have "op_sound same_service esys_provider_valid
      (\<lambda>x. \<exists>found. x = Inr ([] @ found) \<and> subseq found all_hash_algorithms)
      (map_prod or_throw id \<circ> active_pcr_algorithms (esys_provider_step True) True)"
    unfolding active_pcr_algorithms_def [abs_def]
    by (rule esys_client.probe_sound) (simp add: all_hash_algorithms_def)
  then show ?thesis using assms(1) unfolding op_sound_def using run by (auto dest!: spec [of _ "port m"])
qed

section \<open>An instance\<close>

definition lab_installation :: "bool \<Rightarrow> u32 installation" where
  "lab_installation legacy =
     \<lparr>in_tss = tss_4_1, in_legacy = legacy,
      in_limits = \<lparr>size_max = 1000, string_max_size = 1000, vector_max_size = 1000\<rparr>,
      in_host = lab_host, in_tcti = lab_tcti_api, in_esys = lab_esys\<rparr>"

lemma lab_installation_documented [simp]:
  "documented_installation (lab_installation legacy)" "in_legacy (lab_installation legacy) = legacy"
  using lab_api_sized lab_init_null
  by (simp_all add: documented_installation_def lab_installation_def api_sized_def roomy_def)

lemma lab_installation_handles [simp]: "handles_installed (lab_installation legacy)"
  by (simp add: handles_installed_def handles_documented_def lab_installation_def lab_host_def tss_4_1_fields)

section \<open>Properties\<close>

text \<open>
  C34: Every example program, whatever its arguments and whatever the libraries answer, returns an exit
  code from main with nothing left open: the TCTI contexts and ESYS contexts that were opened have been
  finalized, once each, and no log record names a TCTI beyond the public names. For the programs that
  probe all banks this takes a build with SHA-1.
\<close>
theorem examples_release_everything:
  assumes "documented_installation I" and "in_legacy I \<or> \<not> probes_banks ex"
  shows "case example_main ex I argv (start b) of (r, m) \<Rightarrow>
    exits r \<and> tcti_closed (actions (port m)) = tcti_opened (actions (port m)) \<and>
    esys_closed (actions (port m)) = esys_opened (actions (port m)) \<and> discreet (actions (port m))"
  using example_clean [OF assms, of "start b" argv]
  by (auto simp: clean_def left_behind_def exits_def start_def)

lemma examples_release_everything_witness:
  "case example_main Event_debug (lab_installation False) [''event_debug'', ''swtpm:port=2321''] (start 0) of (r, m) \<Rightarrow>
    exits r \<and> tcti_closed (actions (port m)) = tcti_opened (actions (port m)) \<and>
    esys_closed (actions (port m)) = esys_opened (actions (port m)) \<and> discreet (actions (port m))"
  by (rule examples_release_everything) (simp_all add: probes_banks_def)

text \<open>
  C35: Every example program, whatever its arguments and whatever the libraries answer within their
  documentation, uses its handles in the order of the protocol: each info request is released; the
  storage of the TCTI is initialized once, with the size it was allocated with; the ESYS context is
  created on that TCTI only after the TCTI is announced as configured; the TPM is started at most once,
  before any other command; every command and every buffer handed back falls between the creation and
  the finalization of its ESYS context; and the TCTI is finalized last, once. A program that returns
  from main ends the protocol, one that an exception ends stops at its open context.
\<close>
theorem handles_used_in_order:
  assumes "documented_installation I" and "handles_installed I"
  shows "case example_main ex I argv (start b) of (r, m) \<Rightarrow>
    protocol_kept r (actions (port m)) \<and> commands_on_open_contexts (actions (port m))"
proof -
  have "clean I (\<lambda>r. True) (start b) (example_main ex I argv (start b))"
    using example_clean [OF assms(1), of ex "start b" argv] example_default_build [OF assms(1), of ex "start b" argv]
    by (cases "in_legacy I \<or> \<not> probes_banks ex") (auto simp: clean_def)
  with assms(2) have "case example_main ex I argv (start b) of (r, m) \<Rightarrow> protocol_kept r (actions (port m))"
    by (auto simp: clean_def left_behind_def start_def)
  moreover have "commands_on_open_contexts as" if "protocol_kept r as" for r as
    using that run_commands_open by (cases r) auto
  ultimately show ?thesis by (auto split: prod.splits)
qed

lemma handles_used_in_order_witness:
  "case example_main Event_debug (lab_installation False) [''event_debug'', ''swtpm:port=2321''] (start 0) of (r, m) \<Rightarrow>
    protocol_kept r (actions (port m)) \<and> commands_on_open_contexts (actions (port m))"
  by (rule handles_used_in_order) simp_all

text \<open>
  C37: In the default build, without SHA-1, the programs that probe all banks never succeed: each run
  ends in the failure exit code with everything closed, or in the exception of the SHA-1 selection,
  which leaves main with the context still open.
\<close>
theorem bank_probe_uncaught:
  assumes "documented_installation I" and "\<not> in_legacy I" and "probes_banks ex"
  shows "case example_main ex I argv (start b) of (r, m) \<Rightarrow>
    (r = Inr Exit_failure \<and> tcti_closed (actions (port m)) = tcti_opened (actions (port m)) \<and>
       esys_closed (actions (port m)) = esys_opened (actions (port m))) \<or>
    (r = Inl (input_validation_error ''unsupported PCR selection hash algorithm'') \<and>
       length (tcti_opened (actions (port m))) = 1 \<and> tcti_closed (actions (port m)) = [] \<and>
       esys_closed (actions (port m)) = [])"
  using example_default_build [OF assms, of "start b" argv]
  by (auto simp: clean_def left_behind_def default_build_end_def unsupported_selection_def start_def)

text \<open>The exception is met as soon as there is a usable context.\<close>

lemma probe_crash:
  assumes "\<not> in_legacy I" and "create_in I default_tcti_config None (port m) = (returns (Some i), w)"
    and "ctx_esys i = Some e"
  shows "main_active_banks I [name] m = (Inl unsupported_selection, m\<lparr>port := w\<rparr>)"
  using assms
  by (simp add: main_active_banks_def one_argument_def argument_or_def with_context_def checked_def calling_def
      checked_outcome_def with_provider_def create_pcr_provider_def active_banks_def all_hash_algorithms_def
      throwing_def esys_client.sha1_selection service_def world_session_def Let_def)

lemma lab_create_default:
  "\<exists>i w. create_in (lab_installation legacy) default_tcti_config None (port (start 0)) = (returns (Some i), w) \<and>
     ctx_esys i = Some 1"
proof -
  have wf: "wf_tcti_config ''tabrmd:bus_type=system''"
    by (simp add: wf_tcti_config_def is_space_def Let_def)
  have "fst (create_in (lab_installation legacy) default_tcti_config None (port (start 0))) =
     returns (Some \<lparr>ctx_tcti = \<lparr>tcti_pointer = Some 50, tcti_delete_with = Finalize_loaded_tcti\<rparr>,
                     ctx_esys = Some 1, ctx_log = Noop_logger\<rparr>)"
    by (simp add: create_in_def tpm_context_create_string_def tpm_context_create_def default_esys_api_forwards
        default_tcti_loader_api_forwards lab_installation_def default_tcti_config_def
        create_context_from_config_def validate_context_config_def
        resolve_tcti_def load_tcti_def validate_config_eq wf invoke_def lab_tcti_api_def tss_4_1_fields
        allocate_tcti_loader_context_def lab_host_def create_from_resolved_tcti_def initialize_esys_def
        start_tpm_def effective_logger_def lab_api_def act_def write_log_def start_def Let_def)
  then show ?thesis by (metis context_impl.select_convs(2) prod.collapse)
qed

lemma bank_probe_uncaught_witness:
  "fst (example_main Active_banks (lab_installation False) [''active_banks''] (start 0)) =
     Inl (input_validation_error ''unsupported PCR selection hash algorithm'') \<and>
   (case example_main Active_banks (lab_installation False) [''active_banks''] (start 0) of (r, m) \<Rightarrow>
    (r = Inr Exit_failure \<and> tcti_closed (actions (port m)) = tcti_opened (actions (port m)) \<and>
       esys_closed (actions (port m)) = esys_opened (actions (port m))) \<or>
    (r = Inl (input_validation_error ''unsupported PCR selection hash algorithm'') \<and>
       length (tcti_opened (actions (port m))) = 1 \<and> tcti_closed (actions (port m)) = [] \<and>
       esys_closed (actions (port m)) = []))"
proof
  obtain i w where "create_in (lab_installation False) default_tcti_config None (port (start 0)) = (returns (Some i), w)"
    "ctx_esys i = Some 1"
    using lab_create_default by blast
  then show "fst (example_main Active_banks (lab_installation False) [''active_banks''] (start 0)) =
     Inl (input_validation_error ''unsupported PCR selection hash algorithm'')"
    using probe_crash [of "lab_installation False" "start 0" i w 1] by (simp add: unsupported_selection_def)
qed (rule bank_probe_uncaught; simp add: probes_banks_def)

text \<open>
  C38: The trace program either reports an error on the error stream and prints nothing, or succeeds and
  prints exactly two lines: its one-digest extend, then its event with the size of the event text.
\<close>
theorem observer_trace_exact:
  assumes "documented_installation I"
  shows "case example_main Observer_trace I argv (start b) of (r, m) \<Rightarrow>
    (r = Inr Exit_failure \<and> out_text m = [] \<and> err_text m \<noteq> []) \<or>
    (r = Inr Exit_success \<and> err_text m = [] \<and> (\<exists>n. out_text m =
       ''extend digests=1 event_bytes=0'' @ newline @ ''event digests='' @ decimal_string n @ '' event_bytes='' @
       decimal_string (length (argument_or ''tpmkit observer example'' 2 argv)) @ newline))"
proof -
  let ?text = "argument_or ''tpmkit observer example'' 2 argv"
  have "told (port (start b)) = []" "out_text (start b) = []" "err_text (start b) = []"
    by (simp_all add: start_def told_def)
  moreover from this have "trace_outcome ?text (usage argv arguments (start b))" for arguments
    by (simp add: trace_outcome_def usage_def give_up_def complain_def newline_def)
  ultimately have "trace_outcome ?text (example_main Observer_trace I argv (start b))"
    using trace_process [OF assms _ traced_digest_length, of "start b"] trace_failed [of "start b" ?text]
    by (auto simp: main_observer_trace_def Let_def checked_outcome_def split: sum.splits)
  then show ?thesis by (simp add: trace_outcome_def split_beta)
qed

lemma observer_trace_exact_witness:
  "case example_main Observer_trace (lab_installation False) [''observer_trace''] (start 0) of (r, m) \<Rightarrow>
    (r = Inr Exit_failure \<and> out_text m = [] \<and> err_text m \<noteq> []) \<or>
    (r = Inr Exit_success \<and> err_text m = [] \<and> (\<exists>n. out_text m =
       ''extend digests=1 event_bytes=0'' @ newline @ ''event digests='' @ decimal_string n @ '' event_bytes='' @
       decimal_string (length (argument_or ''tpmkit observer example'' 2 [''observer_trace''])) @ newline))"
  by (rule observer_trace_exact) simp

text \<open>
  The program that sets a non-empty authorization value succeeds whenever it gets a usable context:
  the value is refused, and between the creation of the context and its teardown nothing reaches the
  library, the log or an observer.
\<close>
theorem auth_example_rejected:
  assumes "documented_installation I" and "length argv \<le> 2"
    and "create_in I (argument_or default_tcti_config 1 argv) None (port (start b)) = (returns (Some i), w)"
    and "ctx_esys i = Some e"
  shows "example_main Auth_value_rejected I argv (start b) =
    (Inr Exit_success,
     \<lparr>port = destroy_context (in_host I) (default_esys_api (in_esys I)) (Some i) w,
      out_text = ''non-empty PCR auth value rejected without secure transport'' @ newline, err_text = []\<rparr>)"
proof -
  let ?m = "start b\<lparr>port := w\<rparr>" and ?p = "new_esys_pcr_provider (Some e) False"
  have "64 \<le> digest_buffer_size (in_tss I)"
    using assms(1) by (simp add: documented_installation_def sizes_documented_def)
  then have refused: "provider_set_auth_value (in_tss I) api ?p debug_index (replicate 16 0xa5) w =
      (fails (err resource_error
         ''secure PCR auth value transport is unavailable for non-empty authorization values''), w)" for api
    by (subst provider_set_auth_value_rejected) (simp_all add: new_esys_pcr_provider_def)
  have "with_provider I False (auth_value_rejected (step_in I)) (Some i) ?m =
      (Inr Exit_success, say (''non-empty PCR auth value rejected without secure transport'' @ newline) ?m)"
    using assms(4) refused
    by (simp add: with_provider_def create_pcr_provider_def auth_value_rejected_def calling_def ask_def service_def
        step_in_def esys_provider_step_def printing_def finish_def say_def world_session_def)
  from with_context_returned [where body = "with_provider I False (auth_value_rejected (step_in I))", OF assms(3) this]
  show ?thesis
    using assms(2) by (simp add: main_auth_value_rejected_def one_argument_def say_def start_def)
qed

text \<open>
  In a build with SHA-1 the allocation program asks for exactly the banks that answered the probe,
  in their order, and for SHA-384 once when the flag adds it; a request it makes is one the provider
  accepts.
\<close>
theorem bank_request_accepted:
  assumes "esys_provider_valid (port m)" and "4 \<le> num_pcr_banks (ep_tss (port m))"
  shows "\<exists>found banks s. active_pcr_algorithms (esys_provider_step True) True (port m) = (Inr found, s) \<and>
    subseq found all_hash_algorithms \<and> map bank_algorithm banks = requested_banks add found \<and>
    set (map bank_algorithm banks) = set found \<union> (if add then {sha384} else {}) \<and>
    accepts_banks (ep_tss s) banks = (found \<noteq> [] \<or> add) \<and>
    allocate_banks (esys_provider_step True) True add m =
      (if found = [] then give_up (''no active PCR banks found'' @ newline)
       else checked (ask (esys_provider_step True) (Allocate banks) as_allocated) (\<lambda>r.
              printing (allocation_report (requested_banks add found) r)
                (finish (if allocation_success r then Exit_success else Exit_failure))))
        (m\<lparr>port := s\<rparr>)"
proof -
  let ?step = "esys_provider_step True"
  obtain r s where run: "active_pcr_algorithms ?step True (port m) = (r, s)" by fastforce
  obtain found where probe: "active_pcr_algorithms ?step True (port m) = (Inr found, s)"
    and found: "subseq found all_hash_algorithms" and same: "same_service (port m) s"
    using active_banks_found [OF assms(1) run] run by auto
  let ?requested = "requested_banks add found"
  note small = requested_small [OF found, of add]
  then have supported: "\<forall>a \<in> set ?requested. supported_hash True a"
    by (auto simp: all_hash_algorithms_def)
  obtain banks where banks: "make_banks True ?requested [] = Inr banks" "map bank_algorithm banks = ?requested"
    using esys_client.make_banks_ok [OF supported, of "[]"] by auto
  have len: "length banks = length ?requested" using banks(2) by (metis length_map)
  have sha384: "set ?requested = set found \<union> (if add then {sha384} else {})"
    by (auto simp: requested_banks_def contains_algorithm_def find_None_iff)
  have "?requested \<noteq> [] \<longleftrightarrow> found \<noteq> [] \<or> add"
    by (cases "found = []") (simp_all add: requested_banks_def contains_algorithm_def)
  moreover have "?requested \<noteq> [] \<longleftrightarrow> banks \<noteq> []" using len by auto
  moreover have "length banks \<le> num_pcr_banks (ep_tss s)" using small len assms(2) same by (simp add: same_service_def)
  ultimately have "accepts_banks (ep_tss s) banks = (found \<noteq> [] \<or> add)"
    using banks(2) small by (simp add: accepts_banks_def)
  moreover have "allocate_banks ?step True add m =
      (if found = [] then give_up (''no active PCR banks found'' @ newline)
       else checked (ask ?step (Allocate banks) as_allocated) (\<lambda>r.
              printing (allocation_report ?requested r)
                (finish (if allocation_success r then Exit_success else Exit_failure))))
        (m\<lparr>port := s\<rparr>)"
    using probe banks(1)
    by (simp add: allocate_banks_def probing_def calling_def checked_outcome_def throwing_def Let_def)
  ultimately show ?thesis using probe found banks(2) sha384
    by (intro exI [of _ found] exI [of _ banks] exI [of _ s] conjI) simp_all
qed

lemma bank_request_accepted_witness:
  "\<exists>found banks s. active_pcr_algorithms (esys_provider_step True) True
        (port \<lparr>port = lab_state, out_text = [], err_text = []\<rparr>) = (Inr found, s) \<and>
    subseq found all_hash_algorithms \<and> map bank_algorithm banks = requested_banks True found \<and>
    set (map bank_algorithm banks) = set found \<union> (if True then {sha384} else {}) \<and>
    accepts_banks (ep_tss s) banks = (found \<noteq> [] \<or> True) \<and>
    allocate_banks (esys_provider_step True) True True \<lparr>port = lab_state, out_text = [], err_text = []\<rparr> =
      (if found = [] then give_up (''no active PCR banks found'' @ newline)
       else checked (ask (esys_provider_step True) (Allocate banks) as_allocated) (\<lambda>r.
              printing (allocation_report (requested_banks True found) r)
                (finish (if allocation_success r then Exit_success else Exit_failure))))
        (\<lparr>port = lab_state, out_text = [], err_text = []\<rparr>\<lparr>port := s\<rparr>)"
  by (rule bank_request_accepted) (simp, simp add: lab_state_def tss_4_1_fields)

lemma auth_example_rejected_witness:
  "\<exists>i w. create_in (lab_installation False) default_tcti_config None (port (start 0)) = (returns (Some i), w) \<and>
     example_main Auth_value_rejected (lab_installation False) [''auth_value_rejected''] (start 0) =
       (Inr Exit_success,
        \<lparr>port = destroy_context (in_host (lab_installation False))
            (default_esys_api (in_esys (lab_installation False))) (Some i) w,
         out_text = ''non-empty PCR auth value rejected without secure transport'' @ newline, err_text = []\<rparr>)"
proof -
  obtain i w where create: "create_in (lab_installation False) default_tcti_config None (port (start 0)) =
      (returns (Some i), w)" "ctx_esys i = Some 1"
    using lab_create_default by blast
  with auth_example_rejected [of "lab_installation False" "[''auth_value_rejected'']" 0 i w 1]
  show ?thesis by (auto simp: argument_or_def)
qed

end
