(* ===== verification/Partial_Read.thy ===== *)
theory Partial_Read
  imports Examples
begin

text \<open>
  How much one read can report. \<^verbatim>\<open>TPML_DIGEST\<close> of the TSS headers holds eight digests, so a single
  \<^verbatim>\<open>TPM2_PCR_Read\<close> reports at most eight registers whatever was selected. The provider passes the
  TPM's actual selection on; the program \<^verbatim>\<open>examples/pcr/read_all_sha256.cpp\<close> selects 24 registers, reads
  once and does not look at it.
\<close>

section \<open>The answer of the provider\<close>

definition digest_lists_of_eight :: "'b esys_api \<Rightarrow> bool" where
  "digest_lists_of_eight api \<longleftrightarrow>
     (\<forall>e s1 s2 s3 sel out b a v.
        out_values (snd (fst (api_pcr_read api e s1 s2 s3 sel out b))) = Some (a, v) \<longrightarrow>
        length (digs_digests v) = 8)"

lemma read_values_loop_length:
  "convert_values legacy a ds is acc = returns vs \<Longrightarrow> length vs = length acc + length ds"
proof (induction legacy a ds "is" acc rule: convert_values.induct)
  case (2 legacy a d ds selected acc)
  then show ?case by (cases selected) (auto simp: bind_try_value_iff)
qed simp

lemma domain_read_values_length:
  "to_domain_read_values legacy v sel = returns vs \<Longrightarrow> length vs \<le> length (digs_digests v)"
  by (auto simp: to_domain_read_values_eq dest!: read_values_loop_length split: if_splits)

lemma read_response_length:
  assumes "fst (read_response legacy T api sel rc out w) = returns r"
  shows "\<exists>a v. out_values out = Some (a, v) \<and> length (read_values r) \<le> length (digs_digests v)"
proof -
  from assms obtain b s a v where out: "rc = rc_success T" "out_selection out = Some (b, s)" "out_values out = Some (a, v)"
    by (cases "rc = rc_success T"; cases "out_selection out"; cases "out_values out")
       (auto simp: read_response_def report_tss_failure_eq split_beta)
  with assms obtain ds where ds: "to_domain_selection legacy T s (sel_algorithm sel) = returns ds"
    by (cases "to_domain_selection legacy T s (sel_algorithm sel)" rule: try_cases) (auto simp: read_response_def)
  with assms out show ?thesis
    by (cases "to_domain_read_values legacy v ds" rule: try_cases)
       (auto simp: read_response_def Let_def dest: domain_read_values_length)
qed

lemma provider_read_length:
  assumes "digest_lists_of_eight api" and "fst (provider_read legacy T api p sel w) = returns r"
  shows "length (read_values r) \<le> 8"
proof -
  from assms(2) have "ensure_esys_available (provider_esys p) = Inr ()"
    by (cases "ensure_esys_available (provider_esys p)") (simp_all add: provider_read_def)
  moreover from this assms(2) obtain s where "to_tpm_selection legacy T sel = Inr s"
    by (cases "to_tpm_selection legacy T sel") (simp_all add: provider_read_def)
  moreover obtain rc out b where reply: "api_pcr_read api (provider_esys p) (tr_none T) (tr_none T) (tr_none T) s
      \<lparr>out_update_counter = 0, out_selection = None, out_values = None\<rparr> (backend w) = ((rc, out), b)"
    by (metis prod.exhaust)
  ultimately have "\<exists>w. fst (read_response legacy T api sel rc out w) = returns r"
    using assms(2) by (auto simp: provider_read_def invoke_def split_beta Let_def)
  then obtain a v where "out_values out = Some (a, v)" "length (read_values r) \<le> length (digs_digests v)"
    using read_response_length by blast
  with assms(1) reply show ?thesis unfolding digest_lists_of_eight_def by (metis fst_conv snd_conv)
qed

section \<open>What the program prints\<close>

definition reading_line :: "pcr_value \<Rightarrow> string" where
  "reading_line v = value_label v @ concat (map encode_byte (dv_digest (pv_digest v))) @ newline"

definition counter_line :: "u32 \<Rightarrow> string" where
  "counter_line n = ''sha256 PCR update counter: '' @ decimal_string (unat n) @ newline"

lemma say_say [simp]: "say b (say a m) = say (a @ b) m"
  by (simp add: say_def)

lemma say_nothing [simp]: "say [] m = m"
  by (simp add: say_def)

lemma print_values_run:
  "roomy L \<Longrightarrow> \<forall>v \<in> set vs. length (dv_digest (pv_digest v)) \<le> 64 \<Longrightarrow>
   print_values L value_label vs rest m = rest (say (concat (map reading_line vs)) m)"
  by (induction vs arbitrary: m)
     (simp_all add: print_hex_def printing_def throwing_def roomy_hex reading_line_def)

text \<open>At most eight of the 24 registers are printed, and the exit code does not show it.\<close>

definition partial_reading :: "(fault + exit_code) \<times> 's session \<Rightarrow> bool" where
  "partial_reading x \<longleftrightarrow>
     (fst x = Inr Exit_failure \<and> out_text (snd x) = []) \<or>
     (\<exists>n vs. length vs \<le> 8 \<and> out_text (snd x) = counter_line n @ concat (map reading_line vs) \<and>
        fst x = Inr (if vs = [] then Exit_failure else Exit_success))"

lemma partial_cong:
  "partial_reading x \<Longrightarrow> fst y = fst x \<Longrightarrow> out_text (snd y) = out_text (snd x) \<Longrightarrow> partial_reading y"
  by (simp add: partial_reading_def)

lemma partial_failed: "out_text m = [] \<Longrightarrow> partial_reading (report e m)"
  by (simp add: partial_reading_def report_def print_error_def complain_def)

lemma read_all_service:
  assumes "esys_provider_valid (port m)" and "digest_lists_of_eight (ep_api (port m))" and L: "roomy L"
    and "out_text m = []"
  shows "partial_reading (read_all_sha256 (esys_provider_step legacy) legacy L m)"
proof -
  obtain "is" where range: "make_index_range 0 default_platform_pcr_count = Inr is" "\<forall>i \<in> is. wf_index i"
    using esys_client.all_pcrs_ok by blast
  let ?sel = "\<lparr>sel_algorithm = sha256, sel_indices = is\<rparr>"
  from range have sel: "bind_ok (make_index_range 0 default_platform_pcr_count) (new_selection legacy sha256) = Inr ?sel"
    "wf_selection legacy ?sel"
    by (simp_all add: new_selection_cases wf_selection_def)
  let ?ask = "ask (esys_provider_step legacy) (Read ?sel) as_read (port m)"
  obtain x s where ask: "?ask = (Inr x, s)" "answer_ok (wf_read_result legacy) x"
    using esys_client.ask_read [OF sel(2)] assms(1) unfolding op_sound_def by (metis prod.collapse)
  note eqs = read_all_sha256_def sel(1) checked_def calling_def checked_outcome_def throwing_def
  show ?thesis
  proof (cases x)
    case (Inl e)
    with ask assms(4) show ?thesis by (simp add: eqs partial_failed)
  next
    case (Inr r)
    let ?read = "provider_read legacy (ep_tss (port m)) (ep_api (port m)) (ep_provider (port m)) ?sel (ep_world (port m))"
    have "fst ?read = returns r"
      using ask(1) Inr by (cases "fst ?read" rule: try_cases; cases ?read)
        (auto simp: ask_def esys_provider_step_def reply_with_def)
    from provider_read_length [OF assms(2) this] have "length (read_values r) \<le> 8" .
    moreover have "read_all_sha256 (esys_provider_step legacy) legacy L m =
        finish (if read_values r = [] then Exit_failure else Exit_success)
          (say (counter_line (update_counter r) @ concat (map reading_line (read_values r))) (m\<lparr>port := s\<rparr>))"
      using ask Inr wf_read_bound [of legacy r] L
      by (simp add: eqs print_reading_def printing_def print_values_run counter_line_def)
    ultimately show ?thesis using assms(4) by (auto simp: partial_reading_def finish_def say_def)
  qed
qed

lemma out_text_start: "out_text (start b) = []"
  by (simp add: start_def)

lemma partial_usage: "out_text m = [] \<Longrightarrow> partial_reading (usage argv s m)"
  by (simp add: partial_reading_def usage_def give_up_def complain_def)

section \<open>The whole program\<close>

lemma read_all_with_provider:
  assumes I: "documented_installation I" and "digest_lists_of_eight (in_esys I)" and "out_text m = []"
  shows "partial_reading (with_provider I ob (read_all_sha256 (step_in I) (in_legacy I) (in_limits I)) ctx m)"
proof (cases "create_pcr_provider ctx ob")
  case (Inr p)
  have "esys_provider_valid (port (service I p m))"
    using I by (simp add: service_def esys_provider_valid_def documented_installation_def default_esys_api_forwards)
  moreover have "digest_lists_of_eight (ep_api (port (service I p m)))" "out_text (service I p m) = []" "roomy (in_limits I)"
    using I assms(2,3) by (simp_all add: service_def default_esys_api_forwards documented_installation_def)
  ultimately have "partial_reading (read_all_sha256 (step_in I) (in_legacy I) (in_limits I) (service I p m))"
    unfolding step_in_def by (intro read_all_service)
  with Inr show ?thesis
    by (simp add: with_provider_def partial_reading_def world_session_def split_beta)
qed (simp add: with_provider_def assms(3) partial_failed)

lemma partial_with_context:
  assumes I: "documented_installation I" and "out_text m = []"
    and body: "\<And>ctx m. out_text m = [] \<Longrightarrow> partial_reading (body ctx m)"
  shows "partial_reading (with_context I config log body m)"
proof -
  obtain r w where create: "create_in I config log (port m) = (r, w)" by fastforce
  then have safe: "\<exists>new :: notification action list. no_leak context_open new r"
    by - (rule create_in_leaves [OF I, where config = config and log = log and m = m], auto)
  show ?thesis
  proof (cases r rule: try_cases)
    case (failed e)
    with create assms(2) show ?thesis
      by (simp add: with_context_def checked_def calling_def checked_outcome_def partial_failed)
  next
    case (returned ctx)
    obtain b m' where eq: "body ctx (m\<lparr>port := w\<rparr>) = (b, m')" by fastforce
    with body [of "m\<lparr>port := w\<rparr>" ctx] assms(2) have "partial_reading (b, m')" by simp
    then show ?thesis
      by (rule partial_cong)
         (simp_all add: with_context_returned [where body = body, OF create [unfolded returned] eq] split: sum.split)
  qed (use safe in simp)
qed

text \<open>
  C36: The program that reads all 24 SHA-256 registers prints at most eight of them, whatever the TPM
  answers and whatever it selects, because it reads once and a list of digests holds eight; and it ends
  with the success code as soon as it has printed one.
\<close>
theorem read_all_prints_eight:
  assumes "documented_installation I" and "digest_lists_of_eight (in_esys I)"
  shows "case example_main Read_all_sha256 I argv (start b) of (r, m) \<Rightarrow>
    (r = Inr Exit_failure \<and> out_text m = []) \<or>
    (\<exists>n vs. length vs \<le> 8 \<and> out_text m = counter_line n @ concat (map reading_line vs) \<and>
       r = Inr (if vs = [] then Exit_failure else Exit_success))"
proof -
  have "partial_reading (example_main Read_all_sha256 I argv (start b))"
    unfolding example_main.simps main_read_all_sha256_def one_argument_def
    by (simp add: out_text_start partial_usage partial_with_context [OF assms(1)] read_all_with_provider [OF assms])
  then show ?thesis unfolding partial_reading_def split_beta .
qed

lemma read_all_prints_eight_witness:
  "case example_main Read_all_sha256 (lab_installation False) [''read_all''] (start 0) of (r, m) \<Rightarrow>
    (r = Inr Exit_failure \<and> out_text m = []) \<or>
    (\<exists>n vs. length vs \<le> 8 \<and> out_text m = counter_line n @ concat (map reading_line vs) \<and>
       r = Inr (if vs = [] then Exit_failure else Exit_success))"
  by (rule read_all_prints_eight)
     (simp_all, simp add: digest_lists_of_eight_def lab_installation_def lab_api_def lab_values_def)

end
