(* ===== verification/Escape_Value.thy ===== *)
theory Escape_Value
  imports Prelude
begin

text \<open>
  \<^verbatim>\<open>src/adapters/common/escape_value.h\<close>: the rendering of a field value shared by the stdio and
  spdlog adapters, a reader for what it writes, and the round trip between them.
\<close>

abbreviation quote_char :: char where "quote_char \<equiv> CHR 0x22"
abbreviation backslash :: char where "backslash \<equiv> CHR 0x5C"

definition char_needs_quoting :: "char \<Rightarrow> bool" where
  "char_needs_quoting c \<longleftrightarrow>
     (of_char c :: nat) < 0x20 \<or> c = CHR '' '' \<or> c = CHR ''='' \<or> c = quote_char \<or> c = backslash"

fun needs_quoting :: "string \<Rightarrow> bool" where
  "needs_quoting [] = False"
| "needs_quoting (c # cs) = (if char_needs_quoting c then True else needs_quoting cs)"

definition escape_char :: "char \<Rightarrow> string" where
  "escape_char c =
     (let u = (of_char c :: nat) in
      if c = quote_char then [backslash, quote_char]
      else if c = backslash then [backslash, backslash]
      else if c = CHR 0x0A then [backslash, CHR ''n'']
      else if c = CHR 0x0D then [backslash, CHR ''r'']
      else if c = CHR 0x09 then [backslash, CHR ''t'']
      else if u < 0x20 then [backslash, CHR ''x'', hex_digits ! (u div 16), hex_digits ! (u mod 16)]
      else [c])"

definition escape_value :: "string \<Rightarrow> string" where
  "escape_value v =
     (if \<not> needs_quoting v then v
      else foldl (\<lambda>out c. out @ escape_char c) [quote_char] v @ [quote_char])"

section \<open>A reader for escaped values\<close>

definition hex_digit_value :: "char \<Rightarrow> nat option" where
  "hex_digit_value ch =
     (let c = (of_char ch :: nat) in
      if 48 \<le> c \<and> c \<le> 57 then Some (c - 48)
      else if 97 \<le> c \<and> c \<le> 102 then Some (c - 87)
      else None)"

text \<open>
  After an opening quote: the value up to the closing quote, and the text that follows it.
\<close>

fun read_quoted :: "string \<Rightarrow> (string \<times> string) option" where
  "read_quoted [] = None"
| "read_quoted (c # cs) =
     (if c = quote_char then Some ([], cs)
      else if c = backslash
      then (case cs of
              [] \<Rightarrow> None
            | e # rest \<Rightarrow>
                if e = quote_char then map_option (apfst ((#) quote_char)) (read_quoted rest)
                else if e = backslash then map_option (apfst ((#) backslash)) (read_quoted rest)
                else if e = CHR ''n'' then map_option (apfst ((#) (CHR 0x0A))) (read_quoted rest)
                else if e = CHR ''r'' then map_option (apfst ((#) (CHR 0x0D))) (read_quoted rest)
                else if e = CHR ''t'' then map_option (apfst ((#) (CHR 0x09))) (read_quoted rest)
                else if e = CHR ''x''
                then (case rest of
                        h # l # more \<Rightarrow>
                          (case (hex_digit_value h, hex_digit_value l) of
                             (Some a, Some b) \<Rightarrow>
                               map_option (apfst ((#) (char_of (16 * a + b)))) (read_quoted more)
                           | _ \<Rightarrow> None)
                      | _ \<Rightarrow> None)
                else None)
      else map_option (apfst ((#) c)) (read_quoted cs))"

fun read_value :: "string \<Rightarrow> string option" where
  "read_value (c # cs) =
     (if c = quote_char
      then (case read_quoted cs of Some (v, []) \<Rightarrow> Some v | _ \<Rightarrow> None)
      else Some (c # cs))"
| "read_value [] = Some []"

lemma hex_digit_value_digit: "k < 16 \<Longrightarrow> hex_digit_value (hex_digits ! k) = Some k"
  by (auto simp: hex_digits_nth hex_digit_value_def Let_def)

lemma read_quoted_escape_char:
  "read_quoted (escape_char c @ rest) = map_option (apfst ((#) c)) (read_quoted rest)"
proof -
  have "(of_char c :: nat) < 0x20 \<Longrightarrow>
      hex_digit_value (hex_digits ! (of_char c div 16)) = Some (of_char c div 16) \<and>
      hex_digit_value (hex_digits ! (of_char c mod 16)) = Some (of_char c mod 16)"
    by (simp add: hex_digit_value_digit)
  then show ?thesis by (auto simp: escape_char_def Let_def)
qed

lemma escape_fold: "foldl (\<lambda>out c. out @ escape_char c) acc v = acc @ concat (map escape_char v)"
  by (induction v arbitrary: acc) simp_all

lemma read_quoted_escaped:
  "read_quoted (concat (map escape_char v) @ quote_char # rest) = Some (v, rest)"
  by (induction v) (simp_all add: read_quoted_escape_char del: read_quoted.simps(2), simp)

lemma read_quoted_shorter: "read_quoted cs = Some (v, rest) \<Longrightarrow> length rest < length cs"
proof (induction "length cs" arbitrary: cs v rule: less_induct)
  case less
  have IH: "length rest < length r" if "read_quoted r = Some (a, rest)" "length r < length cs" for r a
    using less(1) that by blast
  from less(2) show ?case
    by (cases cs) (auto split: if_splits list.splits option.splits dest!: IH)
qed

lemma needs_quoting_iff: "needs_quoting v \<longleftrightarrow> (\<exists>c \<in> set v. char_needs_quoting c)"
  by (induction v) auto

lemma escape_value_eq:
  "escape_value v =
     (if needs_quoting v then quote_char # concat (map escape_char v) @ [quote_char] else v)"
  by (simp add: escape_value_def escape_fold)

lemma read_escape: "read_value (escape_value v) = Some v"
proof (cases "needs_quoting v")
  case True
  then show ?thesis
    using read_quoted_escaped [of v "[]"] by (simp add: escape_value_eq del: read_quoted.simps)
next
  case False
  then have "quote_char \<notin> set v"
    by (auto simp: needs_quoting_iff char_needs_quoting_def)
  with False show ?thesis by (cases v) (auto simp: escape_value_eq)
qed

lemma escape_char_no_control: "c \<in> set (escape_char d) \<Longrightarrow> 0x20 \<le> (of_char c :: nat)"
proof -
  have "k < 16 \<Longrightarrow> 0x20 \<le> (of_char (hex_digits ! k) :: nat)" for k
    by (simp add: hex_digits_nth)
  moreover have "(of_char d :: nat) < 0x20 \<Longrightarrow> of_char d div 16 < (16 :: nat)"
    by simp
  ultimately show "c \<in> set (escape_char d) \<Longrightarrow> 0x20 \<le> (of_char c :: nat)"
    by (auto simp: escape_char_def Let_def split: if_splits)
qed

lemma escape_value_no_control: "c \<in> set (escape_value v) \<Longrightarrow> 0x20 \<le> (of_char c :: nat)"
  using escape_char_no_control
  by (fastforce simp: escape_value_eq needs_quoting_iff char_needs_quoting_def split: if_splits)

section \<open>Properties\<close>

text \<open>
  C26: Escaping loses nothing: a reader that undoes the quotes and the backslash sequences gets
  every value back, whatever bytes it holds, so two different values never look alike in a log
  line; and what is written holds no byte below 0x20, so a value cannot break the line it is in.
\<close>
theorem escape_faithful:
  "read_value (escape_value v) = Some v \<and> list_all (\<lambda>c. 0x20 \<le> (of_char c :: nat)) (escape_value v)"
  using read_escape escape_value_no_control by (auto simp: list_all_iff)

end
