(* ===== verification/Log_Line.thy ===== *)
theory Log_Line
  imports Escape_Value Logger
begin

text \<open>
  The text of a record, as \<^verbatim>\<open>stdio_logger::log\<close> and \<^verbatim>\<open>spdlog_logger::log\<close> both build it: the
  message, then each field as \<open>key=value\<close> with the value escaped; a reader for it, and the round
  trip. Messages and keys are written as they are, so the reader is right for messages without
  \<open>=\<close> and keys without \<open>=\<close> or a space, which the library's own events all satisfy.
\<close>

abbreviation space_char :: char where "space_char \<equiv> CHR 0x20"
abbreviation equals_char :: char where "equals_char \<equiv> CHR 0x3D"

definition render_field :: "string \<Rightarrow> log_field \<Rightarrow> string" where
  "render_field record f = record @ [space_char] @ field_key f @ [equals_char] @ escape_value (field_value f)"

definition render_fields :: "string \<Rightarrow> log_field list \<Rightarrow> string" where
  "render_fields record fs = foldl render_field record fs"

definition field_text :: "log_field \<Rightarrow> string" where
  "field_text f = space_char # field_key f @ equals_char # escape_value (field_value f)"

lemma render_fields_eq: "render_fields acc fs = acc @ concat (map field_text fs)"
  unfolding render_fields_def
  by (induction fs arbitrary: acc) (simp_all add: render_field_def field_text_def)

section \<open>A reader\<close>

text \<open>A value and the text after it.\<close>

definition read_escaped :: "string \<Rightarrow> (string \<times> string) option" where
  "read_escaped cs =
     (case cs of
        [] \<Rightarrow> Some ([], [])
      | c # rest \<Rightarrow>
          if c = quote_char then read_quoted rest
          else Some (takeWhile (\<lambda>c. c \<noteq> space_char) cs, dropWhile (\<lambda>c. c \<noteq> space_char) cs))"

definition split_at :: "char \<Rightarrow> string \<Rightarrow> (string \<times> string) option" where
  "split_at ch cs =
     (case dropWhile (\<lambda>c. c \<noteq> ch) cs of
        [] \<Rightarrow> None | c # rest \<Rightarrow> Some (takeWhile (\<lambda>c. c \<noteq> ch) cs, rest))"

lemma read_escaped_shorter: "read_escaped cs = Some (v, rest) \<Longrightarrow> length rest \<le> length cs"
  using read_quoted_shorter [of "tl cs" v rest] length_dropWhile_le [of "\<lambda>c. c \<noteq> space_char" cs]
  by (cases cs) (auto simp: read_escaped_def split: if_splits)

lemma split_at_shorter: "split_at ch cs = Some (k, rest) \<Longrightarrow> length rest < length cs"
  using length_dropWhile_le [of "\<lambda>c. c \<noteq> ch" cs] by (auto simp: split_at_def split: list.splits)

function read_fields :: "string \<Rightarrow> (string \<times> string) list option" where
  "read_fields [] = Some []"
| "read_fields (c # cs) =
     (if c \<noteq> space_char then None
      else case split_at equals_char cs of
        None \<Rightarrow> None
      | Some (key, after_key) \<Rightarrow>
          (case read_escaped after_key of
             None \<Rightarrow> None
           | Some (v, rest) \<Rightarrow> map_option ((#) (key, v)) (read_fields rest)))"
  by pat_completeness auto
termination
proof (relation "measure length")
  fix c cs p key after_key q v rest
  assume "split_at equals_char cs = Some p" and "(key, after_key) = p"
    and "read_escaped after_key = Some q" and "(v, rest) = q"
  then show "(rest, c # cs) \<in> measure length"
    using split_at_shorter [of equals_char cs key after_key] read_escaped_shorter [of after_key v rest] by auto
qed simp

text \<open>
  The whole text: without \<open>=\<close> it is a message; otherwise the message ends before the last space in
  front of the first \<open>=\<close>.
\<close>

definition read_record :: "string \<Rightarrow> (string \<times> (string \<times> string) list) option" where
  "read_record body =
     (case split_at equals_char body of
        None \<Rightarrow> Some (body, [])
      | Some (front, rest) \<Rightarrow>
          let key = rev (takeWhile (\<lambda>c. c \<noteq> space_char) (rev front));
              n = length front - length key - 1
          in map_option (Pair (take n body)) (read_fields (drop n body)))"

section \<open>The round trip\<close>

definition plain_key :: "string \<Rightarrow> bool" where
  "plain_key k \<longleftrightarrow> equals_char \<notin> set k \<and> space_char \<notin> set k"

definition ends_value :: "string \<Rightarrow> bool" where
  "ends_value rest \<longleftrightarrow> rest = [] \<or> hd rest = space_char"

lemma stop_at:
  "ch \<notin> set k \<Longrightarrow> takeWhile (\<lambda>c. c \<noteq> ch) (k @ ch # rest) = k \<and>
     dropWhile (\<lambda>c. c \<noteq> ch) (k @ ch # rest) = ch # rest"
  by (induction k) auto

lemma no_stop:
  "ch \<notin> set k \<Longrightarrow> takeWhile (\<lambda>c. c \<noteq> ch) k = k \<and> dropWhile (\<lambda>c. c \<noteq> ch) k = []"
  by (induction k) auto

lemma split_at_append: "ch \<notin> set k \<Longrightarrow> split_at ch (k @ ch # rest) = Some (k, rest)"
  by (simp add: split_at_def stop_at)

lemma split_at_none: "ch \<notin> set k \<Longrightarrow> split_at ch k = None"
  by (simp add: split_at_def no_stop)

lemma read_plain:
  assumes "space_char \<notin> set v" and "ends_value rest"
  shows "takeWhile (\<lambda>c. c \<noteq> space_char) (v @ rest) = v" "dropWhile (\<lambda>c. c \<noteq> space_char) (v @ rest) = rest"
  using assms no_stop [OF assms(1)] stop_at [OF assms(1), of "tl rest"]
  by (cases rest; simp add: ends_value_def)+

lemma read_escaped_escape:
  assumes "ends_value rest"
  shows "read_escaped (escape_value v @ rest) = Some (v, rest)"
proof (cases "needs_quoting v")
  case True
  then have "escape_value v @ rest = quote_char # concat (map escape_char v) @ quote_char # rest"
    by (simp add: escape_value_eq)
  then show ?thesis by (simp add: read_escaped_def read_quoted_escaped del: read_quoted.simps)
next
  case False
  then have plain: "space_char \<notin> set v" "quote_char \<notin> set v" and same: "escape_value v = v"
    by (auto simp: needs_quoting_iff char_needs_quoting_def escape_value_eq)
  show ?thesis
  proof (cases "v @ rest")
    case Nil
    then show ?thesis by (simp add: read_escaped_def escape_value_eq)
  next
    case (Cons c cs)
    then have "c \<noteq> quote_char"
      using plain assms by (cases v) (auto simp: ends_value_def)
    with Cons have "read_escaped (v @ rest) =
        Some (takeWhile (\<lambda>c. c \<noteq> space_char) (v @ rest), dropWhile (\<lambda>c. c \<noteq> space_char) (v @ rest))"
      by (simp only: read_escaped_def list.case if_False)
    then show ?thesis by (simp only: same read_plain [OF plain(1) assms])
  qed
qed

lemma ends_value_fields: "ends_value (concat (map field_text fs))"
  by (cases fs) (simp_all add: ends_value_def field_text_def)

lemma read_fields_text:
  "list_all (\<lambda>f. plain_key (field_key f)) fs \<Longrightarrow>
   read_fields (concat (map field_text fs)) = Some (map (\<lambda>f. (field_key f, field_value f)) fs)"
proof (induction fs)
  case (Cons f fs)
  then have "equals_char \<notin> set (field_key f)" by (simp add: plain_key_def)
  moreover note read_escaped_escape [OF ends_value_fields [of fs], of "field_value f"]
  moreover have "concat (map field_text (f # fs)) =
      space_char # field_key f @ equals_char # escape_value (field_value f) @ concat (map field_text fs)"
    by (simp add: field_text_def)
  ultimately show ?case
    using Cons by (simp add: split_at_append del: list.map concat.simps) simp
qed simp

lemma takeWhile_key:
  "space_char \<notin> set k \<Longrightarrow> takeWhile (\<lambda>c. c \<noteq> space_char) (rev (msg @ space_char # k)) = rev k"
  using stop_at [of space_char "rev k" "rev msg"] by simp

lemma read_record_render:
  assumes "equals_char \<notin> set msg" and "list_all (\<lambda>f. plain_key (field_key f)) fs"
  shows "read_record (render_fields msg fs) = Some (msg, map (\<lambda>f. (field_key f, field_value f)) fs)"
proof (cases fs)
  case Nil
  then show ?thesis
    using assms(1) by (simp add: read_record_def render_fields_eq split_at_none)
next
  case (Cons f rest)
  let ?front = "msg @ space_char # field_key f"
  have key: "plain_key (field_key f)" using assms(2) Cons by simp
  have body: "render_fields msg fs =
      ?front @ equals_char # escape_value (field_value f) @ concat (map field_text rest)"
    by (simp add: Cons render_fields_eq field_text_def)
  have "equals_char \<notin> set ?front" using assms(1) key by (auto simp: plain_key_def)
  from split_at_append [OF this]
  have split: "split_at equals_char (render_fields msg fs) =
      Some (?front, escape_value (field_value f) @ concat (map field_text rest))"
    by (simp only: body)
  have "rev (takeWhile (\<lambda>c. c \<noteq> space_char) (rev ?front)) = field_key f"
    using key takeWhile_key [of "field_key f" msg] by (simp add: plain_key_def del: rev_append)
  then show ?thesis
    using read_fields_text [OF assms(2)]
    by (simp only: read_record_def split option.case prod.case Let_def) (simp add: render_fields_eq)
qed

text \<open>No control character comes from a field value.\<close>

definition printable_from_space :: "string \<Rightarrow> bool" where
  "printable_from_space cs \<longleftrightarrow> list_all (\<lambda>c. 0x20 \<le> (of_char c :: nat)) cs"

lemma printable_append [simp]:
  "printable_from_space (a @ b) \<longleftrightarrow> printable_from_space a \<and> printable_from_space b"
  "printable_from_space [] = True"
  "printable_from_space (c # cs) \<longleftrightarrow> 0x20 \<le> (of_char c :: nat) \<and> printable_from_space cs"
  by (simp_all add: printable_from_space_def)

lemma printable_field:
  "printable_from_space (field_key f) \<Longrightarrow> printable_from_space (field_text f)"
  using escape_value_no_control by (auto simp: field_text_def printable_from_space_def list_all_iff)

lemma printable_render:
  "printable_from_space msg \<Longrightarrow> list_all (\<lambda>f. printable_from_space (field_key f)) fs \<Longrightarrow>
   printable_from_space (render_fields msg fs)"
  by (simp add: render_fields_eq) (induction fs; simp add: printable_field)

end
