(* ===== verification/Stdio_Logger.thy ===== *)
theory Stdio_Logger
  imports Log_Line
begin

text \<open>
  \<^verbatim>\<open>src/adapters/logging/stdio/stdio_logger.cpp\<close>: the adapter that writes each record as one line,
  with a UTC timestamp and a level token, to one of two streams. The clock, \<^verbatim>\<open>gmtime_r\<close>, the
  environment, \<^verbatim>\<open>isatty\<close> and the streams are the host's: functions over a state \<open>'o\<close>, arguments of
  the model. A call holds the mutex throughout, so calls of several threads are a sequence (the theory
  Shared_Loggers shows it for the small steps of the body). Failure
  of memory allocation is not modelled; a stream that is not writable, or that throws, takes nothing.
\<close>

section \<open>State\<close>

datatype color_mode = color_auto | color_always | color_never | unlisted_color int

datatype stream = Std_out | Std_err | Given nat

record stdio_logger_options =
  opt_min_level :: "log_level option"
  opt_color :: color_mode
  opt_out :: "stream option"
  opt_err :: "stream option"

record stdio_logger =
  sl_color :: color_mode
  sl_err :: "stream option"
  sl_min_level :: "log_level option"
  sl_out :: "stream option"
  sl_record :: string

record tm =
  tm_year :: int
  tm_mon :: int
  tm_mday :: int
  tm_hour :: int
  tm_min :: int
  tm_sec :: int

text \<open>The clock counts nanoseconds since the epoch; \<open>broken_down\<close> is \<^verbatim>\<open>gmtime_r\<close>, \<open>None\<close> its failure.\<close>

record 'o stdio_host =
  read_clock :: "'o \<Rightarrow> int \<times> 'o"
  broken_down :: "int \<Rightarrow> tm option"
  host_getenv :: "string \<Rightarrow> 'o \<Rightarrow> string option"
  host_isatty :: "stream \<Rightarrow> 'o \<Rightarrow> int"
  stream_takes :: "stream \<Rightarrow> 'o \<Rightarrow> bool"

record 'o stdio_world =
  host_state :: 'o
  written :: "(stream \<times> string) list"

section \<open>The parts of a line\<close>

abbreviation escape_code :: char where "escape_code \<equiv> CHR 0x1B"

definition reset_sequence :: string where
  "reset_sequence = escape_code # ''[0m''"

fun ansi_sequence :: "log_level \<Rightarrow> string" where
  "ansi_sequence trace = escape_code # ''[2m''"
| "ansi_sequence debug = escape_code # ''[36m''"
| "ansi_sequence info = escape_code # ''[32m''"
| "ansi_sequence warn = escape_code # ''[33m''"
| "ansi_sequence error_level = escape_code # ''[31m''"
| "ansi_sequence (unlisted_level n) = []"

fun level_label :: "log_level \<Rightarrow> string" where
  "level_label trace = ''TRACE''"
| "level_label debug = ''DEBUG''"
| "level_label info = ''INFO ''"
| "level_label warn = ''WARN ''"
| "level_label error_level = ''ERROR''"
| "level_label (unlisted_level n) = ''INFO ''"

text \<open>Integer division of \<^verbatim>\<open>duration_cast\<close>, towards zero.\<close>

definition trunc_div :: "int \<Rightarrow> int \<Rightarrow> int" where
  "trunc_div a b = (if a < 0 then - ((- a) div b) else a div b)"

text \<open>\<^verbatim>\<open>%0wd\<close> of \<^verbatim>\<open>snprintf\<close>: the sign counts towards the width, a longer number is printed whole.\<close>

definition zero_padded :: "nat \<Rightarrow> int \<Rightarrow> string" where
  "zero_padded w v =
     (let digits = decimal_string (nat \<bar>v\<bar>) in
      if v < 0 then CHR ''-'' # replicate (w - 1 - length digits) (CHR ''0'') @ digits
      else replicate (w - length digits) (CHR ''0'') @ digits)"

definition timestamp_text :: "tm \<Rightarrow> int \<Rightarrow> string" where
  "timestamp_text utc millis =
     zero_padded 4 (tm_year utc + 1900) @ ''-'' @ zero_padded 2 (tm_mon utc + 1) @ ''-'' @
     zero_padded 2 (tm_mday utc) @ ''T'' @ zero_padded 2 (tm_hour utc) @ '':'' @
     zero_padded 2 (tm_min utc) @ '':'' @ zero_padded 2 (tm_sec utc) @ ''.'' @
     zero_padded 3 millis @ ''Z''"

definition epoch_text :: string where
  "epoch_text = ''1970-01-01T00:00:00.000Z''"

text \<open>
  \<^verbatim>\<open>snprintf\<close> writes at most 24 characters and a NUL into the buffer of 25 and returns the length of
  the whole text, which \<^verbatim>\<open>append\<close> then takes as the number of bytes to read.
\<close>

definition append_timestamp :: "'o stdio_host \<Rightarrow> string \<Rightarrow> 'o \<Rightarrow> (fault + string) \<times> 'o" where
  "append_timestamp H rec w =
     (let (now, w) = read_clock H w;
          seconds = trunc_div now 1000000000;
          millis = trunc_div (now - seconds * 1000000000) 1000000
      in case broken_down H seconds of
           None \<Rightarrow> (Inr (rec @ epoch_text), w)
         | Some utc \<Rightarrow>
             let full = timestamp_text utc millis;
                 buffer = take 24 full @ replicate (25 - length (take 24 full)) (CHR 0x00);
                 chars = length full
             in if chars = 0 then (Inr (rec @ epoch_text), w)
                else (bind_ok (read_front chars buffer) (\<lambda>bytes. Inr (rec @ bytes)), w))"

definition env_is_set :: "'o stdio_host \<Rightarrow> string \<Rightarrow> 'o \<Rightarrow> bool" where
  "env_is_set H name w \<longleftrightarrow>
     (case host_getenv H name w of None \<Rightarrow> False | Some value \<Rightarrow> value \<noteq> [] \<and> hd value \<noteq> CHR 0x00)"

definition is_below_min_level :: "log_level \<Rightarrow> log_level option \<Rightarrow> bool" where
  "is_below_min_level level min_level \<longleftrightarrow>
     (case min_level of None \<Rightarrow> False | Some m \<Rightarrow> level_value level < level_value m)"

definition is_tty_stream :: "'o stdio_host \<Rightarrow> stream \<Rightarrow> 'o \<Rightarrow> bool" where
  "is_tty_stream H st w \<longleftrightarrow>
     (if st = Std_out then host_isatty H Std_out w = 1
      else if st = Std_err then host_isatty H Std_err w = 1
      else False)"

fun should_colorize :: "'o stdio_host \<Rightarrow> color_mode \<Rightarrow> stream \<Rightarrow> 'o \<Rightarrow> bool" where
  "should_colorize H color_always st w = True"
| "should_colorize H color_never st w = False"
| "should_colorize H mode st w =
     (if env_is_set H ''NO_COLOR'' w then False
      else if env_is_set H ''FORCE_COLOR'' w then True
      else is_tty_stream H st w)"

fun stream_for_level :: "log_level \<Rightarrow> 's option \<Rightarrow> 's option \<Rightarrow> 's option" where
  "stream_for_level warn out er = er"
| "stream_for_level error_level out er = er"
| "stream_for_level level out er = out"

section \<open>The logger\<close>

definition new_stdio_logger :: "stdio_logger_options \<Rightarrow> stdio_logger" where
  "new_stdio_logger opts =
     \<lparr>sl_color = opt_color opts,
      sl_err = (case opt_err opts of None \<Rightarrow> Some Std_err | Some s \<Rightarrow> Some s),
      sl_min_level = opt_min_level opts,
      sl_out = (case opt_out opts of None \<Rightarrow> Some Std_out | Some s \<Rightarrow> Some s),
      sl_record = []\<rparr>"

definition default_stdio_logger :: stdio_logger where
  "default_stdio_logger =
     new_stdio_logger \<lparr>opt_min_level = None, opt_color = color_auto, opt_out = None, opt_err = None\<rparr>"

text \<open>The moves return the new target and the new source.\<close>

definition move_stdio_logger :: "stdio_logger \<Rightarrow> stdio_logger \<times> stdio_logger" where
  "move_stdio_logger other =
     (\<lparr>sl_color = sl_color other, sl_err = sl_err other, sl_min_level = sl_min_level other,
       sl_out = sl_out other, sl_record = []\<rparr>,
      other\<lparr>sl_err := None, sl_out := None\<rparr>)"

definition assign_stdio_logger :: "stdio_logger \<Rightarrow> stdio_logger \<Rightarrow> stdio_logger \<times> stdio_logger" where
  "assign_stdio_logger this other =
     (this\<lparr>sl_color := sl_color other, sl_err := sl_err other, sl_min_level := sl_min_level other,
       sl_out := sl_out other, sl_record := []\<rparr>,
      other\<lparr>sl_err := None, sl_out := None\<rparr>)"

definition level_token :: "bool \<Rightarrow> log_level \<Rightarrow> string" where
  "level_token color level =
     (if color then ansi_sequence level else []) @ ''['' @ level_label level @ '']'' @
     (if color then reset_sequence else [])"

definition stdio_log ::
  "'o stdio_host \<Rightarrow> log_level \<Rightarrow> string \<Rightarrow> log_field list \<Rightarrow> stdio_logger \<Rightarrow> 'o stdio_world \<Rightarrow>
   fault + stdio_logger \<times> 'o stdio_world"
where
  "stdio_log H level msg fs l w =
     (if is_below_min_level level (sl_min_level l) then Inr (l, w)
      else case stream_for_level level (sl_out l) (sl_err l) of
        None \<Rightarrow> Inr (l, w)
      | Some st \<Rightarrow>
          let (stamped, h) = append_timestamp H [] (host_state w);
              w = w\<lparr>host_state := h\<rparr>
          in bind_ok stamped (\<lambda>rec.
               let rec = rec @ [space_char] @ level_token (should_colorize H (sl_color l) st h) level @
                           [space_char] @ msg;
                   rec = render_fields rec fs;
                   l = l\<lparr>sl_record := rec\<rparr>
               in Inr (l, if stream_takes H st h
                          then w\<lparr>written := written w @ [(st, rec @ [CHR 0x0A])]\<rparr> else w)))"

section \<open>Timestamps\<close>

text \<open>The ranges the C standard gives to the fields, for years from 1970 to 9999.\<close>

definition tm_in_range :: "tm \<Rightarrow> bool" where
  "tm_in_range utc \<longleftrightarrow>
     tm_year utc \<in> {70..8099} \<and> tm_mon utc \<in> {0..11} \<and> tm_mday utc \<in> {1..31} \<and>
     tm_hour utc \<in> {0..23} \<and> tm_min utc \<in> {0..59} \<and> tm_sec utc \<in> {0..60}"

definition stamp_char :: "char \<Rightarrow> bool" where
  "stamp_char c \<longleftrightarrow> c \<in> set ''0123456789-T:.Z''"

lemma decimal_digit_stamp: "d < 10 \<Longrightarrow> stamp_char (decimal_digit d)"
proof -
  have "list_all (\<lambda>d. stamp_char (decimal_digit d)) [0..<10]" by code_simp
  then show "d < 10 \<Longrightarrow> stamp_char (decimal_digit d)" by (simp add: list_all_iff)
qed

lemma decimal_string_stamp: "list_all stamp_char (decimal_string n)"
  by (induction n rule: decimal_string.induct)
     (subst decimal_string.simps, auto simp: decimal_digit_stamp)

lemma decimal_string_length:
  "n < 10 ^ k \<Longrightarrow> 0 < k \<Longrightarrow> length (decimal_string n) \<le> k"
proof (induction k arbitrary: n)
  case (Suc k)
  show ?case
  proof (cases "n < 10")
    case True
    then show ?thesis by (subst decimal_string.simps) simp
  next
    case False
    with Suc.prems have "n div 10 < 10 ^ k" "0 < k" by (auto intro: gr0I)
    with Suc.IH [of "n div 10"] False show ?thesis by (subst decimal_string.simps) simp
  qed
qed simp

lemma zero_padded_width:
  assumes "0 \<le> v" and "v < 10 ^ k" and "0 < k"
  shows "length (zero_padded k v) = k" and "list_all stamp_char (zero_padded k v)"
proof -
  have "nat v < 10 ^ k" using assms(1,2) by (simp add: nat_less_iff)
  then have "length (decimal_string (nat v)) \<le> k" by (rule decimal_string_length [OF _ assms(3)])
  then show "length (zero_padded k v) = k" using assms(1) by (simp add: zero_padded_def Let_def)
  show "list_all stamp_char (zero_padded k v)"
    using assms(1) decimal_string_stamp [of "nat v"]
    by (simp add: zero_padded_def Let_def) (simp add: list_all_iff stamp_char_def)
qed

lemma timestamp_text_exact:
  assumes "tm_in_range utc" and "0 \<le> millis" and "millis < 1000"
  shows "length (timestamp_text utc millis) = 24 \<and> list_all stamp_char (timestamp_text utc millis)"
proof -
  note pad = zero_padded_width
  have "0 \<le> tm_year utc + 1900 \<and> tm_year utc + 1900 < 10 ^ 4" "0 \<le> tm_mon utc + 1 \<and> tm_mon utc + 1 < 10 ^ 2"
    "0 \<le> tm_mday utc \<and> tm_mday utc < 10 ^ 2" "0 \<le> tm_hour utc \<and> tm_hour utc < 10 ^ 2"
    "0 \<le> tm_min utc \<and> tm_min utc < 10 ^ 2" "0 \<le> tm_sec utc \<and> tm_sec utc < 10 ^ 2"
    "0 \<le> millis \<and> millis < 10 ^ 3"
    using assms by (simp_all add: tm_in_range_def)
  then show ?thesis
    by (simp add: timestamp_text_def pad) (simp add: stamp_char_def)
qed

text \<open>
  What the adapter relies on: a clock between the epoch and the end of the year 9999, the ranges of
  \<^verbatim>\<open>gmtime_r\<close> on such times, and streams that work.
\<close>

definition last_second :: int where
  "last_second = 253402300799"

definition host_documented :: "'o stdio_host \<Rightarrow> bool" where
  "host_documented H \<longleftrightarrow>
     (\<forall>w. 0 \<le> fst (read_clock H w) \<and> fst (read_clock H w) < (last_second + 1) * 1000000000) \<and>
     (\<forall>t. 0 \<le> t \<and> t \<le> last_second \<longrightarrow> (case broken_down H t of None \<Rightarrow> True | Some utc \<Rightarrow> tm_in_range utc)) \<and>
     (\<forall>st w. stream_takes H st w)"

lemma epoch_text_exact: "length epoch_text = 24 \<and> list_all stamp_char epoch_text"
  by (simp add: epoch_text_def stamp_char_def)

lemma append_timestamp_exact:
  assumes "host_documented H"
  shows "\<exists>ts. append_timestamp H rec w = (Inr (rec @ ts), snd (read_clock H w)) \<and>
    length ts = 24 \<and> list_all stamp_char ts"
proof -
  obtain now w' where now: "read_clock H w = (now, w')" by fastforce
  let ?s = "trunc_div now 1000000000"
  have nonneg: "0 \<le> now" and bound: "now < (last_second + 1) * 1000000000"
    using assms now by (metis host_documented_def fst_conv)+
  from nonneg have s: "0 \<le> ?s" and rest: "now - ?s * 1000000000 = now mod 1000000000"
    by (simp_all add: trunc_div_def pos_imp_zdiv_nonneg_iff minus_div_mult_eq_mod)
  have le: "?s \<le> last_second"
    using nonneg bound by (simp add: trunc_div_def last_second_def)
  have "0 \<le> now mod 1000000000" "now mod 1000000000 < 1000000000" by simp_all
  then have "0 \<le> now mod 1000000000 div 1000000" "now mod 1000000000 div 1000000 < 1000" by linarith+
  then have ms: "0 \<le> trunc_div (now mod 1000000000) 1000000" "trunc_div (now mod 1000000000) 1000000 < 1000"
    using pos_mod_sign [of 1000000000 now] by (simp_all only: trunc_div_def) auto
  show ?thesis
  proof (cases "broken_down H ?s")
    case None
    then show ?thesis using now epoch_text_exact by (simp add: append_timestamp_def)
  next
    case (Some utc)
    then have "tm_in_range utc" using assms s le by (fastforce simp: host_documented_def)
    from timestamp_text_exact [OF this ms] Some now rest epoch_text_exact show ?thesis
      by (simp add: append_timestamp_def Let_def)
  qed
qed

section \<open>The adapter as a logger\<close>

text \<open>The adapter with the host it runs on and what has been written.\<close>

record 'o stdio_system =
  sys_host :: "'o stdio_host"
  sys_logger :: stdio_logger
  sys_world :: "'o stdio_world"

definition stdio_step :: "'o stdio_system \<Rightarrow> log_call \<Rightarrow> 'o stdio_system" where
  "stdio_step s c =
     (case stdio_log (sys_host s) (call_level c) (call_message c) (call_fields c) (sys_logger s) (sys_world s) of
        Inl f \<Rightarrow> s
      | Inr (l, w) \<Rightarrow> s\<lparr>sys_logger := l, sys_world := w\<rparr>)"

definition stdio_ok :: "'o stdio_system \<Rightarrow> bool" where
  "stdio_ok s \<longleftrightarrow>
     host_documented (sys_host s) \<and> (sl_out (sys_logger s) = None \<longleftrightarrow> sl_err (sys_logger s) = None)"

definition stdio_accepts :: "'o stdio_system \<Rightarrow> log_level \<Rightarrow> bool" where
  "stdio_accepts s level \<longleftrightarrow>
     \<not> is_below_min_level level (sl_min_level (sys_logger s)) \<and>
     stream_for_level level (sl_out (sys_logger s)) (sl_err (sys_logger s)) \<noteq> None"

definition stdio_written :: "'o stdio_system \<Rightarrow> (stream \<times> string) list" where
  "stdio_written s = written (sys_world s)"

definition stdio_line :: "string \<Rightarrow> bool \<Rightarrow> log_call \<Rightarrow> string" where
  "stdio_line ts color c =
     render_fields (ts @ [space_char] @ level_token color (call_level c) @ [space_char] @ call_message c)
       (call_fields c) @ [CHR 0x0A]"

definition stdio_represents :: "stream \<times> string \<Rightarrow> log_call \<Rightarrow> bool" where
  "stdio_represents r c \<longleftrightarrow>
     (\<exists>ts color. length ts = 24 \<and> list_all stamp_char ts \<and> snd r = stdio_line ts color c)"

lemma stdio_log_accepted:
  assumes "host_documented H" and "\<not> is_below_min_level (call_level c) (sl_min_level l)"
    and "stream_for_level (call_level c) (sl_out l) (sl_err l) = Some st"
  shows "\<exists>ts color rec h. length ts = 24 \<and> list_all stamp_char ts \<and>
    stdio_log H (call_level c) (call_message c) (call_fields c) l w =
      Inr (l\<lparr>sl_record := rec\<rparr>,
           w\<lparr>host_state := h, written := written w @ [(st, stdio_line ts color c)]\<rparr>)"
proof -
  obtain ts where ts: "append_timestamp H [] (host_state w) = (Inr ts, snd (read_clock H (host_state w)))"
    "length ts = 24" "list_all stamp_char ts"
    using append_timestamp_exact [OF assms(1), of "[]" "host_state w"] by auto
  let ?color = "should_colorize H (sl_color l) st (snd (read_clock H (host_state w)))"
  let ?rec = "butlast (stdio_line ts ?color c)"
  have "stream_takes H st h" for h using assms(1) by (simp add: host_documented_def)
  with assms ts have "stdio_log H (call_level c) (call_message c) (call_fields c) l w =
      Inr (l\<lparr>sl_record := ?rec\<rparr>,
           w\<lparr>host_state := snd (read_clock H (host_state w)), written := written w @ [(st, stdio_line ts ?color c)]\<rparr>)"
    by (simp add: stdio_log_def Let_def stdio_line_def)
  with ts show ?thesis by blast
qed

lemma stdio_log_dropped:
  "is_below_min_level level (sl_min_level l) \<or> stream_for_level level (sl_out l) (sl_err l) = None \<Longrightarrow>
   stdio_log H level msg fs l w = Inr (l, w)"
  by (auto simp: stdio_log_def)

lemma stdio_step_accepted:
  assumes "stdio_ok s" and "stdio_accepts s (call_level c)"
  shows "\<exists>ts color rec h st. length ts = 24 \<and> list_all stamp_char ts \<and>
    stream_for_level (call_level c) (sl_out (sys_logger s)) (sl_err (sys_logger s)) = Some st \<and>
    stdio_step s c = s\<lparr>sys_logger := (sys_logger s)\<lparr>sl_record := rec\<rparr>,
      sys_world := (sys_world s)\<lparr>host_state := h, written := stdio_written s @ [(st, stdio_line ts color c)]\<rparr>\<rparr>"
proof -
  obtain st where st: "stream_for_level (call_level c) (sl_out (sys_logger s)) (sl_err (sys_logger s)) = Some st"
    using assms(2) by (auto simp: stdio_accepts_def)
  have "host_documented (sys_host s)" "\<not> is_below_min_level (call_level c) (sl_min_level (sys_logger s))"
    using assms by (auto simp: stdio_ok_def stdio_accepts_def)
  from stdio_log_accepted [OF this st, of "sys_world s"]
  obtain ts color rec h where "length ts = 24" "list_all stamp_char ts"
    "stdio_log (sys_host s) (call_level c) (call_message c) (call_fields c) (sys_logger s) (sys_world s) =
      Inr ((sys_logger s)\<lparr>sl_record := rec\<rparr>,
           (sys_world s)\<lparr>host_state := h, written := written (sys_world s) @ [(st, stdio_line ts color c)]\<rparr>)"
    by blast
  then have "stdio_step s c = s\<lparr>sys_logger := (sys_logger s)\<lparr>sl_record := rec\<rparr>,
      sys_world := (sys_world s)\<lparr>host_state := h, written := stdio_written s @ [(st, stdio_line ts color c)]\<rparr>\<rparr>"
    by (simp add: stdio_step_def stdio_written_def)
  with st \<open>length ts = 24\<close> \<open>list_all stamp_char ts\<close> show ?thesis by blast
qed

lemma stdio_step_dropped: "\<not> stdio_accepts s (call_level c) \<Longrightarrow> stdio_step s c = s"
  using stdio_log_dropped [of "call_level c" "sys_logger s" "sys_host s" "call_message c" "call_fields c" "sys_world s"]
  by (auto simp: stdio_accepts_def stdio_step_def)

lemma stream_for_level_both:
  "(a = None \<longleftrightarrow> b = None) \<Longrightarrow> stream_for_level l a b = None \<longleftrightarrow> a = None"
  by (cases l) simp_all

interpretation stdio: threshold_logger_port stdio_step stdio_ok stdio_accepts stdio_written stdio_represents
proof
  fix s :: "'o stdio_system" and c
  assume ok: "stdio_ok s"
  show "\<exists>r. stdio_written (stdio_step s c) = stdio_written s @ [r] \<and> stdio_represents r c"
    if "stdio_accepts s (call_level c)"
  proof -
    from stdio_step_accepted [OF ok that] obtain ts color rec h st
      where ts: "length ts = 24" "list_all stamp_char ts"
      and step: "stdio_step s c = s\<lparr>sys_logger := (sys_logger s)\<lparr>sl_record := rec\<rparr>,
        sys_world := (sys_world s)\<lparr>host_state := h, written := stdio_written s @ [(st, stdio_line ts color c)]\<rparr>\<rparr>"
      by blast
    from ts have "stdio_represents (st, stdio_line ts color c) c" unfolding stdio_represents_def snd_conv by blast
    with step show ?thesis by (simp add: stdio_written_def)
  qed
  show "stdio_written (stdio_step s c) = stdio_written s" if "\<not> stdio_accepts s (call_level c)"
    using stdio_step_dropped [OF that] by simp
  show "stdio_accepts (stdio_step s c) = stdio_accepts s"
    using stdio_step_accepted [OF ok, of c] stdio_step_dropped [of s c]
    by (cases "stdio_accepts s (call_level c)") (auto simp: stdio_accepts_def fun_eq_iff)
  show "stdio_ok (stdio_step s c)"
    using ok stdio_step_accepted [OF ok, of c] stdio_step_dropped [of s c]
    by (cases "stdio_accepts s (call_level c)") (auto simp: stdio_ok_def)
next
  fix s :: "'o stdio_system" and l l'
  assume "stdio_ok s" "stdio_accepts s l" "level_value l \<le> level_value l'"
  then show "stdio_accepts s l'"
    by (auto simp: stdio_accepts_def stdio_ok_def is_below_min_level_def stream_for_level_both split: option.splits)
qed

section \<open>Reading a line back\<close>

text \<open>Past the first \<open>]\<close> and the space after it, without the newline.\<close>

definition read_stdio_line :: "string \<Rightarrow> (string \<times> (string \<times> string) list) option" where
  "read_stdio_line line =
     Option.bind (split_at (CHR '']'') line) (\<lambda>(front, rest).
       Option.bind (split_at space_char rest) (\<lambda>(token, body). read_record (butlast body)))"

text \<open>A call with a plain message and plain keys; the values may hold any bytes.\<close>

definition plain_call :: "log_call \<Rightarrow> bool" where
  "plain_call c \<longleftrightarrow>
     equals_char \<notin> set (call_message c) \<and> printable_from_space (call_message c) \<and>
     list_all (\<lambda>f. plain_key (field_key f)) (call_fields c) \<and>
     list_all (\<lambda>f. printable_from_space (field_key f)) (call_fields c)"

lemma level_front:
  "\<exists>front tail. level_token color level = front @ CHR '']'' # tail \<and> CHR '']'' \<notin> set front \<and> space_char \<notin> set tail"
proof (cases color)
  case True
  show ?thesis
    by (rule exI [of _ "ansi_sequence level @ ''['' @ level_label level"], rule exI [of _ reset_sequence])
       (cases level; simp add: True level_token_def reset_sequence_def)
next
  case False
  show ?thesis
    by (rule exI [of _ "''['' @ level_label level"], rule exI [of _ "[]"])
       (cases level; simp add: False level_token_def)
qed

lemma stamp_no_bracket: "list_all stamp_char ts \<Longrightarrow> CHR '']'' \<notin> set ts"
proof -
  have "\<not> stamp_char (CHR '']'')" by (simp add: stamp_char_def)
  then show "list_all stamp_char ts \<Longrightarrow> CHR '']'' \<notin> set ts" by (metis list_all_iff)
qed

lemma read_stdio_line_parts:
  assumes "CHR '']'' \<notin> set a" and "space_char \<notin> set b"
  shows "read_stdio_line (a @ CHR '']'' # b @ space_char # body @ [nl]) = read_record body"
  unfolding read_stdio_line_def split_at_append [OF assms(1)] bind.simps prod.case
    split_at_append [OF assms(2)] butlast_snoc ..

lemma read_stdio_line_exact:
  assumes "list_all stamp_char ts" and "plain_call c"
  shows "read_stdio_line (stdio_line ts color c) =
    Some (call_message c, map (\<lambda>f. (field_key f, field_value f)) (call_fields c))"
proof -
  from level_front [of color "call_level c"] obtain front tail
    where token: "level_token color (call_level c) = front @ CHR '']'' # tail"
    and front: "CHR '']'' \<notin> set front" and tail: "space_char \<notin> set tail"
    by (elim exE conjE)
  let ?body = "render_fields (call_message c) (call_fields c)"
  have line: "stdio_line ts color c =
      (ts @ space_char # front) @ CHR '']'' # tail @ space_char # ?body @ [CHR 0x0A]"
    by (simp add: stdio_line_def token render_fields_eq)
  have "CHR '']'' \<notin> set (ts @ space_char # front)"
    using stamp_no_bracket [OF assms(1)] front by simp
  from read_stdio_line_parts [OF this tail] show ?thesis
    using assms(2) read_record_render [of "call_message c" "call_fields c"] unfolding line plain_call_def by simp
qed

lemma stamp_printable: "list_all stamp_char ts \<Longrightarrow> printable_from_space ts"
proof -
  have "list_all (\<lambda>c. 0x20 \<le> (of_char c :: nat)) ''0123456789-T:.Z''" by code_simp
  then show "list_all stamp_char ts \<Longrightarrow> printable_from_space ts"
    unfolding printable_from_space_def list_all_iff stamp_char_def by blast
qed

lemma stdio_line_single:
  assumes "list_all stamp_char ts" and "plain_call c"
  shows "count_list (stdio_line ts color c) (CHR 0x0A) = 1"
proof -
  have nl: "count_list cs (CHR 0x0A) = 0" if "printable_from_space cs" for cs
    using that by (induction cs) auto
  have token: "count_list (level_token color (call_level c)) (CHR 0x0A) = 0"
    by (cases color; cases "call_level c") (simp_all add: level_token_def reset_sequence_def)
  have "count_list (concat (map field_text fs)) (CHR 0x0A) = 0"
    if "list_all (\<lambda>f. printable_from_space (field_key f)) fs" for fs
    using that by (intro nl) (induction fs; simp add: printable_field)
  then show ?thesis
    using nl [OF stamp_printable [OF assms(1)]] nl [of "call_message c"] token assms(2)
    by (simp add: stdio_line_def render_fields_eq plain_call_def)
qed

definition reads_back :: "string \<Rightarrow> log_call \<Rightarrow> bool" where
  "reads_back line c \<longleftrightarrow>
     read_stdio_line line = Some (call_message c, map (\<lambda>f. (field_key f, field_value f)) (call_fields c)) \<and>
     count_list line (CHR 0x0A) = 1"

lemma stdio_represents_read: "stdio_represents r c \<Longrightarrow> plain_call c \<Longrightarrow> reads_back (snd r) c"
  using read_stdio_line_exact stdio_line_single by (auto simp: stdio_represents_def reads_back_def)

lemma stdio_streams:
  "stdio_ok s \<Longrightarrow>
   map (Some \<circ> fst) (stdio_written (foldl stdio_step s cs)) =
     map (Some \<circ> fst) (stdio_written s) @
     map (\<lambda>c. stream_for_level (call_level c) (sl_out (sys_logger s)) (sl_err (sys_logger s)))
       (filter (\<lambda>c. stdio_accepts s (call_level c)) cs)"
proof (induction cs arbitrary: s)
  case (Cons c cs)
  show ?case
  proof (cases "stdio_accepts s (call_level c)")
    case True
    from stdio_step_accepted [OF Cons(2) True] obtain ts color rec h st
      where st: "stream_for_level (call_level c) (sl_out (sys_logger s)) (sl_err (sys_logger s)) = Some st"
      and step: "stdio_step s c = s\<lparr>sys_logger := (sys_logger s)\<lparr>sl_record := rec\<rparr>,
        sys_world := (sys_world s)\<lparr>host_state := h, written := stdio_written s @ [(st, stdio_line ts color c)]\<rparr>\<rparr>"
      by blast
    have "stdio_ok (stdio_step s c)" "stdio_accepts (stdio_step s c) = stdio_accepts s"
      using stdio.ok_log stdio.accepts_log Cons(2) by blast+
    with Cons.IH [of "stdio_step s c"] True st step show ?thesis by (simp add: stdio_written_def)
  next
    case False
    with Cons show ?thesis by (simp add: stdio_step_dropped)
  qed
qed simp

section \<open>Properties\<close>

text \<open>
  C31: Whatever is logged, in any number of calls, the adapter writes one line for each call it
  does not filter out, in order, warnings and errors to the error stream and the rest to the
  output stream; and each line reads back to exactly the message, keys and values of its call,
  whatever bytes the values hold. It needs a clock between the epoch and the end of the year 9999 and a
  calendar that breaks such times down within range, streams that work (given both, or neither after
  a move), messages without \<^verbatim>\<open>=\<close> or control characters, and keys without \<^verbatim>\<open>=\<close>, control characters or
  spaces.
\<close>
theorem stdio_log_faithful:
  assumes "stdio_ok s" and "list_all plain_call cs"
  shows "\<exists>rs. stdio_written (foldl stdio_step s cs) = stdio_written s @ rs \<and>
    list_all2 reads_back (map snd rs) (filter (\<lambda>c. stdio_accepts s (call_level c)) cs) \<and>
    map (Some \<circ> fst) rs =
      map (\<lambda>c. stream_for_level (call_level c) (sl_out (sys_logger s)) (sl_err (sys_logger s)))
        (filter (\<lambda>c. stdio_accepts s (call_level c)) cs)"
proof -
  obtain rs where rs: "stdio_written (foldl stdio_step s cs) = stdio_written s @ rs"
    and shown: "list_all2 stdio_represents rs (filter (\<lambda>c. stdio_accepts s (call_level c)) cs)"
    using stdio.replay [OF assms(1)] by blast
  have "list_all2 reads_back (map snd rs) (filter (\<lambda>c. stdio_accepts s (call_level c)) cs)"
    unfolding list_all2_map1 using shown
    by (rule list.rel_mono_strong) (use assms(2) stdio_represents_read in \<open>auto simp: list_all_iff\<close>)
  with rs stdio_streams [OF assms(1), of cs] show ?thesis by auto
qed

definition lab_stdio_host :: "int stdio_host" where
  "lab_stdio_host =
     \<lparr>read_clock = (\<lambda>t. (min (max t 0) 1000000000000000, t + 1000000)),
      broken_down = (\<lambda>s. Some \<lparr>tm_year = 126, tm_mon = 1, tm_mday = 28, tm_hour = 23, tm_min = 59, tm_sec = 7\<rparr>),
      host_getenv = (\<lambda>name t. None), host_isatty = (\<lambda>st t. 1), stream_takes = (\<lambda>st t. True)\<rparr>"

definition lab_stdio :: "int stdio_system" where
  "lab_stdio =
     \<lparr>sys_host = lab_stdio_host, sys_logger = default_stdio_logger\<lparr>sl_min_level := Some info\<rparr>,
      sys_world = \<lparr>host_state = 5, written = []\<rparr>\<rparr>"

definition lab_calls :: "log_call list" where
  "lab_calls =
     [\<lparr>call_level = debug, call_message = ''hidden'', call_fields = []\<rparr>,
      \<lparr>call_level = warn, call_message = ''PCR read failed'', call_fields = [fld ''reason'' ''a=b c'']\<rparr>]"

lemma lab_stdio_host_documented: "host_documented lab_stdio_host"
  by (simp add: host_documented_def lab_stdio_host_def tm_in_range_def last_second_def min_def max_def)

lemma stdio_log_faithful_witness:
  "\<exists>rs. stdio_written (foldl stdio_step lab_stdio lab_calls) = stdio_written lab_stdio @ rs \<and>
    list_all2 reads_back (map snd rs) (filter (\<lambda>c. stdio_accepts lab_stdio (call_level c)) lab_calls) \<and>
    map (Some \<circ> fst) rs =
      map (\<lambda>c. stream_for_level (call_level c) (sl_out (sys_logger lab_stdio)) (sl_err (sys_logger lab_stdio)))
        (filter (\<lambda>c. stdio_accepts lab_stdio (call_level c)) lab_calls)"
proof (rule stdio_log_faithful)
  show "stdio_ok lab_stdio"
    by (simp add: stdio_ok_def lab_stdio_def lab_stdio_host_documented default_stdio_logger_def new_stdio_logger_def)
  show "list_all plain_call lab_calls"
    by (simp add: lab_calls_def plain_call_def plain_key_def)
qed

text \<open>
  Before the epoch the milliseconds are negative, the text is one character too long for the
  buffer, and the NUL of the buffer becomes part of the line in place of the \<^verbatim>\<open>Z\<close>.
\<close>

lemma timestamp_before_epoch:
  "append_timestamp
     (lab_stdio_host\<lparr>read_clock := (\<lambda>t. (- 500000000, t)),
        broken_down := (\<lambda>s. Some \<lparr>tm_year = 70, tm_mon = 0, tm_mday = 1, tm_hour = 0, tm_min = 0, tm_sec = s\<rparr>)\<rparr>) [] 0 =
   (Inr (''1970-01-01T00:00:00.-500'' @ [CHR 0x00]), 0)"
  by code_simp

end
