(* ===== verification/Process_Log.thy ===== *)
theory Process_Log
  imports Examples Stdio_Logger
begin

text \<open>
  What a run of a program leaves in a log written by the stdio adapter: lines of the listed events, in the
  adapter's vocabulary, that read back to the calls that were logged.
\<close>

section \<open>Lines of the listed events\<close>

definition audit_line :: "string \<Rightarrow> bool" where
  "audit_line line \<longleftrightarrow> count_list line (CHR 0x0A) = 1 \<and>
     (case read_stdio_line line of
        None \<Rightarrow> False
      | Some (msg, entries) \<Rightarrow>
          list_all (\<lambda>(k, v). k \<in> set log_field_keys) entries \<and> distinct (map fst entries) \<and>
          list_ex (\<lambda>v. map_of entries ''outcome'' = Some v) log_outcome_values \<and>
          list_ex (\<lambda>e. msg = event_message e \<and> map_of entries ''event'' = Some (event_name e)) listed_events)"

lemma vocabulary_plain: "k \<in> set log_field_keys \<Longrightarrow> plain_key k \<and> printable_from_space k"
proof -
  have "list_all (\<lambda>k. plain_key k \<and> printable_from_space k) log_field_keys" by code_simp
  then show "k \<in> set log_field_keys \<Longrightarrow> ?thesis" by (auto simp: list_all_iff)
qed

lemma messages_plain:
  "e \<in> set listed_events \<Longrightarrow> equals_char \<notin> set (event_message e) \<and> printable_from_space (event_message e)"
proof -
  have "list_all (\<lambda>e. equals_char \<notin> set (event_message e) \<and> printable_from_space (event_message e)) listed_events"
    by code_simp
  then show "e \<in> set listed_events \<Longrightarrow> ?thesis" by (auto simp: list_all_iff)
qed

lemma tidy_plain: "tidy c \<Longrightarrow> plain_call c"
  using vocabulary_plain messages_plain
  by (auto simp: tidy_def in_vocabulary_def plain_call_def list_all_iff list_ex_iff Let_def)

lemma tidy_audit_line: "tidy c \<Longrightarrow> reads_back line c \<Longrightarrow> audit_line line"
  by (auto simp: tidy_def in_vocabulary_def reads_back_def audit_line_def field_lookup_def
      list_all_iff list_ex_iff Let_def o_def)

lemma tidy_log_lines:
  assumes "stdio_ok s" and "list_all tidy cs"
  shows "\<exists>rs. stdio_written (foldl stdio_step s cs) = stdio_written s @ rs \<and>
    list_all2 reads_back (map snd rs) (filter (\<lambda>c. stdio_accepts s (call_level c)) cs) \<and>
    list_all audit_line (map snd rs)"
proof -
  let ?cs = "filter (\<lambda>c. stdio_accepts s (call_level c)) cs"
  obtain rs where rs: "stdio_written (foldl stdio_step s cs) = stdio_written s @ rs"
    and shown: "list_all2 stdio_represents rs ?cs"
    using stdio.replay [OF assms(1)] by blast
  have tidy: "c \<in> set ?cs \<Longrightarrow> tidy c" for c using assms(2) by (auto simp: list_all_iff)
  have "list_all2 (\<lambda>r c. reads_back (snd r) c \<and> audit_line (snd r)) rs ?cs"
    using stdio_represents_read tidy_plain tidy_audit_line tidy
    by (intro list.rel_mono_strong [OF shown]) blast
  then have "list_all2 reads_back (map snd rs) ?cs \<and> list_all audit_line (map snd rs)"
    unfolding list_all2_map1 by (induction rule: list_all2_induct) auto
  with rs show ?thesis by blast
qed

lemma example_records_tidy:
  assumes "documented_installation I"
  shows "list_all tidy (records (actions (port (snd (example_main ex I argv (start b))))))"
  using example_clean [OF assms, of ex "start b" argv] example_default_build [OF assms, of ex "start b" argv]
  by (cases "in_legacy I \<or> \<not> probes_banks ex") (auto simp: clean_def left_behind_def start_def)

section \<open>Properties\<close>

text \<open>
  C33: Whichever program of the examples runs, however it ends and whatever its arguments, its TPM and
  its library (with the documented sizes) do, the calls it makes to its logger fill a stdio logger, one
  with a clock between the epoch and the end of the year 9999 and with streams that work, with one line
  for each call that is not filtered out; each line reads back to the call, is one of the adapter's listed events with its own
  message, has an outcome of the vocabulary, and uses keys of the vocabulary, each once.
\<close>
theorem audit_log_readable:
  assumes "documented_installation I" and "stdio_ok s"
  shows "case example_main ex I argv (start b) of (r, m) \<Rightarrow>
    (\<exists>rs. stdio_written (foldl stdio_step s (records (actions (port m)))) = stdio_written s @ rs \<and>
      list_all2 reads_back (map snd rs)
        (filter (\<lambda>c. stdio_accepts s (call_level c)) (records (actions (port m)))) \<and>
      list_all audit_line (map snd rs))"
  using tidy_log_lines [OF assms(2) example_records_tidy [OF assms(1)]] by (simp add: split_beta)

lemma audit_log_readable_witness:
  "case example_main (Tpm_context_basics True) (lab_installation False) [''tpm_context_basics''] (start 0) of (r, m) \<Rightarrow>
    (\<exists>rs. stdio_written (foldl stdio_step lab_stdio (records (actions (port m)))) = stdio_written lab_stdio @ rs \<and>
      list_all2 reads_back (map snd rs)
        (filter (\<lambda>c. stdio_accepts lab_stdio (call_level c)) (records (actions (port m)))) \<and>
      list_all audit_line (map snd rs))"
  by (rule audit_log_readable)
     (simp_all add: stdio_ok_def lab_stdio_def lab_stdio_host_documented default_stdio_logger_def new_stdio_logger_def)

end
