(* ===== verification/Spdlog_Logger.thy ===== *)
theory Spdlog_Logger
  imports Log_Line
begin

text \<open>
  \<^verbatim>\<open>src/adapters/logging/spdlog/spdlog_logger.cpp\<close>: the adapter that renders a record and hands it
  to an \<^verbatim>\<open>spdlog::logger\<close>. The spdlog library is third-party code: three functions over a state
  \<open>'k\<close>, an argument of the model; a throw of \<^verbatim>\<open>log\<close> or \<^verbatim>\<open>flush\<close> is swallowed, so only the state it
  leaves matters. A call holds the mutex of the adapter while it uses the sink. \<open>sent\<close> is the list of
  the lines handed to the sink.
\<close>

text \<open>The levels of \<^verbatim>\<open>spdlog::level\<close> the adapter uses, in their order.\<close>

datatype spd_level = Spd_trace | Spd_debug | Spd_info | Spd_warn | Spd_err

fun spd_value :: "spd_level \<Rightarrow> nat" where
  "spd_value Spd_trace = 0"
| "spd_value Spd_debug = 1"
| "spd_value Spd_info = 2"
| "spd_value Spd_warn = 3"
| "spd_value Spd_err = 4"

record 'k spdlog_lib =
  should_log :: "'k \<Rightarrow> spd_level \<Rightarrow> bool"
  sink_log :: "spd_level \<Rightarrow> string \<Rightarrow> 'k \<Rightarrow> 'k"
  sink_flush :: "'k \<Rightarrow> 'k"

text \<open>The adapter holds a shared pointer to its sink, null once it was moved from.\<close>

record spdlog_logger =
  spd_sink :: bool

record 'k spdlog_world =
  sink_state :: 'k
  sent :: "(spd_level \<times> string) list"
  flushes :: nat

fun to_spdlog_level :: "log_level \<Rightarrow> spd_level" where
  "to_spdlog_level trace = Spd_trace"
| "to_spdlog_level debug = Spd_debug"
| "to_spdlog_level info = Spd_info"
| "to_spdlog_level warn = Spd_warn"
| "to_spdlog_level error_level = Spd_err"
| "to_spdlog_level (unlisted_level n) = Spd_info"

definition new_spdlog_logger :: "bool \<Rightarrow> fault + spdlog_logger" where
  "new_spdlog_logger sink =
     (if \<not> sink then Inl (make_tpmkit_error (Some ''spdlog_logger sink must not be null''))
      else Inr \<lparr>spd_sink = sink\<rparr>)"

text \<open>The moves return the new target and the new source.\<close>

definition move_spdlog_logger :: "spdlog_logger \<Rightarrow> spdlog_logger \<times> spdlog_logger" where
  "move_spdlog_logger other = (\<lparr>spd_sink = spd_sink other\<rparr>, \<lparr>spd_sink = False\<rparr>)"

definition assign_spdlog_logger :: "spdlog_logger \<Rightarrow> spdlog_logger \<Rightarrow> spdlog_logger \<times> spdlog_logger" where
  "assign_spdlog_logger this other = (this\<lparr>spd_sink := spd_sink other\<rparr>, other\<lparr>spd_sink := False\<rparr>)"

definition spdlog_log ::
  "'k spdlog_lib \<Rightarrow> log_level \<Rightarrow> string \<Rightarrow> log_field list \<Rightarrow> spdlog_logger \<Rightarrow> 'k spdlog_world \<Rightarrow> 'k spdlog_world"
where
  "spdlog_log L level msg fs l w =
     (let sl = to_spdlog_level level in
      if \<not> spd_sink l then w
      else if \<not> should_log L (sink_state w) sl then w
      else let rendered = render_fields msg fs
           in w\<lparr>sink_state := sink_log L sl rendered (sink_state w), sent := sent w @ [(sl, rendered)]\<rparr>)"

definition spdlog_flush :: "'k spdlog_lib \<Rightarrow> spdlog_logger \<Rightarrow> 'k spdlog_world \<Rightarrow> 'k spdlog_world" where
  "spdlog_flush L l w =
     (if \<not> spd_sink l then w
      else w\<lparr>sink_state := sink_flush L (sink_state w), flushes := flushes w + 1\<rparr>)"

section \<open>The adapter as a logger\<close>

record 'k spdlog_system =
  spd_lib :: "'k spdlog_lib"
  spd_logger :: spdlog_logger
  spd_world :: "'k spdlog_world"

definition spdlog_step :: "'k spdlog_system \<Rightarrow> log_call \<Rightarrow> 'k spdlog_system" where
  "spdlog_step s c =
     s\<lparr>spd_world := spdlog_log (spd_lib s) (call_level c) (call_message c) (call_fields c) (spd_logger s) (spd_world s)\<rparr>"

text \<open>
  The documented sink: its level is a threshold, and logging does not change it.
\<close>

definition sink_documented :: "'k spdlog_lib \<Rightarrow> bool" where
  "sink_documented L \<longleftrightarrow>
     (\<forall>k l l'. should_log L k l \<longrightarrow> spd_value l \<le> spd_value l' \<longrightarrow> should_log L k l') \<and>
     (\<forall>k l l' m. should_log L (sink_log L l m k) l' = should_log L k l')"

definition spdlog_accepts :: "'k spdlog_system \<Rightarrow> log_level \<Rightarrow> bool" where
  "spdlog_accepts s level \<longleftrightarrow>
     spd_sink (spd_logger s) \<and> should_log (spd_lib s) (sink_state (spd_world s)) (to_spdlog_level level)"

definition spdlog_sent :: "'k spdlog_system \<Rightarrow> (spd_level \<times> string) list" where
  "spdlog_sent s = sent (spd_world s)"

definition spdlog_represents :: "spd_level \<times> string \<Rightarrow> log_call \<Rightarrow> bool" where
  "spdlog_represents r c \<longleftrightarrow>
     fst r = to_spdlog_level (call_level c) \<and> snd r = render_fields (call_message c) (call_fields c)"

lemma to_spdlog_level_mono:
  "listed_level l \<Longrightarrow> listed_level l' \<Longrightarrow> level_value l \<le> level_value l' \<Longrightarrow>
   spd_value (to_spdlog_level l) \<le> spd_value (to_spdlog_level l')"
  by (cases l; cases l') simp_all

interpretation spd: threshold_logger_port
  spdlog_step "\<lambda>s. sink_documented (spd_lib s)" spdlog_accepts spdlog_sent spdlog_represents
proof
  fix s :: "'k spdlog_system" and c
  assume doc: "sink_documented (spd_lib s)"
  show "\<exists>r. spdlog_sent (spdlog_step s c) = spdlog_sent s @ [r] \<and> spdlog_represents r c"
    if "spdlog_accepts s (call_level c)"
    using that by (simp add: spdlog_accepts_def spdlog_sent_def spdlog_step_def spdlog_log_def
        spdlog_represents_def Let_def)
  show "spdlog_sent (spdlog_step s c) = spdlog_sent s" if "\<not> spdlog_accepts s (call_level c)"
    using that by (auto simp: spdlog_accepts_def spdlog_sent_def spdlog_step_def spdlog_log_def Let_def)
  show "spdlog_accepts (spdlog_step s c) = spdlog_accepts s"
    using doc by (simp add: fun_eq_iff spdlog_accepts_def spdlog_step_def spdlog_log_def Let_def sink_documented_def)
  show "sink_documented (spd_lib (spdlog_step s c))"
    using doc by (simp add: spdlog_step_def)
next
  fix s :: "'k spdlog_system" and l l'
  assume "sink_documented (spd_lib s)" "spdlog_accepts s l" "listed_level l" "listed_level l'"
    "level_value l \<le> level_value l'"
  then show "spdlog_accepts s l'"
    using to_spdlog_level_mono unfolding spdlog_accepts_def sink_documented_def by blast
qed

definition plain_event :: "log_call \<Rightarrow> bool" where
  "plain_event c \<longleftrightarrow>
     equals_char \<notin> set (call_message c) \<and> list_all (\<lambda>f. plain_key (field_key f)) (call_fields c)"

definition sent_faithfully :: "spd_level \<times> string \<Rightarrow> log_call \<Rightarrow> bool" where
  "sent_faithfully r c \<longleftrightarrow>
     fst r = to_spdlog_level (call_level c) \<and>
     read_record (snd r) = Some (call_message c, map (\<lambda>f. (field_key f, field_value f)) (call_fields c))"

lemma spdlog_represents_faithful: "spdlog_represents r c \<Longrightarrow> plain_event c \<Longrightarrow> sent_faithfully r c"
  by (simp add: spdlog_represents_def plain_event_def sent_faithfully_def read_record_render)

section \<open>Properties\<close>

text \<open>
  The spdlog adapter hands its sink one line for each call the sink's level lets through, in
  order and with the corresponding level; the line reads back to exactly the message, keys and
  values of the call, whatever bytes the values hold; an adapter that was moved from hands over
  nothing.
\<close>
theorem spdlog_log_faithful:
  assumes "sink_documented (spd_lib s)" and "list_all plain_event cs"
  shows "(\<exists>rs. spdlog_sent (foldl spdlog_step s cs) = spdlog_sent s @ rs \<and>
      list_all2 sent_faithfully rs (filter (\<lambda>c. spdlog_accepts s (call_level c)) cs)) \<and>
    spdlog_log L level msg fs (snd (move_spdlog_logger l)) w = w"
proof -
  obtain rs where rs: "spdlog_sent (foldl spdlog_step s cs) = spdlog_sent s @ rs"
    and shown: "list_all2 spdlog_represents rs (filter (\<lambda>c. spdlog_accepts s (call_level c)) cs)"
    using spd.replay [OF assms(1)] by blast
  have "list_all2 sent_faithfully rs (filter (\<lambda>c. spdlog_accepts s (call_level c)) cs)"
    using shown
    by (rule list.rel_mono_strong) (use assms(2) spdlog_represents_faithful in \<open>auto simp: list_all_iff\<close>)
  with rs show ?thesis by (auto simp: spdlog_log_def move_spdlog_logger_def)
qed

definition lab_sink :: "nat spdlog_lib" where
  "lab_sink =
     \<lparr>should_log = (\<lambda>threshold l. threshold \<le> spd_value l), sink_log = (\<lambda>l m k. k), sink_flush = (\<lambda>k. k)\<rparr>"

definition lab_spdlog :: "nat spdlog_system" where
  "lab_spdlog =
     \<lparr>spd_lib = lab_sink, spd_logger = \<lparr>spd_sink = True\<rparr>,
      spd_world = \<lparr>sink_state = 3, sent = [], flushes = 0\<rparr>\<rparr>"

definition lab_events :: "log_call list" where
  "lab_events =
     [\<lparr>call_level = info, call_message = ''below the threshold'', call_fields = []\<rparr>,
      \<lparr>call_level = error_level, call_message = ''TPM startup'', call_fields = [fld ''result'' ''x = y''] \<rparr>]"

lemma spdlog_log_faithful_witness:
  "(\<exists>rs. spdlog_sent (foldl spdlog_step lab_spdlog lab_events) = spdlog_sent lab_spdlog @ rs \<and>
      list_all2 sent_faithfully rs (filter (\<lambda>c. spdlog_accepts lab_spdlog (call_level c)) lab_events)) \<and>
    spdlog_log lab_sink info ''m'' [] (snd (move_spdlog_logger \<lparr>spd_sink = True\<rparr>)) (spd_world lab_spdlog) =
      spd_world lab_spdlog"
proof (rule spdlog_log_faithful)
  show "sink_documented (spd_lib lab_spdlog)"
    by (simp add: lab_spdlog_def lab_sink_def sink_documented_def)
  show "list_all plain_event lab_events"
    by (simp add: lab_events_def plain_event_def plain_key_def)
qed

end
