(* ===== verification/Locked_Section.thy ===== *)
theory Locked_Section
  imports Prelude
begin

text \<open>
  Threads that share an object behind one \<^verbatim>\<open>std::mutex\<close>: a call takes the mutex with a
  \<^verbatim>\<open>std::lock_guard\<close>, runs its body in small steps on the shared state, and gives the mutex back at the
  end of the scope. The locale \<open>locked_section\<close> says what a body must promise for every
  interleaving of the small steps to have the effect of whole calls, one after the other; the
  loggers of the theory Shared_Loggers interpret it.
\<close>

section \<open>The crew\<close>

text \<open>
  Each thread has its calls still to make, and the call it is in with the point its body has reached.
  \<open>entered\<close> is the history of the calls that got the mutex.
\<close>

record ('c, 'p, 's) crew =
  waiting :: "nat \<Rightarrow> 'c list"
  inside :: "nat \<Rightarrow> ('c \<times> 'p) option"
  mutex :: "nat option"
  shared :: 's
  entered :: "(nat \<times> 'c) list"

inductive crew_step ::
  "'p \<Rightarrow> ('c \<Rightarrow> 'p \<Rightarrow> 's \<Rightarrow> 'p \<times> 's) \<Rightarrow> 'p \<Rightarrow> ('c, 'p, 's) crew \<Rightarrow> ('c, 'p, 's) crew \<Rightarrow> bool"
  for first micro last
where
  Lock: "waiting C t = c # cs \<Longrightarrow> inside C t = None \<Longrightarrow> mutex C = None \<Longrightarrow>
    crew_step first micro last C
      (C\<lparr>waiting := (waiting C)(t := cs), inside := (inside C)(t \<mapsto> (c, first)), mutex := Some t,
         entered := entered C @ [(t, c)]\<rparr>)"
| Work: "inside C t = Some (c, p) \<Longrightarrow> p \<noteq> last \<Longrightarrow> micro c p (shared C) = (p', s') \<Longrightarrow>
    crew_step first micro last C (C\<lparr>inside := (inside C)(t \<mapsto> (c, p')), shared := s'\<rparr>)"
| Unlock: "inside C t = Some (c, last) \<Longrightarrow>
    crew_step first micro last C (C\<lparr>inside := (inside C)(t := None), mutex := None\<rparr>)"

inductive crew_run ::
  "'p \<Rightarrow> ('c \<Rightarrow> 'p \<Rightarrow> 's \<Rightarrow> 'p \<times> 's) \<Rightarrow> 'p \<Rightarrow> nat \<Rightarrow> ('c, 'p, 's) crew \<Rightarrow> ('c, 'p, 's) crew \<Rightarrow> bool"
  for first micro last
where
  Rest: "crew_run first micro last 0 C C"
| More: "crew_run first micro last n C D \<Longrightarrow> crew_step first micro last D E \<Longrightarrow>
    crew_run first micro last (Suc n) C E"

definition crew_start :: "(nat \<Rightarrow> 'c list) \<Rightarrow> 's \<Rightarrow> ('c, 'p, 's) crew" where
  "crew_start calls s = \<lparr>waiting = calls, inside = \<lambda>_. None, mutex = None, shared = s, entered = []\<rparr>"

definition all_done :: "('c, 'p, 's) crew \<Rightarrow> bool" where
  "all_done C \<longleftrightarrow> (\<forall>t. waiting C t = [] \<and> inside C t = None)"

text \<open>The calls of one thread in the history.\<close>

definition entered_by :: "nat \<Rightarrow> ('c, 'p, 's) crew \<Rightarrow> 'c list" where
  "entered_by t C = map snd (filter (\<lambda>e. fst e = t) (entered C))"

section \<open>What a body promises\<close>

text \<open>
  \<open>rest c p s\<close> is the effect of the body from the point \<open>p\<close> on, run alone; \<open>left c p\<close> bounds its
  steps; \<open>ok\<close> is what the shared object relies on, and keeps.
\<close>

locale locked_section =
  fixes first :: 'p
    and micro :: "'c \<Rightarrow> 'p \<Rightarrow> 's \<Rightarrow> 'p \<times> 's"
    and last :: 'p
    and atomic :: "'s \<Rightarrow> 'c \<Rightarrow> 's"
    and ok :: "'s \<Rightarrow> bool"
    and rest :: "'c \<Rightarrow> 'p \<Rightarrow> 's \<Rightarrow> 's"
    and left :: "'c \<Rightarrow> 'p \<Rightarrow> nat"
  assumes rest_first: "ok s \<Longrightarrow> rest c first s = atomic s c"
    and rest_micro: "ok s \<Longrightarrow> p \<noteq> last \<Longrightarrow> rest c (fst (micro c p s)) (snd (micro c p s)) = rest c p s"
    and rest_last: "rest c last s = s"
    and ok_micro: "ok s \<Longrightarrow> ok (snd (micro c p s))"
    and left_micro: "ok s \<Longrightarrow> p \<noteq> last \<Longrightarrow> left c (fst (micro c p s)) < left c p"
begin

abbreviation step where "step \<equiv> crew_step first micro last"
abbreviation run where "run \<equiv> crew_run first micro last"

text \<open>The state that the call in progress will leave.\<close>

definition settled :: "('c, 'p, 's) crew \<Rightarrow> 's" where
  "settled C = (case mutex C of None \<Rightarrow> shared C | Some t \<Rightarrow>
     (case inside C t of None \<Rightarrow> shared C | Some (c, p) \<Rightarrow> rest c p (shared C)))"

definition crew_invariant :: "(nat \<Rightarrow> 'c list) \<Rightarrow> 's \<Rightarrow> ('c, 'p, 's) crew \<Rightarrow> bool" where
  "crew_invariant calls s C \<longleftrightarrow>
     (\<forall>t. inside C t \<noteq> None \<longleftrightarrow> mutex C = Some t) \<and> ok (shared C) \<and>
     settled C = foldl atomic s (map snd (entered C)) \<and>
     (\<forall>t. entered_by t C @ waiting C t = calls t)"

lemma invariant_start: "ok s \<Longrightarrow> crew_invariant calls s (crew_start calls s)"
  by (simp add: crew_invariant_def crew_start_def settled_def entered_by_def)

lemma invariant_step:
  assumes "crew_invariant calls s C" and "step C D"
  shows "crew_invariant calls s D"
  using assms(2)
proof cases
  case (Lock t c cs)
  have "entered_by t C @ c # cs = calls t" using assms(1) Lock(2) unfolding crew_invariant_def by metis
  with Lock assms(1) show ?thesis
    by (auto simp: crew_invariant_def settled_def entered_by_def rest_first)
next
  case (Work t c p p' s')
  then have "mutex C = Some t" using assms(1) unfolding crew_invariant_def by (metis option.distinct(1))
  with Work assms(1) rest_micro [of "shared C" p c] ok_micro [of "shared C" c p] show ?thesis
    by (auto simp: crew_invariant_def settled_def entered_by_def)
next
  case (Unlock t c)
  then have "mutex C = Some t" using assms(1) unfolding crew_invariant_def by (metis option.distinct(1))
  with Unlock assms(1) show ?thesis
    by (auto simp: crew_invariant_def settled_def entered_by_def rest_last)
qed

lemma invariant_run: "run n C D \<Longrightarrow> crew_invariant calls s C \<Longrightarrow> crew_invariant calls s D"
  by (induction rule: crew_run.induct) (blast intro: invariant_step)+

text \<open>While nobody holds the mutex, the object is in the state of whole calls in the order of the history.\<close>

lemma linear:
  assumes "ok s" and "run n (crew_start calls s) C" and "mutex C = None"
  shows "shared C = foldl atomic s (map snd (entered C))" and "entered_by t C @ waiting C t = calls t"
proof -
  have "crew_invariant calls s C" by (rule invariant_run [OF assms(2) invariant_start [OF assms(1)]])
  with assms(3) show "shared C = foldl atomic s (map snd (entered C))" "entered_by t C @ waiting C t = calls t"
    by (simp_all add: crew_invariant_def settled_def)
qed

lemma exclusive:
  assumes "ok s" and "run n (crew_start calls s) C" and "inside C t \<noteq> None" and "inside C u \<noteq> None"
  shows "t = u"
  using invariant_run [OF assms(2) invariant_start [OF assms(1)]] assms(3,4) unfolding crew_invariant_def
  by (metis option.inject)

text \<open>No deadlock: while a thread has something to do, some thread can go on.\<close>

lemma no_deadlock:
  assumes "ok s" and "run n (crew_start calls s) C" and "\<not> all_done C"
  shows "\<exists>D. step C D"
proof (cases "mutex C")
  case None
  with invariant_run [OF assms(2) invariant_start [OF assms(1)]] have "inside C t = None" for t
    unfolding crew_invariant_def by (metis option.distinct(1))
  moreover from this assms(3) obtain t c cs where "waiting C t = c # cs"
    unfolding all_done_def by (metis neq_Nil_conv)
  ultimately show ?thesis using None crew_step.Lock [of C] by blast
next
  case (Some t)
  with invariant_run [OF assms(2) invariant_start [OF assms(1)]] obtain c p where "inside C t = Some (c, p)"
    by (fastforce simp: crew_invariant_def)
  then show ?thesis
    using crew_step.Unlock [of C t c] crew_step.Work [of C t c p] by (cases "p = last") (metis, metis prod.exhaust)
qed

text \<open>Every run ends: the work that is left is a bound on its steps.\<close>

definition work_of :: "('c, 'p, 's) crew \<Rightarrow> nat \<Rightarrow> nat" where
  "work_of C t = (\<Sum>c \<leftarrow> waiting C t. left c first + 2) +
     (case inside C t of None \<Rightarrow> 0 | Some (c, p) \<Rightarrow> left c p + 1)"

definition work :: "nat set \<Rightarrow> ('c, 'p, 's) crew \<Rightarrow> nat" where
  "work T C = (\<Sum>t \<in> T. work_of C t)"

definition crew_of :: "nat set \<Rightarrow> ('c, 'p, 's) crew \<Rightarrow> bool" where
  "crew_of T C \<longleftrightarrow> (\<forall>t. t \<notin> T \<longrightarrow> waiting C t = [] \<and> inside C t = None)"

lemma work_drops:
  "finite T \<Longrightarrow> t \<in> T \<Longrightarrow> \<forall>u. u \<noteq> t \<longrightarrow> work_of D u = work_of C u \<Longrightarrow> work_of D t < work_of C t \<Longrightarrow> work T D < work T C"
  unfolding work_def by (rule sum_strict_mono_ex1) (auto, metis less_or_eq_imp_le)

lemma step_works:
  assumes "finite T" and "crew_of T C" and "ok (shared C)" and "step C D"
  shows "work T D < work T C \<and> crew_of T D"
  using assms(4)
proof cases
  case (Lock t c cs)
  then have "t \<in> T" using assms(2) unfolding crew_of_def by (metis list.distinct(1))
  moreover have "work T D < work T C"
    by (rule work_drops [OF assms(1) \<open>t \<in> T\<close>]) (use Lock in \<open>simp_all add: work_of_def\<close>)
  ultimately show ?thesis using Lock assms(2) by (auto simp: crew_of_def)
next
  case (Work t c p p' s')
  then have "t \<in> T" using assms(2) unfolding crew_of_def by (metis option.distinct(1))
  moreover have "left c p' < left c p" using left_micro [OF assms(3) Work(3), of c] Work(4) by simp
  then have "work T D < work T C"
    by (intro work_drops [OF assms(1) \<open>t \<in> T\<close>]) (use Work in \<open>simp_all add: work_of_def\<close>)
  ultimately show ?thesis using Work assms(2) by (auto simp: crew_of_def)
next
  case (Unlock t c)
  then have "t \<in> T" using assms(2) unfolding crew_of_def by (metis option.distinct(1))
  moreover have "work T D < work T C"
    by (rule work_drops [OF assms(1) \<open>t \<in> T\<close>]) (use Unlock in \<open>simp_all add: work_of_def\<close>)
  ultimately show ?thesis using Unlock assms(2) by (auto simp: crew_of_def)
qed

lemma run_bounded:
  assumes "finite T" and "\<forall>t. t \<notin> T \<longrightarrow> calls t = []" and "ok s" and "run n (crew_start calls s) C"
  shows "n + work T C \<le> work T (crew_start calls s) \<and> crew_of T C"
proof -
  have "n + work T C \<le> work T B \<and> crew_of T C"
    if "run n B C" "crew_invariant calls s B" "crew_of T B" for n B C
    using that
  proof (induction rule: crew_run.induct)
    case (More n B C D)
    then have "ok (shared C)" using invariant_run [OF More(1)] unfolding crew_invariant_def by blast
    with More step_works [OF assms(1) _ this More(2)] show ?case by fastforce
  qed simp
  moreover have "crew_of T (crew_start calls s)" using assms(2) by (simp add: crew_of_def crew_start_def)
  ultimately show ?thesis using assms(4) invariant_start [OF assms(3)] by blast
qed

text \<open>A run that cannot go on has made every call, so every maximal run does.\<close>

lemma stuck_done:
  assumes "ok s" and "run n (crew_start calls s) C" and "\<nexists>D. step C D"
  shows "all_done C \<and> mutex C = None \<and> (\<forall>t. entered_by t C = calls t)"
proof -
  have inv: "crew_invariant calls s C" by (rule invariant_run [OF assms(2) invariant_start [OF assms(1)]])
  have "all_done C" using no_deadlock [OF assms(1,2)] assms(3) by blast
  moreover from this inv have "mutex C = None"
    unfolding all_done_def crew_invariant_def by (metis not_None_eq)
  moreover have "entered_by t C = calls t" for t
    using inv \<open>all_done C\<close> unfolding all_done_def crew_invariant_def by (metis append_Nil2)
  ultimately show ?thesis by blast
qed

lemma some_run_finishes:
  assumes "finite T" and "\<forall>t. t \<notin> T \<longrightarrow> calls t = []" and "ok s"
  shows "\<exists>n C. run n (crew_start calls s) C \<and> mutex C = None \<and> all_done C"
proof -
  let ?P = "\<lambda>n. \<exists>C. run n (crew_start calls s) C"
  have "?P 0" by (rule exI) (rule crew_run.Rest)
  moreover have "\<forall>n. ?P n \<longrightarrow> n < work T (crew_start calls s) + 1"
    using run_bounded [OF assms] by (metis add_leD1 less_add_one order_le_less_trans)
  ultimately obtain n where n: "?P n" "\<forall>m. ?P m \<longrightarrow> m \<le> n"
    using ex_has_greatest_nat [of ?P 0 "\<lambda>n. n" "work T (crew_start calls s) + 1"] by blast
  then obtain C where C: "run n (crew_start calls s) C" by blast
  have "\<nexists>D. step C D"
  proof
    assume "\<exists>D. step C D"
    then obtain D where "step C D" ..
    then have "?P (Suc n)" by (intro exI) (rule crew_run.More [OF C])
    with n(2) show False by (metis Suc_n_not_le_n)
  qed
  with stuck_done [OF assms(3) C] C show ?thesis by blast
qed

lemma entered_calls:
  assumes "ok s" and "run n (crew_start calls s) C" and "\<forall>t. list_all Q (calls t)"
  shows "list_all Q (map snd (entered C))"
proof -
  have "crew_invariant calls s C" by (rule invariant_run [OF assms(2) invariant_start [OF assms(1)]])
  then have eq: "entered_by t C @ waiting C t = calls t" for t by (simp add: crew_invariant_def)
  have "Q c" if "(t, c) \<in> set (entered C)" for t c
  proof -
    have "c \<in> set (entered_by t C)" using that by (force simp: entered_by_def)
    then have "c \<in> set (calls t)" using eq [of t] by (metis UnCI set_append)
    with assms(3) show ?thesis by (simp add: list_all_iff)
  qed
  then show ?thesis by (auto simp: list_all_iff)
qed

end

end
