(* ===== verification/Shared_Loggers.thy ===== *)
theory Shared_Loggers
  imports Stdio_Logger Spdlog_Logger Locked_Section
begin

text \<open>
  The loggers that several threads may share (\<^verbatim>\<open>stdio_logger.h\<close> and \<^verbatim>\<open>recording_logger.h\<close> promise
  thread-safe calls), in the small steps of their bodies. The line of the stdio logger is built piece
  by piece in the member \<^verbatim>\<open>record_\<close>, which all threads share; the mutex alone keeps the pieces of two
  calls apart. Moves are documented as single-threaded and have no place here.
\<close>

section \<open>The body of stdio_logger::log\<close>

text \<open>The points between two accesses to the shared logger, its host or its stream.\<close>

datatype log_point =
    Log_begin
  | Log_clear stream
  | Log_stamp stream
  | Log_color stream
  | Log_append stream "string list"
  | Log_write stream
  | Log_end

text \<open>What is appended to \<^verbatim>\<open>record_\<close> after the timestamp, one \<^verbatim>\<open>+=\<close> after the other.\<close>

definition field_pieces :: "log_field \<Rightarrow> string list" where
  "field_pieces f = [[space_char], field_key f, [equals_char], escape_value (field_value f)]"

definition line_pieces :: "bool \<Rightarrow> log_call \<Rightarrow> string list" where
  "line_pieces color c =
     (if color then [ansi_sequence (call_level c)] else []) @
     [''['', level_label (call_level c), '']''] @
     (if color then [reset_sequence] else []) @
     [[space_char], call_message c] @ concat (map field_pieces (call_fields c))"

text \<open>\<^verbatim>\<open>record_ += s\<close>\<close>

definition append_record :: "string \<Rightarrow> 'o stdio_system \<Rightarrow> 'o stdio_system" where
  "append_record x s =
     s\<lparr>sys_logger := (sys_logger s)\<lparr>sl_record := sl_record (sys_logger s) @ x\<rparr>\<rparr>"

fun stdio_micro :: "log_call \<Rightarrow> log_point \<Rightarrow> 'o stdio_system \<Rightarrow> log_point \<times> 'o stdio_system" where
  "stdio_micro c Log_begin s =
     (let l = sys_logger s in
      if is_below_min_level (call_level c) (sl_min_level l) then (Log_end, s)
      else case stream_for_level (call_level c) (sl_out l) (sl_err l) of
        None \<Rightarrow> (Log_end, s)
      | Some st \<Rightarrow> (Log_clear st, s))"
| "stdio_micro c (Log_clear st) s =
     (Log_stamp st, s\<lparr>sys_logger := (sys_logger s)\<lparr>sl_record := []\<rparr>\<rparr>)"
| "stdio_micro c (Log_stamp st) s =
     (let (stamped, h) = append_timestamp (sys_host s) (sl_record (sys_logger s)) (host_state (sys_world s));
          s = s\<lparr>sys_world := (sys_world s)\<lparr>host_state := h\<rparr>\<rparr>
      in case stamped of
           Inl f \<Rightarrow> (Log_end, s)
         | Inr rec \<Rightarrow> (Log_color st,
             append_record [space_char] (s\<lparr>sys_logger := (sys_logger s)\<lparr>sl_record := rec\<rparr>\<rparr>)))"
| "stdio_micro c (Log_color st) s =
     (Log_append st
        (line_pieces (should_colorize (sys_host s) (sl_color (sys_logger s)) st (host_state (sys_world s))) c), s)"
| "stdio_micro c (Log_append st []) s = (Log_write st, s)"
| "stdio_micro c (Log_append st (x # xs)) s = (Log_append st xs, append_record x s)"
| "stdio_micro c (Log_write st) s =
     (Log_end,
      if stream_takes (sys_host s) st (host_state (sys_world s))
      then s\<lparr>sys_world := (sys_world s)\<lparr>written :=
             written (sys_world s) @ [(st, sl_record (sys_logger s) @ [CHR 0x0A])]\<rparr>\<rparr>
      else s)"
| "stdio_micro c Log_end s = (Log_end, s)"

text \<open>The rest of the body from each point, run alone.\<close>

definition write_rest :: "stream \<Rightarrow> 'o stdio_system \<Rightarrow> 'o stdio_system" where
  "write_rest st s =
     (if stream_takes (sys_host s) st (host_state (sys_world s))
      then s\<lparr>sys_world := (sys_world s)\<lparr>written :=
             written (sys_world s) @ [(st, sl_record (sys_logger s) @ [CHR 0x0A])]\<rparr>\<rparr>
      else s)"

definition color_rest :: "log_call \<Rightarrow> stream \<Rightarrow> 'o stdio_system \<Rightarrow> 'o stdio_system" where
  "color_rest c st s = write_rest st (append_record
     (concat (line_pieces (should_colorize (sys_host s) (sl_color (sys_logger s)) st (host_state (sys_world s))) c)) s)"

definition stamp_rest :: "log_call \<Rightarrow> stream \<Rightarrow> 'o stdio_system \<Rightarrow> 'o stdio_system" where
  "stamp_rest c st s =
     (case append_timestamp (sys_host s) (sl_record (sys_logger s)) (host_state (sys_world s)) of
        (Inl f, h) \<Rightarrow> s\<lparr>sys_world := (sys_world s)\<lparr>host_state := h\<rparr>\<rparr>
      | (Inr rec, h) \<Rightarrow> color_rest c st (s\<lparr>sys_world := (sys_world s)\<lparr>host_state := h\<rparr>,
          sys_logger := (sys_logger s)\<lparr>sl_record := rec @ [space_char]\<rparr>\<rparr>))"

definition clear_rest :: "log_call \<Rightarrow> stream \<Rightarrow> 'o stdio_system \<Rightarrow> 'o stdio_system" where
  "clear_rest c st s = stamp_rest c st (s\<lparr>sys_logger := (sys_logger s)\<lparr>sl_record := []\<rparr>\<rparr>)"

fun stdio_rest :: "log_call \<Rightarrow> log_point \<Rightarrow> 'o stdio_system \<Rightarrow> 'o stdio_system" where
  "stdio_rest c Log_end s = s"
| "stdio_rest c (Log_write st) s = write_rest st s"
| "stdio_rest c (Log_append st xs) s = write_rest st (append_record (concat xs) s)"
| "stdio_rest c (Log_color st) s = color_rest c st s"
| "stdio_rest c (Log_stamp st) s = stamp_rest c st s"
| "stdio_rest c (Log_clear st) s = clear_rest c st s"
| "stdio_rest c Log_begin s =
     (if is_below_min_level (call_level c) (sl_min_level (sys_logger s)) then s
      else case stream_for_level (call_level c) (sl_out (sys_logger s)) (sl_err (sys_logger s)) of
        None \<Rightarrow> s
      | Some st \<Rightarrow> clear_rest c st s)"

fun stdio_left :: "log_call \<Rightarrow> log_point \<Rightarrow> nat" where
  "stdio_left c Log_end = 0"
| "stdio_left c (Log_write st) = 1"
| "stdio_left c (Log_append st xs) = length xs + 2"
| "stdio_left c (Log_color st) = length (line_pieces True c) + 3"
| "stdio_left c (Log_stamp st) = length (line_pieces True c) + 4"
| "stdio_left c (Log_clear st) = length (line_pieces True c) + 5"
| "stdio_left c Log_begin = length (line_pieces True c) + 6"

lemma append_record_append: "append_record y (append_record x s) = append_record (x @ y) s"
  by (simp add: append_record_def)

lemma append_nothing: "append_record [] s = s"
  by (simp add: append_record_def)

lemma pieces_length: "length (line_pieces color c) \<le> length (line_pieces True c)"
  by (cases color) (simp_all add: line_pieces_def)

lemma pieces_text:
  "concat (line_pieces color c) = level_token color (call_level c) @ [space_char] @ call_message c @
     concat (map field_text (call_fields c))"
proof -
  have "concat (concat (map field_pieces fs)) = concat (map field_text fs)" for fs
    by (induction fs) (simp_all add: field_pieces_def field_text_def)
  then show ?thesis by (simp add: line_pieces_def level_token_def)
qed

lemma micro_rest:
  "p \<noteq> Log_end \<Longrightarrow> stdio_rest c (fst (stdio_micro c p s)) (snd (stdio_micro c p s)) = stdio_rest c p s"
proof (cases p)
  case (Log_append st xs)
  then show ?thesis by (cases xs) (simp_all add: append_record_append append_nothing)
next
  case (Log_stamp st)
  then show ?thesis
    by (cases "append_timestamp (sys_host s) (sl_record (sys_logger s)) (host_state (sys_world s))";
        cases "fst (append_timestamp (sys_host s) (sl_record (sys_logger s)) (host_state (sys_world s)))")
       (auto simp: stamp_rest_def append_record_def)
qed (auto simp: Let_def clear_rest_def color_rest_def write_rest_def split: option.split)

lemma micro_left: "p \<noteq> Log_end \<Longrightarrow> stdio_left c (fst (stdio_micro c p s)) < stdio_left c p"
proof (cases p)
  case (Log_append st xs)
  then show ?thesis by (cases xs) simp_all
next
  case (Log_color st)
  then show ?thesis using pieces_length by (simp add: le_imp_less_Suc)
qed (auto simp: Let_def split_beta split: option.split sum.split)

lemma micro_ok: "stdio_ok s \<Longrightarrow> stdio_ok (snd (stdio_micro c p s))"
proof (cases p)
  case (Log_append st xs)
  then show "stdio_ok s \<Longrightarrow> ?thesis" by (cases xs) (simp_all add: stdio_ok_def append_record_def)
qed (auto simp: stdio_ok_def append_record_def Let_def split_beta split: option.split sum.split)

text \<open>The whole body is the call of the theory Stdio_Logger.\<close>

lemma body_is_call:
  assumes "stdio_ok s"
  shows "stdio_rest c Log_begin s = stdio_step s c"
proof (cases "stdio_accepts s (call_level c)")
  case False
  then show ?thesis using stdio_step_dropped [OF False] by (auto simp: stdio_accepts_def)
next
  case True
  then obtain st where st: "stream_for_level (call_level c) (sl_out (sys_logger s)) (sl_err (sys_logger s)) = Some st"
    "\<not> is_below_min_level (call_level c) (sl_min_level (sys_logger s))"
    by (auto simp: stdio_accepts_def)
  obtain ts where ts: "append_timestamp (sys_host s) [] (host_state (sys_world s)) =
      (Inr ts, snd (read_clock (sys_host s) (host_state (sys_world s))))"
    using append_timestamp_exact [of "sys_host s" "[]" "host_state (sys_world s)"] assms by (auto simp: stdio_ok_def)
  with st show ?thesis
    by (simp add: stdio_step_def stdio_log_def clear_rest_def stamp_rest_def color_rest_def write_rest_def
        append_record_def pieces_text render_fields_eq Let_def)
qed

interpretation shared_stdio: locked_section
  Log_begin stdio_micro Log_end stdio_step stdio_ok stdio_rest stdio_left
  by unfold_locales (simp_all add: body_is_call micro_rest micro_ok micro_left del: stdio_rest.simps(7))

section \<open>The bodies of the recording logger\<close>

text \<open>
  \<^verbatim>\<open>log\<close> makes its record before it takes the mutex; \<^verbatim>\<open>clear\<close> and \<^verbatim>\<open>snapshot\<close> take it too.
\<close>

datatype recording_request = Rec_log log_record | Rec_clear | Rec_snapshot

datatype recording_point = Rec_begin | Rec_end

fun recording_effect :: "recording_logger \<Rightarrow> recording_request \<Rightarrow> recording_logger" where
  "recording_effect s (Rec_log r) = s\<lparr>captured := captured s @ [r]\<rparr>"
| "recording_effect s Rec_clear = recording_clear s"
| "recording_effect s Rec_snapshot = s"

fun recording_micro ::
  "recording_request \<Rightarrow> recording_point \<Rightarrow> recording_logger \<Rightarrow> recording_point \<times> recording_logger" where
  "recording_micro q Rec_begin s = (Rec_end, recording_effect s q)"
| "recording_micro q Rec_end s = (Rec_end, s)"

fun recording_rest :: "recording_request \<Rightarrow> recording_point \<Rightarrow> recording_logger \<Rightarrow> recording_logger" where
  "recording_rest q Rec_begin s = recording_effect s q"
| "recording_rest q Rec_end s = s"

fun recording_left :: "recording_request \<Rightarrow> recording_point \<Rightarrow> nat" where
  "recording_left q Rec_begin = 1"
| "recording_left q Rec_end = 0"

interpretation shared_recording: locked_section
  Rec_begin recording_micro Rec_end recording_effect "\<lambda>_. True" recording_rest recording_left
proof unfold_locales
  show "p \<noteq> Rec_end \<Longrightarrow> recording_rest q (fst (recording_micro q p s)) (snd (recording_micro q p s)) =
      recording_rest q p s" for p q s
    by (cases p) simp_all
  show "p \<noteq> Rec_end \<Longrightarrow> recording_left q (fst (recording_micro q p s)) < recording_left q p" for p q s
    by (cases p) simp_all
qed simp_all

lemma recording_log_effect:
  "recording_log s c = recording_effect s (Rec_log (make_record (call_level c) (call_message c) (call_fields c)))"
  by (simp add: recording_log_def)

section \<open>The bodies of the spdlog adapter\<close>

datatype spdlog_request = Spd_log log_call | Spd_flush

datatype spdlog_point = Spd_begin | Spd_ask | Spd_send | Spd_flushing | Spd_end

fun spdlog_micro :: "spdlog_request \<Rightarrow> spdlog_point \<Rightarrow> 'k spdlog_system \<Rightarrow> spdlog_point \<times> 'k spdlog_system" where
  "spdlog_micro q Spd_begin s =
     (if \<not> spd_sink (spd_logger s) then Spd_end else case q of Spd_log c \<Rightarrow> Spd_ask | Spd_flush \<Rightarrow> Spd_flushing, s)"
| "spdlog_micro (Spd_log c) Spd_ask s =
     (if should_log (spd_lib s) (sink_state (spd_world s)) (to_spdlog_level (call_level c)) then Spd_send else Spd_end, s)"
| "spdlog_micro (Spd_log c) Spd_send s =
     (let sl = to_spdlog_level (call_level c); rendered = render_fields (call_message c) (call_fields c); w = spd_world s
      in (Spd_end, s\<lparr>spd_world := w\<lparr>sink_state := sink_log (spd_lib s) sl rendered (sink_state w),
                                     sent := sent w @ [(sl, rendered)]\<rparr>\<rparr>))"
| "spdlog_micro Spd_flush Spd_flushing s =
     (let w = spd_world s
      in (Spd_end, s\<lparr>spd_world := w\<lparr>sink_state := sink_flush (spd_lib s) (sink_state w), flushes := flushes w + 1\<rparr>\<rparr>))"
| "spdlog_micro q p s = (Spd_end, s)"

fun spdlog_effect :: "'k spdlog_system \<Rightarrow> spdlog_request \<Rightarrow> 'k spdlog_system" where
  "spdlog_effect s (Spd_log c) = spdlog_step s c"
| "spdlog_effect s Spd_flush = s\<lparr>spd_world := spdlog_flush (spd_lib s) (spd_logger s) (spd_world s)\<rparr>"

fun spdlog_rest :: "spdlog_request \<Rightarrow> spdlog_point \<Rightarrow> 'k spdlog_system \<Rightarrow> 'k spdlog_system" where
  "spdlog_rest q Spd_begin s = spdlog_effect s q"
| "spdlog_rest q Spd_ask s =
     (case q of
        Spd_log c \<Rightarrow>
          if should_log (spd_lib s) (sink_state (spd_world s)) (to_spdlog_level (call_level c))
          then snd (spdlog_micro q Spd_send s) else s
      | Spd_flush \<Rightarrow> s)"
| "spdlog_rest q Spd_send s = snd (spdlog_micro q Spd_send s)"
| "spdlog_rest q Spd_flushing s = snd (spdlog_micro q Spd_flushing s)"
| "spdlog_rest q Spd_end s = s"

fun spdlog_left :: "spdlog_request \<Rightarrow> spdlog_point \<Rightarrow> nat" where
  "spdlog_left q Spd_begin = 3"
| "spdlog_left q Spd_ask = 2"
| "spdlog_left q Spd_send = 1"
| "spdlog_left q Spd_flushing = 1"
| "spdlog_left q Spd_end = 0"

interpretation shared_spdlog: locked_section
  Spd_begin spdlog_micro Spd_end spdlog_effect "\<lambda>_. True" spdlog_rest spdlog_left
proof unfold_locales
  show "p \<noteq> Spd_end \<Longrightarrow> spdlog_rest q (fst (spdlog_micro q p s)) (snd (spdlog_micro q p s)) = spdlog_rest q p s" for p q s
    by (cases p; cases q)
       (simp_all add: spdlog_step_def spdlog_log_def spdlog_flush_def Let_def)
  show "p \<noteq> Spd_end \<Longrightarrow> spdlog_left q (fst (spdlog_micro q p s)) < spdlog_left q p" for p q s
    by (cases p; cases q) (simp_all add: Let_def)
qed simp_all

section \<open>Properties\<close>

text \<open>
  C32: Several threads may log through one stdio logger at once. However the small steps of their calls
  interleave, whenever nobody holds the mutex the streams have received one whole line for each call
  that got in and was not filtered out, in the order the calls got in, each on one line that reads back
  to its message, keys and values; each thread's calls get in in the thread's order; some thread can go
  on until all calls are made; and the run is no longer than the work the threads brought. As for a
  single thread, this needs a clock between the epoch and the end of the year 9999 with its calendar,
  streams that work, messages without \<^verbatim>\<open>=\<close> or control characters, and keys without \<^verbatim>\<open>=\<close>, control
  characters or spaces; the threads are finitely many, each with finitely many calls.
\<close>
theorem shared_stdio_lines:
  assumes "stdio_ok s" and "\<forall>t. list_all plain_call (calls t)"
    and "finite T" and "\<forall>t. t \<notin> T \<longrightarrow> calls t = []"
    and "crew_run Log_begin stdio_micro Log_end n (crew_start calls s) C" and "mutex C = None"
  shows "(\<exists>rs. stdio_written (shared C) = stdio_written s @ rs \<and>
      list_all2 reads_back (map snd rs) (filter (\<lambda>c. stdio_accepts s (call_level c)) (map snd (entered C)))) \<and>
    (\<forall>t. entered_by t C @ waiting C t = calls t) \<and>
    (all_done C \<or> (\<exists>D. crew_step Log_begin stdio_micro Log_end C D)) \<and>
    n \<le> (\<Sum>t \<in> T. \<Sum>c \<leftarrow> calls t. stdio_left c Log_begin + 2)"
proof -
  let ?cs = "map snd (entered C)"
  note lin = shared_stdio.linear [OF assms(1,5,6)]
  obtain rs where rs: "stdio_written (foldl stdio_step s ?cs) = stdio_written s @ rs"
    and shown: "list_all2 stdio_represents rs (filter (\<lambda>c. stdio_accepts s (call_level c)) ?cs)"
    using stdio.replay [OF assms(1)] by blast
  have "list_all plain_call ?cs" by (rule shared_stdio.entered_calls [OF assms(1,5,2)])
  then have "list_all2 reads_back (map snd rs) (filter (\<lambda>c. stdio_accepts s (call_level c)) ?cs)"
    unfolding list_all2_map1 using stdio_represents_read
    by (intro list.rel_mono_strong [OF shown]) (auto simp: list_all_iff)
  moreover have "n \<le> (\<Sum>t \<in> T. \<Sum>c \<leftarrow> calls t. stdio_left c Log_begin + 2)"
    using shared_stdio.run_bounded [OF assms(3,4,1,5)]
    by (simp add: shared_stdio.work_def shared_stdio.work_of_def crew_start_def)
  ultimately show ?thesis
    using rs lin shared_stdio.no_deadlock [OF assms(1,5)] by auto
qed

definition lab_crew :: "nat \<Rightarrow> log_call list" where
  "lab_crew t = (if t < 2 then lab_calls else [])"

lemma shared_stdio_lines_witness:
  "\<exists>n C. crew_run Log_begin stdio_micro Log_end n (crew_start lab_crew lab_stdio) C \<and> all_done C \<and>
    (\<exists>rs. stdio_written (shared C) = stdio_written lab_stdio @ rs \<and>
      list_all2 reads_back (map snd rs) (filter (\<lambda>c. stdio_accepts lab_stdio (call_level c)) (map snd (entered C)))) \<and>
    (\<forall>t. entered_by t C @ waiting C t = lab_crew t) \<and>
    (all_done C \<or> (\<exists>D. crew_step Log_begin stdio_micro Log_end C D)) \<and>
    n \<le> (\<Sum>t \<in> {0, 1}. \<Sum>c \<leftarrow> lab_crew t. stdio_left c Log_begin + 2)"
proof -
  have ok: "stdio_ok lab_stdio"
    by (simp add: stdio_ok_def lab_stdio_def lab_stdio_host_documented default_stdio_logger_def new_stdio_logger_def)
  have plain: "\<forall>t. list_all plain_call (lab_crew t)"
    by (simp add: lab_crew_def lab_calls_def plain_call_def plain_key_def)
  have only: "\<forall>t. t \<notin> {0, 1} \<longrightarrow> lab_crew t = []" by (simp add: lab_crew_def)
  obtain n C where run: "crew_run Log_begin stdio_micro Log_end n (crew_start lab_crew lab_stdio) C"
    and idle: "mutex C = None" "all_done C"
    using shared_stdio.some_run_finishes [OF _ only ok] by auto
  from shared_stdio_lines [OF ok plain _ only run idle(1)] run idle(2) show ?thesis by blast
qed

end
