(* ===== verification/Pcr_Registers.thy ===== *)
theory Pcr_Registers
  imports Esys_Pcr_Provider
begin

text \<open>
  What the PCR provider does to the registers of the TPM. The TPM and the ESYS library are
  third-party code, a parameter of the model; this theory names what the TPM 2.0 specification
  (part 3, the PCR commands) documents of them at the level of the structures on the wire, gives
  an abstract machine of PCR banks in the terms of the library's own value types, and shows that
  the provider of \<^verbatim>\<open>esys_pcr_provider.cpp\<close> implements that machine: marshalling, validation and
  unmarshalling neither lose nor change a measurement.
\<close>

section \<open>The registers on the wire\<close>

text \<open>
  The content of the registers, by the hash identifier of the bank and the number of the register;
  \<open>None\<close> is a register the bank does not have.
\<close>

type_synonym wire_pcrs = "u16 \<Rightarrow> nat \<Rightarrow> byte list option"

text \<open>The hash functions of the TPM and their sizes, by identifier.\<close>

record hash_family =
  fam_hash :: "u16 \<Rightarrow> byte list \<Rightarrow> byte list"
  fam_size :: "u16 \<Rightarrow> nat"

definition family_documented :: "tss \<Rightarrow> hash_family \<Rightarrow> bool" where
  "family_documented T F \<longleftrightarrow>
     fam_size F (alg_id T ALG_SHA1) = sha1_digest_size T \<and>
     fam_size F (alg_id T ALG_SHA256) = sha256_digest_size T \<and>
     fam_size F (alg_id T ALG_SHA384) = sha384_digest_size T \<and>
     fam_size F (alg_id T ALG_SHA512) = sha512_digest_size T \<and>
     (\<forall>alg bs. length (fam_hash F alg bs) = fam_size F alg)"

definition register_of :: "tss \<Rightarrow> u32 \<Rightarrow> nat" where
  "register_of T h = unat (h - tr_pcr0 T)"

text \<open>The digests of a \<^verbatim>\<open>TPML_DIGEST_VALUES\<close>, each as long as its algorithm says.\<close>

definition wire_digests :: "hash_family \<Rightarrow> tpml_digest_values \<Rightarrow> (u16 \<times> byte list) list" where
  "wire_digests F d =
     map (\<lambda>x. (hash_alg x, take (fam_size F (hash_alg x)) (ha_bytes x)))
       (take (unat (dvs_count d)) (dvs_digests d))"

definition wire_extend :: "hash_family \<Rightarrow> nat \<Rightarrow> u16 \<times> byte list \<Rightarrow> wire_pcrs \<Rightarrow> wire_pcrs" where
  "wire_extend F n x R = (case x of (alg, bs) \<Rightarrow>
     R(alg := (R alg)(n := map_option (\<lambda>old. fam_hash F alg (old @ bs)) (R alg n))))"

definition wire_extend_all :: "hash_family \<Rightarrow> nat \<Rightarrow> (u16 \<times> byte list) list \<Rightarrow> wire_pcrs \<Rightarrow> wire_pcrs" where
  "wire_extend_all F n xs R = fold (wire_extend F n) xs R"

definition wire_reset :: "hash_family \<Rightarrow> nat \<Rightarrow> wire_pcrs \<Rightarrow> wire_pcrs" where
  "wire_reset F n R = (\<lambda>alg. (R alg)(n := map_option (\<lambda>old. replicate (fam_size F alg) 0) (R alg n)))"

definition wire_selected :: "tpms_pcr_selection \<Rightarrow> nat set" where
  "wire_selected s =
     {m. m < unat (sizeof_select s) * 8 \<and> bit (pcr_select s ! (m div 8)) (m mod 8)}"

text \<open>The digests a \<^verbatim>\<open>TPM2_PCR_Event\<close> computes, and on which algorithms: each bank with the register.\<close>

definition event_digests :: "hash_family \<Rightarrow> byte list \<Rightarrow> u16 list \<Rightarrow> (u16 \<times> byte list) list" where
  "event_digests F bs algs = map (\<lambda>alg. (alg, fam_hash F alg bs)) algs"

definition event_banks :: "wire_pcrs \<Rightarrow> nat \<Rightarrow> u16 list \<Rightarrow> bool" where
  "event_banks R n algs \<longleftrightarrow> distinct algs \<and> {alg. R alg n \<noteq> None} \<subseteq> set algs"

section \<open>What is documented of the TPM\<close>

text \<open>
  \<open>regs\<close> reads the registers out of the state behind the library. A successful extend replaces the
  named register of each bank in the list by the hash of its old content and the digest; a reset
  zeroes the register in every bank; an event extends the register of every bank by the hash of the
  event and returns those digests; a read returns, in increasing order, registers of the selection
  that exist, and says which. A call that fails may have taken effect, when the answer was lost.
\<close>

definition extend_documented where
  "extend_documented T F regs api \<longleftrightarrow>
     (\<forall>e h s1 s2 s3 ds b rc b'. register_of T h < 32 \<longrightarrow>
        api_pcr_extend api e h s1 s2 s3 ds b = (rc, b') \<longrightarrow>
        regs b' = wire_extend_all F (register_of T h) (wire_digests F ds) (regs b) \<or>
        rc \<noteq> rc_success T \<and> regs b' = regs b)"

definition reset_documented where
  "reset_documented T F regs api \<longleftrightarrow>
     (\<forall>e h s1 s2 s3 b rc b'. register_of T h < 32 \<longrightarrow>
        api_pcr_reset api e h s1 s2 s3 b = (rc, b') \<longrightarrow>
        regs b' = wire_reset F (register_of T h) (regs b) \<or> rc \<noteq> rc_success T \<and> regs b' = regs b)"

definition event_documented where
  "event_documented T F regs api \<longleftrightarrow>
     (\<forall>e h s1 s2 s3 evt b rc out b'. register_of T h < 32 \<longrightarrow>
        api_pcr_event api e h s1 s2 s3 evt b = ((rc, out), b') \<longrightarrow>
        (\<exists>algs. event_banks (regs b) (register_of T h) algs \<and>
           regs b' = wire_extend_all F (register_of T h) (event_digests F (tpm2b_bytes evt) algs) (regs b) \<and>
           (rc = rc_success T \<longrightarrow>
              (\<exists>a d. out = Some (a, d) \<and> unat (dvs_count d) \<le> length (dvs_digests d) \<and>
                 wire_digests F d = event_digests F (tpm2b_bytes evt) algs))) \<or>
        rc \<noteq> rc_success T \<and> regs b' = regs b)"

definition read_answer :: "tss \<Rightarrow> wire_pcrs \<Rightarrow> tpms_pcr_selection \<Rightarrow> tpml_pcr_selection \<Rightarrow> tpml_digest \<Rightarrow> bool" where
  "read_answer T R q s v \<longleftrightarrow>
     unat (digs_count v) \<le> length (digs_digests v) \<and>
     (psel_count s = 0 \<and> digs_count v = 0 \<or>
      psel_count s = 1 \<and>
        (let r = pcr_selections s ! 0 in
         sel_hash r = sel_hash q \<and> unat (sizeof_select r) \<le> pcr_select_max T \<and>
         wire_selected r \<subseteq> wire_selected q \<and>
         map (R (sel_hash q)) (sorted_list_of_set (wire_selected r)) =
           map (Some \<circ> tpm2b_bytes) (take (unat (digs_count v)) (digs_digests v))))"

definition read_documented where
  "read_documented T regs api \<longleftrightarrow>
     (\<forall>e s1 s2 s3 sel out b rc ro b'. psel_count sel = 1 \<longrightarrow>
        api_pcr_read api e s1 s2 s3 sel out b = ((rc, ro), b') \<longrightarrow>
        regs b' = regs b \<and>
        (rc = rc_success T \<longrightarrow>
           (\<exists>a s a' v. out_selection ro = Some (a, s) \<and> out_values ro = Some (a', v) \<and>
              read_answer T (regs b) (pcr_selections sel ! 0) s v)))"

text \<open>The other calls the provider makes leave the registers alone.\<close>

definition others_documented where
  "others_documented regs api \<longleftrightarrow>
     (\<forall>e h s1 s2 s3 a out b r b'. api_pcr_allocate api e h s1 s2 s3 a out b = (r, b') \<longrightarrow> regs b' = regs b) \<and>
     (\<forall>e h s1 s2 s3 a alg n b rc b'.
        api_pcr_set_auth_policy api e h s1 s2 s3 a alg n b = (rc, b') \<longrightarrow> regs b' = regs b) \<and>
     (\<forall>e h s1 s2 s3 a b rc b'. api_pcr_set_auth_value api e h s1 s2 s3 a b = (rc, b') \<longrightarrow> regs b' = regs b) \<and>
     (\<forall>e h a b rc b'. api_tr_set_auth api e h a b = (rc, b') \<longrightarrow> regs b' = regs b) \<and>
     (\<forall>p b. regs (api_free api p b) = regs b)"

definition tpm_documented where
  "tpm_documented T F regs api \<longleftrightarrow>
     family_documented T F \<and> extend_documented T F regs api \<and> reset_documented T F regs api \<and>
     event_documented T F regs api \<and> read_documented T regs api \<and> others_documented regs api"

text \<open>
  A reliable TPM: a call that fails has had no effect, and an event is answered in the algorithms
  the library knows.
\<close>

definition listed_ids :: "tss \<Rightarrow> u16 set" where
  "listed_ids T = {alg_id T ALG_SHA1, alg_id T ALG_SHA256, alg_id T ALG_SHA384, alg_id T ALG_SHA512}"

definition tpm_reliable where
  "tpm_reliable T regs api \<longleftrightarrow>
     (\<forall>e h s1 s2 s3 ds b rc b'.
        api_pcr_extend api e h s1 s2 s3 ds b = (rc, b') \<longrightarrow> rc \<noteq> rc_success T \<longrightarrow> regs b' = regs b) \<and>
     (\<forall>e h s1 s2 s3 b rc b'.
        api_pcr_reset api e h s1 s2 s3 b = (rc, b') \<longrightarrow> rc \<noteq> rc_success T \<longrightarrow> regs b' = regs b) \<and>
     (\<forall>e h s1 s2 s3 evt b rc out b'. api_pcr_event api e h s1 s2 s3 evt b = ((rc, out), b') \<longrightarrow>
        (rc \<noteq> rc_success T \<longrightarrow> regs b' = regs b) \<and>
        (\<forall>a d. out = Some (a, d) \<longrightarrow>
           list_all (\<lambda>x. hash_alg x \<in> listed_ids T) (take (unat (dvs_count d)) (dvs_digests d))))"

lemma reliable_answers:
  assumes "tpm_reliable T regs api"
  shows "api_pcr_extend api e h s1 s2 s3 ds b = (rc, b') \<Longrightarrow> rc \<noteq> rc_success T \<Longrightarrow> regs b' = regs b"
    and "api_pcr_reset api e h s1 s2 s3 b = (rc, b') \<Longrightarrow> rc \<noteq> rc_success T \<Longrightarrow> regs b' = regs b"
    and "api_pcr_event api e h s1 s2 s3 evt b = ((rc, out), b') \<Longrightarrow> rc \<noteq> rc_success T \<Longrightarrow> regs b' = regs b"
    and "api_pcr_event api e h s1 s2 s3 evt b = ((rc, Some (a, d)), b') \<Longrightarrow>
      list_all (\<lambda>x. hash_alg x \<in> listed_ids T) (take (unat (dvs_count d)) (dvs_digests d))"
proof -
  note parts = assms [unfolded tpm_reliable_def]
  show "api_pcr_extend api e h s1 s2 s3 ds b = (rc, b') \<Longrightarrow> rc \<noteq> rc_success T \<Longrightarrow> regs b' = regs b"
    by (rule parts [THEN conjunct1, rule_format])
  show "api_pcr_reset api e h s1 s2 s3 b = (rc, b') \<Longrightarrow> rc \<noteq> rc_success T \<Longrightarrow> regs b' = regs b"
    by (rule parts [THEN conjunct2, THEN conjunct1, rule_format])
  note event = parts [THEN conjunct2, THEN conjunct2, rule_format]
  show "api_pcr_event api e h s1 s2 s3 evt b = ((rc, out), b') \<Longrightarrow> rc \<noteq> rc_success T \<Longrightarrow> regs b' = regs b"
    by (drule event) simp
  show "api_pcr_event api e h s1 s2 s3 evt b = ((rc, Some (a, d)), b') \<Longrightarrow>
      list_all (\<lambda>x. hash_alg x \<in> listed_ids T) (take (unat (dvs_count d)) (dvs_digests d))"
    by (drule event) simp
qed

section \<open>The abstract machine\<close>

text \<open>PCR banks in the terms of the library: by algorithm and index.\<close>

type_synonym pcr_view = "hash_algorithm \<Rightarrow> index \<Rightarrow> byte list option"

type_synonym hasher = "hash_algorithm \<Rightarrow> byte list \<Rightarrow> byte list"

definition extend_one :: "hasher \<Rightarrow> index \<Rightarrow> digest_value \<Rightarrow> pcr_view \<Rightarrow> pcr_view" where
  "extend_one h i d v =
     v(dv_algorithm d := (v (dv_algorithm d))
         (i := map_option (\<lambda>old. h (dv_algorithm d) (old @ dv_digest d)) (v (dv_algorithm d) i)))"

definition extend_register :: "hasher \<Rightarrow> index \<Rightarrow> digest_value list \<Rightarrow> pcr_view \<Rightarrow> pcr_view" where
  "extend_register h i ds v = fold (extend_one h i) ds v"

definition reset_register :: "bool \<Rightarrow> index \<Rightarrow> pcr_view \<Rightarrow> pcr_view" where
  "reset_register legacy i v =
     (\<lambda>a. (v a)(i := map_option (\<lambda>old. replicate (projr (digest_size legacy a)) 0) (v a i)))"

definition digests_of_event :: "hasher \<Rightarrow> byte list \<Rightarrow> digest_value list \<Rightarrow> bool" where
  "digests_of_event h event_data ds \<longleftrightarrow>
     list_all (\<lambda>d. dv_digest d = h (dv_algorithm d) event_data) ds \<and> distinct (map dv_algorithm ds)"

definition values_of :: "pcr_view \<Rightarrow> hash_algorithm \<Rightarrow> index set \<Rightarrow> pcr_value list" where
  "values_of v a is =
     map (\<lambda>i. \<lparr>pv_index = i, pv_digest = \<lparr>dv_algorithm = a, dv_digest = the (v a i)\<rparr>\<rparr>) (sorted_list_of_set is)"

fun leaves_registers :: "request \<Rightarrow> bool" where
  "leaves_registers (Allocate banks) = True"
| "leaves_registers (Set_auth_policy i a policy) = True"
| "leaves_registers (Set_auth_value i auth) = True"
| "leaves_registers q = False"

text \<open>
  One request. A failure leaves the registers as they were, except that on a \<open>lossy\<close> TPM the effect
  of a request may be there although its answer was a failure.
\<close>

inductive pcr_step :: "hasher \<Rightarrow> bool \<Rightarrow> bool \<Rightarrow> pcr_view \<Rightarrow> request \<Rightarrow> reply call \<Rightarrow> pcr_view \<Rightarrow> bool"
  for h legacy lossy where
  refused: "pcr_step h legacy lossy v q (fails e) v"
| extended: "pcr_step h legacy lossy v (Extend i ds) (returns Completed) (extend_register h i ds v)"
| measured: "digests_of_event h event_data ds \<Longrightarrow> {a. v a i \<noteq> None} \<subseteq> dv_algorithm ` set ds \<Longrightarrow>
    pcr_step h legacy lossy v (Event i event_data) (returns (Measured \<lparr>er_digests = ds\<rparr>)) (extend_register h i ds v)"
| was_reset: "pcr_step h legacy lossy v (Reset i) (returns Completed) (reset_register legacy i v)"
| was_read: "is \<subseteq> sel_indices sel \<Longrightarrow> \<forall>i \<in> is. v (sel_algorithm sel) i \<noteq> None \<Longrightarrow>
    pcr_step h legacy lossy v (Read sel)
      (returns (Was_read \<lparr>actual_selection = \<lparr>sel_algorithm = sel_algorithm sel, sel_indices = is\<rparr>,
         update_counter = n, read_values = values_of v (sel_algorithm sel) is\<rparr>)) v"
| untouched: "leaves_registers q \<Longrightarrow> pcr_step h legacy lossy v q (returns r) v"
| lost_extend: "lossy \<Longrightarrow> pcr_step h legacy lossy v (Extend i ds) (fails e) (extend_register h i ds v)"
| lost_event: "lossy \<Longrightarrow> digests_of_event h event_data ds \<Longrightarrow>
    pcr_step h legacy lossy v (Event i event_data) (fails e) (extend_register h i ds v)"
| lost_reset: "lossy \<Longrightarrow> pcr_step h legacy lossy v (Reset i) (fails e) (reset_register legacy i v)"

inductive pcr_run ::
  "hasher \<Rightarrow> bool \<Rightarrow> bool \<Rightarrow> pcr_view \<Rightarrow> request list \<Rightarrow> reply call list \<Rightarrow> pcr_view \<Rightarrow> bool"
  for h legacy lossy where
  run_nil: "pcr_run h legacy lossy v [] [] v"
| run_cons: "pcr_step h legacy lossy v q r v' \<Longrightarrow> pcr_run h legacy lossy v' qs rs v'' \<Longrightarrow>
    pcr_run h legacy lossy v (q # qs) (r # rs) v''"

inductive_cases run_nilE: "pcr_run h legacy lossy v [] rs v'"
inductive_cases run_consE: "pcr_run h legacy lossy v (q # qs) rs v'"

section \<open>The view of the wire\<close>

definition pcr_view :: "bool \<Rightarrow> tss \<Rightarrow> wire_pcrs \<Rightarrow> pcr_view" where
  "pcr_view legacy T R a i =
     (if supported_hash legacy a then R (algorithm_to_tpm legacy T a) (unat (index_value i)) else None)"

definition domain_hasher :: "bool \<Rightarrow> tss \<Rightarrow> hash_family \<Rightarrow> hasher" where
  "domain_hasher legacy T F a = fam_hash F (algorithm_to_tpm legacy T a)"

text \<open>The digests of a wire list whose algorithm the library supports.\<close>

definition domain_digests :: "bool \<Rightarrow> tss \<Rightarrow> (u16 \<times> byte list) list \<Rightarrow> digest_value list" where
  "domain_digests legacy T xs =
     concat (map (\<lambda>(alg, bs). case algorithm_from_tpm legacy T alg of
        Inl _ \<Rightarrow> [] | Inr a \<Rightarrow> [\<lparr>dv_algorithm = a, dv_digest = bs\<rparr>]) xs)"

lemma domain_digests_simps [simp]:
  "domain_digests legacy T [] = []"
  "domain_digests legacy T ((alg, bs) # xs) =
     (case algorithm_from_tpm legacy T alg of
        Inl _ \<Rightarrow> domain_digests legacy T xs
      | Inr a \<Rightarrow> \<lparr>dv_algorithm = a, dv_digest = bs\<rparr> # domain_digests legacy T xs)"
  by (auto simp: domain_digests_def split: sum.split)

lemma index_number_inject: "unat (index_value i) = unat (index_value j) \<longleftrightarrow> i = j"
  by (metis index.expand word_unat_eq_iff)

lemma supported_id:
  assumes "alg_ids_documented T" and "supported_hash legacy a"
  shows "algorithm_to_tpm legacy T a = alg \<longleftrightarrow> algorithm_from_tpm legacy T alg = Inr a"
  using assms algorithm_round [OF assms] algorithm_from_tpm_inv by metis

lemma view_extend:
  assumes T: "alg_ids_documented T"
  shows "pcr_view legacy T (wire_extend F (unat (index_value i)) (alg, bs) R) =
    (case algorithm_from_tpm legacy T alg of
       Inl _ \<Rightarrow> pcr_view legacy T R
     | Inr a \<Rightarrow> extend_one (domain_hasher legacy T F) i \<lparr>dv_algorithm = a, dv_digest = bs\<rparr> (pcr_view legacy T R))"
proof (cases "algorithm_from_tpm legacy T alg")
  case (Inl e)
  then have "supported_hash legacy a \<Longrightarrow> algorithm_to_tpm legacy T a \<noteq> alg" for a
    using supported_id [OF T, of legacy a alg] by simp
  with Inl show ?thesis by (auto simp: fun_eq_iff pcr_view_def wire_extend_def)
next
  case (Inr a)
  then have a: "supported_hash legacy a" "algorithm_to_tpm legacy T a = alg"
    using algorithm_from_tpm_inv by metis+
  then have "supported_hash legacy c \<Longrightarrow> algorithm_to_tpm legacy T c = alg \<longleftrightarrow> c = a" for c
    using supported_id [OF T, of legacy c alg] Inr by auto
  with a Inr show ?thesis
    by (auto simp: fun_eq_iff pcr_view_def wire_extend_def extend_one_def domain_hasher_def index_number_inject)
qed

lemma view_extend_all:
  assumes T: "alg_ids_documented T"
  shows "pcr_view legacy T (wire_extend_all F (unat (index_value i)) xs R) =
    extend_register (domain_hasher legacy T F) i (domain_digests legacy T xs) (pcr_view legacy T R)"
proof (induction xs arbitrary: R)
  case (Cons x xs)
  obtain alg bs where x: "x = (alg, bs)" by (cases x)
  from Cons [of "wire_extend F (unat (index_value i)) x R"] show ?case
    unfolding x by (cases "algorithm_from_tpm legacy T alg")
      (simp_all add: wire_extend_all_def extend_register_def view_extend [OF T])
qed (simp add: wire_extend_all_def extend_register_def)

lemma supported_size:
  assumes "sizes_documented T" and "family_documented T F" and "supported_hash legacy a"
  shows "digest_size legacy a = Inr (fam_size F (algorithm_to_tpm legacy T a))"
  using assms by (cases a) (simp_all add: sizes_documented_def family_documented_def)

lemma view_reset:
  assumes "sizes_documented T" and "family_documented T F"
  shows "pcr_view legacy T (wire_reset F (unat (index_value i)) R) = reset_register legacy i (pcr_view legacy T R)"
proof (intro ext)
  fix a j
  show "pcr_view legacy T (wire_reset F (unat (index_value i)) R) a j =
      reset_register legacy i (pcr_view legacy T R) a j"
    using supported_size [OF assms, of legacy a]
    by (cases "supported_hash legacy a")
       (simp_all add: pcr_view_def wire_reset_def reset_register_def index_number_inject)
qed

lemma register_of_handle [simp]: "register_of T (pcr_handle T i) = unat (index_value i)"
  by (simp add: register_of_def pcr_handle_def)

lemma index_number_small: "wf_index i \<Longrightarrow> unat (index_value i) < 32"
  by (simp add: wf_index_unat)

section \<open>Digests sent and received\<close>

lemma digests_sent:
  assumes T: "sizes_documented T" "alg_ids_documented T" and F: "family_documented T F"
    and ds: "list_all (wf_digest_value legacy) ds" "length ds \<le> num_pcr_banks T"
  shows "domain_digests legacy T (wire_digests F (digests_structure legacy T ds)) = ds"
proof -
  have "length ds < 2 ^ 32" using T(1) ds(2) by (simp add: sizes_documented_def)
  then have n: "unat (of_nat (length ds) :: u32) = length ds" by (simp add: unat_of_nat)
  have one: "domain_digests legacy T
      ((hash_alg (ha_of legacy T d), take (fam_size F (hash_alg (ha_of legacy T d))) (ha_bytes (ha_of legacy T d))) # xs) =
      d # domain_digests legacy T xs" if wf: "wf_digest_value legacy d" for d xs
  proof -
    have sup: "supported_hash legacy (dv_algorithm d)" by (rule wf_digest_value_supported [OF wf])
    with wf have "fam_size F (algorithm_to_tpm legacy T (dv_algorithm d)) = length (dv_digest d)"
      using supported_size [OF T(1) F sup] by (simp add: wf_digest_value_def)
    then show ?thesis by (simp add: ha_of_def algorithm_round [OF T(2) sup])
  qed
  have "domain_digests legacy T (map (\<lambda>x. (hash_alg x, take (fam_size F (hash_alg x)) (ha_bytes x)))
      (map (ha_of legacy T) ds)) = ds" if "list_all (wf_digest_value legacy) ds" for ds
    using that
  proof (induction ds)
    case (Cons d ds)
    then show ?case
      unfolding list.map by (subst one) simp_all
  qed simp
  with ds(1) show ?thesis by (simp add: wire_digests_def digests_structure_def n)
qed

lemma digests_loop_received:
  assumes T: "sizes_documented T" "alg_ids_documented T" and F: "family_documented T F"
  shows "list_all (wf_ha T) ds \<Longrightarrow> convert_digests legacy T ds acc = returns vs \<Longrightarrow>
    vs = acc @ domain_digests legacy T
      (map (\<lambda>x. (hash_alg x, take (fam_size F (hash_alg x)) (ha_bytes x))) ds)"
proof (induction ds arbitrary: acc)
  case (Cons d ds)
  then have wf: "wf_ha T d" by simp
  show ?case
  proof (cases "algorithm_from_tpm legacy T (hash_alg d)")
    case (Inl e)
    with Cons wf show ?thesis
      by (simp add: make_digest_value_ha_eq [OF T(1)] split: if_splits)
  next
    case (Inr a)
    then have a: "supported_hash legacy a" "algorithm_to_tpm legacy T a = hash_alg d"
      using algorithm_from_tpm_inv by metis+
    have "\<not> should_skip_disabled_pcr_algorithm legacy T (hash_alg d)"
      using Inr by (auto simp: should_skip_disabled_pcr_algorithm_def algorithm_from_tpm_def)
    moreover have "projr (digest_size legacy a) = fam_size F (hash_alg d)"
      using supported_size [OF T(1) F a(1)] a(2) by simp
    ultimately have "convert_digests legacy T ds (acc @
        [\<lparr>dv_algorithm = a, dv_digest = take (fam_size F (hash_alg d)) (ha_bytes d)\<rparr>]) = returns vs"
      using Cons.prems wf Inr by (simp add: make_digest_value_ha_eq [OF T(1)])
    from Cons.IH [OF _ this] Cons.prems(1) Inr show ?thesis by simp
  qed
qed simp

lemma digests_loop_listed:
  assumes T: "sizes_documented T" "alg_ids_documented T"
  shows "list_all (wf_ha T) ds \<Longrightarrow> list_all (\<lambda>x. hash_alg x \<in> listed_ids T) ds \<Longrightarrow>
    \<exists>vs. convert_digests legacy T ds acc = returns vs"
proof (induction ds arbitrary: acc)
  case (Cons d ds)
  then have "wf_ha T d" and id: "hash_alg d \<in> listed_ids T" by simp_all
  then have "should_skip_disabled_pcr_algorithm legacy T (hash_alg d) \<or>
      (\<exists>v. make_digest_value_ha legacy T d = returns v)"
    using T(2) by (auto simp: make_digest_value_ha_eq [OF T(1)] listed_ids_def algorithm_from_tpm_def
        should_skip_disabled_pcr_algorithm_def alg_ids_documented_def)
  with Cons show ?case by (auto simp del: split_paired_Ex)
qed simp

lemma digests_received:
  assumes "sizes_documented T" "alg_ids_documented T" and "family_documented T F"
    and "wf_tpml_digest_values T d" and "to_domain_digests legacy T d = returns vs"
  shows "vs = domain_digests legacy T (wire_digests F d)"
proof -
  have "list_all (wf_ha T) (take (unat (dvs_count d)) (dvs_digests d))"
    using assms(4) by (auto simp: wf_tpml_digest_values_def list_all_iff dest: in_set_takeD)
  from digests_loop_received [OF assms(1-3) this, of legacy "[]" vs] assms(5) show ?thesis
    by (simp add: to_domain_digests_eq wire_digests_def split: if_splits)
qed

text \<open>The digests of an event, as the library sees them.\<close>

lemma event_digests_domain:
  assumes "alg_ids_documented T" and "distinct algs"
  shows "digests_of_event (domain_hasher legacy T F) bs (domain_digests legacy T (event_digests F bs algs))"
proof -
  let ?ds = "\<lambda>algs. domain_digests legacy T (event_digests F bs algs)"
  have from_set: "d \<in> set (?ds algs) \<Longrightarrow>
      \<exists>alg \<in> set algs. algorithm_from_tpm legacy T alg = Inr (dv_algorithm d) \<and> dv_digest d = fam_hash F alg bs" for d algs
    by (induction algs) (auto simp: event_digests_def split: sum.splits)
  have "distinct (map dv_algorithm (?ds algs))"
    using assms(2)
  proof (induction algs)
    case (Cons alg algs)
    then show ?case
      using from_set [of _ algs] algorithm_from_tpm_inv [of legacy T]
      by (auto simp: event_digests_def split: sum.split) (metis (no_types, lifting))
  qed (simp add: event_digests_def)
  then show ?thesis
    using from_set [of _ algs] algorithm_from_tpm_inv [of legacy T]
    by (auto simp: digests_of_event_def list_all_iff domain_hasher_def)
qed

lemma event_digests_cover:
  assumes "alg_ids_documented T" and "event_banks R (unat (index_value i)) algs"
  shows "{a. pcr_view legacy T R a i \<noteq> None} \<subseteq>
    dv_algorithm ` set (domain_digests legacy T (event_digests F bs algs))"
proof -
  have "a \<in> dv_algorithm ` set (domain_digests legacy T (event_digests F bs algs))"
    if "alg \<in> set algs" and "algorithm_from_tpm legacy T alg = Inr a" for a alg algs
    using that by (induction algs) (auto simp: event_digests_def split: sum.split)
  with assms(2) show ?thesis
    using algorithm_round [OF assms(1)]
    by (fastforce simp: pcr_view_def event_banks_def split: if_splits)
qed

section \<open>Registers read\<close>

lemma selected_wire: "selected (pcr_select s) (unat (sizeof_select s)) = pcr_at ` wire_selected s"
  by (auto simp: selected_def wire_selected_def)

lemma wire_selected_less: "unat (sizeof_select s) \<le> 4 \<Longrightarrow> m \<in> wire_selected s \<Longrightarrow> m < 32"
  by (simp add: wire_selected_def)

lemma sorted_pcr_at:
  assumes "\<And>m. m \<in> M \<Longrightarrow> m < 32"
  shows "sorted_list_of_set (pcr_at ` M) = map pcr_at (sorted_list_of_set M)"
proof -
  have fin: "finite M" using assms by (intro finite_subset [of M "{..<32}"]) auto
  have less: "pcr_at m < pcr_at n" if "m < n" "m \<in> M" "n \<in> M" for m n
    using that assms by (simp add: less_index_def index_less_def word_less_nat_alt unat_pcr_at)
  have "sorted_wrt (\<lambda>m n. pcr_at m < pcr_at n) (sorted_list_of_set M)"
    by (rule sorted_wrt_mono_rel [OF _ strict_sorted_list_of_set]) (use fin less in simp)
  then have "sorted_wrt (<) (map pcr_at (sorted_list_of_set M))" by (simp add: sorted_wrt_map)
  then show ?thesis
    using fin by (intro sorted_distinct_set_unique) (auto simp: strict_sorted_iff)
qed

lemma read_values_received:
  assumes T: "supported_hash legacy a"
  shows "list_all (\<lambda>x. 64 \<le> length (tpm2b_buffer x)) ds \<Longrightarrow> length ds = length is \<Longrightarrow>
    convert_values legacy a ds is acc = returns vs \<Longrightarrow>
    vs = acc @ map2 (\<lambda>i d. \<lparr>pv_index = i, pv_digest = \<lparr>dv_algorithm = a, dv_digest = tpm2b_bytes d\<rparr>\<rparr>) is ds"
proof (induction ds arbitrary: "is" acc)
  case (Cons d ds)
  then obtain i rest where rest: "is = i # rest" by (cases "is") auto
  obtain n where n: "digest_size legacy a = Inr n" "n \<le> 64"
    using T digest_size_total_iff digest_size_bound by metis
  with Cons.prems have "make_digest_value legacy a (Some (tpm2b_buffer d)) (unat (tpm2b_size d)) =
      (if unat (tpm2b_size d) = n then returns \<lparr>dv_algorithm = a, dv_digest = take n (tpm2b_buffer d)\<rparr>
       else fails (err backend_error ''TPM returned PCR digest with unexpected size''))"
    by (intro make_digest_value_sized) auto
  with Cons.prems(3) rest have
    size: "unat (tpm2b_size d) = n" and
    loop: "convert_values legacy a ds rest
      (acc @ [\<lparr>pv_index = i, pv_digest = \<lparr>dv_algorithm = a, dv_digest = tpm2b_bytes d\<rparr>\<rparr>]) = returns vs"
    by (auto simp: tpm2b_bytes_def split: if_splits)
  from Cons.IH [OF _ _ loop] Cons.prems rest show ?case by simp
qed simp

lemma map_eq_map_nth: "map f xs = map g ys \<Longrightarrow> length xs = length ys \<and> (\<forall>k < length xs. f (xs ! k) = g (ys ! k))"
  by (metis length_map nth_map)

lemma values_of_wire:
  assumes less: "\<And>m. m \<in> M \<Longrightarrow> m < 32" and sup: "supported_hash legacy a"
    and vals: "map (R (algorithm_to_tpm legacy T a)) (sorted_list_of_set M) = map (Some \<circ> tpm2b_bytes) ds"
  shows "map2 (\<lambda>i d. \<lparr>pv_index = i, pv_digest = \<lparr>dv_algorithm = a, dv_digest = tpm2b_bytes d\<rparr>\<rparr>)
      (map pcr_at (sorted_list_of_set M)) ds = values_of (pcr_view legacy T R) a (pcr_at ` M)"
    and "i \<in> pcr_at ` M \<Longrightarrow> pcr_view legacy T R a i \<noteq> None"
proof -
  let ?ns = "sorted_list_of_set M"
  have fin: "finite M" using less by (intro finite_subset [OF _ finite_lessThan [of "32 :: nat"]]) auto
  have len: "length ds = length ?ns" using map_eq_map_nth [OF vals] by simp
  have content: "pcr_view legacy T R a (pcr_at (?ns ! k)) = Some (tpm2b_bytes (ds ! k))" if k: "k < length ?ns" for k
  proof -
    have "?ns ! k \<in> M" using k fin by (metis nth_mem set_sorted_list_of_set)
    with less sup have "pcr_view legacy T R a (pcr_at (?ns ! k)) = R (algorithm_to_tpm legacy T a) (?ns ! k)"
      by (simp add: pcr_view_def unat_pcr_at)
    with map_eq_map_nth [OF vals] k show ?thesis by simp
  qed
  have nth: "map2 (\<lambda>i d. \<lparr>pv_index = i, pv_digest = \<lparr>dv_algorithm = a, dv_digest = tpm2b_bytes d\<rparr>\<rparr>)
      (map pcr_at ?ns) ds ! k = values_of (pcr_view legacy T R) a (pcr_at ` M) ! k" if "k < length ?ns" for k
    using that content [OF that] len by (simp add: values_of_def sorted_pcr_at [OF less])
  show "map2 (\<lambda>i d. \<lparr>pv_index = i, pv_digest = \<lparr>dv_algorithm = a, dv_digest = tpm2b_bytes d\<rparr>\<rparr>)
      (map pcr_at ?ns) ds = values_of (pcr_view legacy T R) a (pcr_at ` M)"
    by (rule nth_equalityI) (use len nth in \<open>simp_all add: values_of_def sorted_pcr_at [OF less]\<close>)
  show "pcr_view legacy T R a i \<noteq> None" if "i \<in> pcr_at ` M"
  proof -
    from that obtain m where m: "m \<in> M" "i = pcr_at m" by blast
    then have "m \<in> set ?ns" using fin by simp
    then obtain k where "k < length ?ns" "?ns ! k = m" by (metis in_set_conv_nth)
    with content [of k] m show ?thesis by simp
  qed
qed

lemma read_received:
  assumes T: "sizes_documented T" "alg_ids_documented T" and wf: "wf_selection legacy sel"
    and q: "to_tpm_selection legacy T sel = Inr q"
    and s: "wf_tpml_pcr_selection T s" and v: "wf_tpml_digest T v"
    and answer: "read_answer T R (pcr_selections q ! 0) s v"
    and ok: "to_domain_selection legacy T s (sel_algorithm sel) = returns ds" "to_domain_read_values legacy v ds = returns vs"
  shows "sel_algorithm ds = sel_algorithm sel \<and> sel_indices ds \<subseteq> sel_indices sel \<and>
    (\<forall>i \<in> sel_indices ds. pcr_view legacy T R (sel_algorithm sel) i \<noteq> None) \<and>
    vs = values_of (pcr_view legacy T R) (sel_algorithm sel) (sel_indices ds)"
proof -
  let ?a = "sel_algorithm sel"
  have sup: "supported_hash legacy ?a" using wf by (simp add: wf_selection_def)
  obtain w where w: "q = \<lparr>psel_count = 1, pcr_selections = w # replicate (num_pcr_banks T - 1) (zero_pcr_selection T)\<rparr>"
    "sel_hash w = algorithm_to_tpm legacy T ?a" "unat (sizeof_select w) \<le> 4"
    "pcr_at ` wire_selected w = sel_indices sel"
    using to_tpm_selection_spec [OF T(1) wf] q by (auto simp: selected_wire)
  show ?thesis
  proof (cases "psel_count s = 0")
    case True
    then have "ds = \<lparr>sel_algorithm = ?a, sel_indices = {}\<rparr>"
      using ok(1) sup by (simp add: to_domain_selection_def new_empty_selection_def new_selection_cases)
    moreover from this have "vs = []"
      using ok(2) by (auto simp: to_domain_read_values_eq split: if_splits)
    ultimately show ?thesis by (simp add: values_of_def)
  next
    case False
    let ?r = "pcr_selections s ! 0"
    let ?ns = "sorted_list_of_set (wire_selected ?r)"
    let ?ds = "take (unat (digs_count v)) (digs_digests v)"
    from False answer w(1,2) have one: "psel_count s = 1" and hash: "sel_hash ?r = algorithm_to_tpm legacy T ?a"
      and size: "unat (sizeof_select ?r) \<le> 4" and sub: "wire_selected ?r \<subseteq> wire_selected w"
      and vals: "map (R (algorithm_to_tpm legacy T ?a)) ?ns = map (Some \<circ> tpm2b_bytes) ?ds"
      using T(1) by (auto simp: read_answer_def Let_def sizes_documented_def)
    have ds: "ds = \<lparr>sel_algorithm = ?a, sel_indices = pcr_at ` wire_selected ?r\<rparr>"
      using to_domain_selection_eq [OF T(1) s one hash sup T(2) size] ok(1) by (simp add: selected_wire)
    have less: "m \<in> wire_selected ?r \<Longrightarrow> m < 32" for m using size wire_selected_less by blast
    have order: "sorted_list_of_set (sel_indices ds) = map pcr_at ?ns"
      using sorted_pcr_at [of "wire_selected ?r"] less ds by simp
    have len: "length ?ds = length (map pcr_at ?ns)" using map_eq_map_nth [OF vals] by simp
    have full: "list_all (\<lambda>x. 64 \<le> length (tpm2b_buffer x)) ?ds"
      using v T(1) by (auto simp: wf_tpml_digest_def sizes_documented_def list_all_iff dest: in_set_takeD)
    have "convert_values legacy ?a ?ds (map pcr_at ?ns) [] = returns vs"
      using ok(2) order ds by (simp add: to_domain_read_values_eq split: if_splits)
    from read_values_received [OF sup full len this]
    have vs: "vs = map2 (\<lambda>i d. \<lparr>pv_index = i, pv_digest = \<lparr>dv_algorithm = ?a, dv_digest = tpm2b_bytes d\<rparr>\<rparr>)
        (map pcr_at ?ns) ?ds" by (simp only: append_Nil)
    from vs values_of_wire [where R = R and T = T and legacy = legacy and a = ?a, OF less sup vals] ds sub w(4) show ?thesis by auto
  qed
qed

section \<open>The provider implements the machine\<close>

definition refines where
  "refines legacy T F regs lossy w q x \<longleftrightarrow>
     pcr_step (domain_hasher legacy T F) legacy lossy (pcr_view legacy T (regs (backend w))) q (fst x)
       (pcr_view legacy T (regs (backend (snd x))))"

lemma refines_refused: "regs (backend w') = regs (backend w) \<Longrightarrow> refines legacy T F regs lossy w q (fails e, w')"
  unfolding refines_def by (simp add: refused)

lemma refines_untouched:
  "leaves_registers q \<Longrightarrow> regs (backend w') = regs (backend w) \<Longrightarrow>
   refines legacy T F regs lossy w q (returns r, w')"
  unfolding refines_def by (simp add: untouched)

lemma extend_refines:
  assumes T: "sizes_documented T" "alg_ids_documented T" and tpm: "tpm_documented T F regs api"
    and wf: "wf_request legacy (Extend i ds)" and lossy: "lossy \<or> tpm_reliable T regs api"
  shows "refines legacy T F regs lossy w (Extend i ds) (provider_step legacy T api p w (Extend i ds))"
proof (cases "provider_esys p")
  case None
  then show ?thesis by (simp add: no_context refines_refused)
next
  case (Some e)
  show ?thesis
  proof (cases "accepts_digests T ds")
    case False
    with provider_extend_rejected [OF Some False] show ?thesis
      by (metis provider_step.simps(3) refines_refused reply_with_simps(2))
  next
    case True
    let ?n = "unat (index_value i)"
    have i: "?n < 32" and ds: "list_all (wf_digest_value legacy) ds"
      using wf by (simp_all add: index_number_small)
    obtain rc b where reply: "api_pcr_extend api (provider_esys p) (pcr_handle T i) (tr_password T) (tr_none T)
        (tr_none T) (digests_structure legacy T ds) (backend w) = (rc, b)" by (metis prod.exhaust)
    note eq = provider_extend_accepted [OF T(1) Some True ds reply]
    have F: "family_documented T F" and ext: "extend_documented T F regs api"
      using tpm by (simp_all add: tpm_documented_def)
    have "regs b = wire_extend_all F ?n (wire_digests F (digests_structure legacy T ds)) (regs (backend w)) \<or>
        rc \<noteq> rc_success T \<and> regs b = regs (backend w)"
      using ext [unfolded extend_documented_def, rule_format, OF _ reply] i by simp
    moreover have "pcr_view legacy T (wire_extend_all F ?n (wire_digests F (digests_structure legacy T ds)) (regs (backend w))) =
        extend_register (domain_hasher legacy T F) i ds (pcr_view legacy T (regs (backend w)))"
      using digests_sent [OF T F ds] True by (simp add: view_extend_all [OF T(2)] accepts_digests_def)
    moreover have "rc \<noteq> rc_success T \<Longrightarrow> lossy \<or> regs b = regs (backend w)"
      using lossy reliable_answers(1) [OF _ reply] by blast
    ultimately show ?thesis
      by (auto simp: refines_def eq refused extended intro: lost_extend)
  qed
qed

lemma reset_refines:
  assumes T: "sizes_documented T" and tpm: "tpm_documented T F regs api"
    and wf: "wf_request legacy (Reset i)" and lossy: "lossy \<or> tpm_reliable T regs api"
  shows "refines legacy T F regs lossy w (Reset i) (provider_step legacy T api p w (Reset i))"
proof (cases "provider_esys p")
  case None
  then show ?thesis by (simp add: no_context refines_refused)
next
  case (Some e)
  let ?n = "unat (index_value i)"
  have i: "?n < 32" using wf by (simp add: index_number_small)
  obtain rc b where reply: "api_pcr_reset api (provider_esys p) (pcr_handle T i) (tr_password T) (tr_none T)
      (tr_none T) (backend w) = (rc, b)" by (metis prod.exhaust)
  note eq = provider_reset_accepted [OF Some reply]
  have F: "family_documented T F" and res: "reset_documented T F regs api"
    using tpm by (simp_all add: tpm_documented_def)
  have "regs b = wire_reset F ?n (regs (backend w)) \<or> rc \<noteq> rc_success T \<and> regs b = regs (backend w)"
    using res [unfolded reset_documented_def, rule_format, OF _ reply] i by simp
  moreover have "rc \<noteq> rc_success T \<Longrightarrow> lossy \<or> regs b = regs (backend w)"
    using lossy reliable_answers(2) [OF _ reply] by blast
  ultimately consider "rc = rc_success T" "regs b = wire_reset F ?n (regs (backend w))"
    | "rc \<noteq> rc_success T" "regs b = regs (backend w)"
    | "rc \<noteq> rc_success T" lossy "regs b = wire_reset F ?n (regs (backend w))" by blast
  then show ?thesis
    by cases (simp_all add: refines_def eq view_reset [OF T F] refused was_reset lost_reset)
qed

lemma untouched_backend:
  assumes "others_documented regs api"
  shows "api_pcr_allocate api e h s1 s2 s3 a out b = (r1, b') \<Longrightarrow> regs b' = regs b"
    and "api_pcr_set_auth_policy api e h s1 s2 s3 au alg n b = (r2, b') \<Longrightarrow> regs b' = regs b"
    and "api_pcr_set_auth_value api e h s1 s2 s3 au b = (r2, b') \<Longrightarrow> regs b' = regs b"
    and "api_tr_set_auth api e h au b = (r2, b') \<Longrightarrow> regs b' = regs b"
    and "regs (api_free_buffer api buf b) = regs b"
proof -
  note parts = assms [unfolded others_documented_def]
  note rest = parts [THEN conjunct2] parts [THEN conjunct2, THEN conjunct2]
    parts [THEN conjunct2, THEN conjunct2, THEN conjunct2]
  show "api_pcr_allocate api e h s1 s2 s3 a out b = (r1, b') \<Longrightarrow> regs b' = regs b"
    by (rule parts [THEN conjunct1, rule_format])
  show "api_pcr_set_auth_policy api e h s1 s2 s3 au alg n b = (r2, b') \<Longrightarrow> regs b' = regs b"
    by (rule rest(1) [THEN conjunct1, rule_format])
  show "api_pcr_set_auth_value api e h s1 s2 s3 au b = (r2, b') \<Longrightarrow> regs b' = regs b"
    by (rule rest(2) [THEN conjunct1, rule_format])
  show "api_tr_set_auth api e h au b = (r2, b') \<Longrightarrow> regs b' = regs b"
    by (rule rest(3) [THEN conjunct1, rule_format])
  show "regs (api_free_buffer api buf b) = regs b"
    using rest(3) [THEN conjunct2] by (simp add: api_free_buffer_def split: option.split)
qed

lemma allocate_refines:
  assumes T: "sizes_documented T" and tpm: "tpm_documented T F regs api"
  shows "refines legacy T F regs lossy w (Allocate banks) (provider_step legacy T api p w (Allocate banks))"
proof (cases "provider_esys p")
  case None
  then show ?thesis by (simp add: no_context refines_refused)
next
  case (Some e)
  show ?thesis
  proof (cases "accepts_banks T banks")
    case False
    with provider_allocate_rejected [OF Some False] show ?thesis
      by (metis provider_step.simps(1) refines_refused reply_with_simps(2))
  next
    case True
    obtain rc out b where reply: "api_pcr_allocate api (provider_esys p) (tr_rh_platform T) (tr_password T) (tr_none T)
      (tr_none T) (allocation_structure legacy T banks)
      \<lparr>out_success = yes_no_no T, out_max_pcr = 0, out_size_needed = 0, out_size_available = 0\<rparr>
      (backend w) = ((rc, out), b)" by (metis prod.exhaust)
    have "regs b = regs (backend w)"
      using tpm untouched_backend(1) [OF _ reply] unfolding tpm_documented_def by blast
    then show ?thesis
      by (simp add: provider_allocate_accepted [OF T Some True reply] refines_refused refines_untouched)
  qed
qed

lemma set_auth_policy_refines:
  assumes T: "sizes_documented T" "alg_ids_documented T" and tpm: "tpm_documented T F regs api"
  shows "refines legacy T F regs lossy w (Set_auth_policy i a policy)
    (provider_step legacy T api p w (Set_auth_policy i a policy))"
proof (cases "provider_esys p")
  case None
  then show ?thesis by (simp add: no_context refines_refused)
next
  case (Some e)
  show ?thesis
  proof (cases "accepts_policy legacy a policy")
    case False
    with provider_set_auth_policy_rejected [OF Some T False] show ?thesis
      by (metis provider_step.simps(6) refines_refused reply_with_simps(2))
  next
    case True
    obtain rc b where reply: "api_pcr_set_auth_policy api (provider_esys p) (tr_rh_platform T) (tr_password T)
      (tr_none T) (tr_none T) (sized_structure (digest_buffer_size T) policy)
      (algorithm_to_tpm legacy T a) (hr_pcr T + ucast (index_value i)) (backend w) = (rc, b)"
      by (metis prod.exhaust)
    have "regs b = regs (backend w)"
      using tpm untouched_backend(2) [OF _ reply] unfolding tpm_documented_def by blast
    then show ?thesis
      by (simp add: provider_set_auth_policy_accepted [OF T Some True reply] refines_refused refines_untouched)
  qed
qed

lemma set_auth_value_refines:
  assumes tpm: "tpm_documented T F regs api"
  shows "refines legacy T F regs lossy w (Set_auth_value i auth)
    (provider_step legacy T api p w (Set_auth_value i auth))"
proof (cases "provider_esys p")
  case None
  then show ?thesis by (simp add: no_context refines_refused)
next
  case (Some e)
  show ?thesis
  proof (cases "auth = []")
    case False
    then show ?thesis by (simp add: provider_set_auth_value_rejected [OF Some] refines_refused)
  next
    case True
    obtain rc1 b1 where r1: "api_tr_set_auth api (provider_esys p) (pcr_handle T i) (empty_auth T) (backend w) = (rc1, b1)"
      by (metis prod.exhaust)
    obtain rc2 b2 where r2: "api_pcr_set_auth_value api (provider_esys p) (pcr_handle T i) (tr_password T)
      (tr_none T) (tr_none T) (empty_auth T) b1 = (rc2, b2)" by (metis prod.exhaust)
    obtain rc3 b3 where r3: "api_tr_set_auth api (provider_esys p) (pcr_handle T i) (empty_auth T) b2 = (rc3, b3)"
      by (metis prod.exhaust)
    have "others_documented regs api" using tpm by (simp add: tpm_documented_def)
    note same = untouched_backend(4) [OF this r1] untouched_backend(3) [OF this r2] untouched_backend(4) [OF this r3]
    show ?thesis
      using same by (simp add: True provider_set_auth_value_accepted [OF Some r1 r2 r3] refines_refused refines_untouched)
  qed
qed

lemma event_refines:
  assumes T: "sizes_documented T" "alg_ids_documented T" and api: "api_sized T api"
    and tpm: "tpm_documented T F regs api"
    and wf: "wf_request legacy (Event i event_data)" and lossy: "lossy \<or> tpm_reliable T regs api"
  shows "refines legacy T F regs lossy w (Event i event_data) (provider_step legacy T api p w (Event i event_data))"
proof (cases "provider_esys p")
  case None
  then show ?thesis by (simp add: no_context refines_refused)
next
  case (Some e)
  show ?thesis
  proof (cases "accepts_event T event_data")
    case False
    then show ?thesis by (simp add: provider_event_rejected [OF Some] refines_refused)
  next
    case True
    let ?n = "unat (index_value i)"
    let ?view = "pcr_view legacy T (regs (backend w))"
    let ?h = "domain_hasher legacy T F"
    let ?x = "provider_step legacy T api p w (Event i event_data)"
    obtain rc raw b where reply: "api_pcr_event api (provider_esys p) (pcr_handle T i) (tr_password T) (tr_none T)
      (tr_none T) (sized_structure (event_buffer_size T) event_data) (backend w) = ((rc, raw), b)"
      by (metis prod.exhaust)
    note eq = provider_event_accepted [OF Some True reply, of legacy]
    have F: "family_documented T F" and evt: "event_documented T F regs api" and oth: "others_documented regs api"
      using tpm by (simp_all add: tpm_documented_def)
    have after: "regs (backend (snd ?x)) = regs b"
      by (simp add: eq reply_with_def split_beta Let_def untouched_backend(5) [OF oth])
    have bytes: "tpm2b_bytes (sized_structure (event_buffer_size T) event_data) = event_data"
      using True T by (simp add: sized_structure_def tpm2b_bytes_def accepts_event_def sizes_documented_def unat_of_nat)
    have i: "?n < 32" using wf by (simp add: index_number_small)
    from evt [unfolded event_documented_def, rule_format, OF _ reply] i bytes
    consider (unchanged) "rc \<noteq> rc_success T" "regs b = regs (backend w)"
      | (changed) algs where "event_banks (regs (backend w)) ?n algs"
          "regs b = wire_extend_all F ?n (event_digests F event_data algs) (regs (backend w))"
          "rc = rc_success T \<longrightarrow> (\<exists>a d. raw = Some (a, d) \<and> unat (dvs_count d) \<le> length (dvs_digests d) \<and>
             wire_digests F d = event_digests F event_data algs)" by auto
    then show ?thesis
    proof cases
      case unchanged
      then have "fst ?x = fails (tss_failure T rc)" by (simp add: eq)
      then show ?thesis using unchanged after by (simp add: refines_def refused)
    next
      case changed
      let ?ds = "domain_digests legacy T (event_digests F event_data algs)"
      have digests: "digests_of_event ?h event_data ?ds"
        using changed(1) by (intro event_digests_domain [OF T(2)]) (simp add: event_banks_def)
      have view: "pcr_view legacy T (regs b) = extend_register ?h i ?ds ?view"
        using changed(2) by (simp add: view_extend_all [OF T(2)])
      show ?thesis
      proof (cases "rc = rc_success T")
        case False
        then have "fst ?x = fails (tss_failure T rc)" by (simp add: eq)
        moreover have "lossy \<or> regs b = regs (backend w)"
          using lossy reliable_answers(3) [OF _ reply False] by blast
        ultimately show ?thesis
          using after view digests lost_event [of lossy ?h event_data ?ds legacy ?view i "tss_failure T rc"]
            refused [of ?h legacy lossy ?view "Event i event_data" "tss_failure T rc"]
          by (auto simp: refines_def)
      next
        case ok: True
        with changed(3) obtain a d where raw: "raw = Some (a, d)" and n: "unat (dvs_count d) \<le> length (dvs_digests d)"
          and d: "wire_digests F d = event_digests F event_data algs" by blast
        have wf_d: "wf_tpml_digest_values T d" using api_sized_event [OF api] reply raw by metis
        show ?thesis
        proof (cases "to_domain_digests legacy T d" rule: try_cases)
          case (returned vs)
          then have "vs = ?ds" using digests_received [OF T F wf_d] d by simp
          with returned raw ok have "fst ?x = returns (Measured \<lparr>er_digests = ?ds\<rparr>)" by (simp add: eq)
          moreover have "{a. ?view a i \<noteq> None} \<subseteq> dv_algorithm ` set ?ds"
            by (rule event_digests_cover [OF T(2) changed(1)])
          ultimately show ?thesis
            using after view measured [OF digests, of ?view i legacy lossy] by (simp add: refines_def)
        next
          case (failed x)
          have "\<not> list_all (\<lambda>x. hash_alg x \<in> listed_ids T) (take (unat (dvs_count d)) (dvs_digests d))"
          proof
            assume listed: "list_all (\<lambda>x. hash_alg x \<in> listed_ids T) (take (unat (dvs_count d)) (dvs_digests d))"
            have "list_all (wf_ha T) (take (unat (dvs_count d)) (dvs_digests d))"
              using wf_d by (auto simp: wf_tpml_digest_values_def list_all_iff dest: in_set_takeD)
            from digests_loop_listed [OF T this listed, of legacy "[]"] failed n show False
              by (auto simp: to_domain_digests_eq)
          qed
          with lossy reliable_answers(4) [of T regs api] reply raw have lossy by metis
          moreover from failed raw ok have "fst ?x = fails x" by (simp add: eq)
          ultimately show ?thesis using after view digests by (simp add: refines_def lost_event)
        next
          case (abrupt f)
          then show ?thesis using good_domain_digests [OF T(1) wf_d, of legacy] by simp
        qed
      qed
    qed
  qed
qed

lemma read_refines:
  assumes T: "sizes_documented T" "alg_ids_documented T" and api: "api_sized T api"
    and tpm: "tpm_documented T F regs api" and wf: "wf_request legacy (Read sel)"
  shows "refines legacy T F regs lossy w (Read sel) (provider_step legacy T api p w (Read sel))"
proof (cases "provider_esys p")
  case None
  then show ?thesis by (simp add: no_context refines_refused)
next
  case (Some e)
  let ?x = "provider_step legacy T api p w (Read sel)"
  have sel: "wf_selection legacy sel" using wf by simp
  obtain q where q: "to_tpm_selection legacy T sel = Inr q" using to_tpm_selection_ok [OF T(1) sel] by blast
  obtain rc ro b where reply: "api_pcr_read api (provider_esys p) (tr_none T) (tr_none T) (tr_none T) q
      \<lparr>out_update_counter = 0, out_selection = None, out_values = None\<rparr> (backend w) = ((rc, ro), b)"
    by (metis prod.exhaust)
  note eq = provider_read_accepted [OF Some q reply]
  have oth: "others_documented regs api" and rd: "read_documented T regs api"
    using tpm by (simp_all add: tpm_documented_def)
  have "psel_count q = 1" using to_tpm_selection_spec [OF T(1) sel] q by auto
  note answer = rd [unfolded read_documented_def, rule_format, OF this reply]
  have after: "regs (backend (snd ?x)) = regs (backend w)"
    using answer by (simp add: eq reply_with_def split_beta Let_def untouched_backend(5) [OF oth])
  show ?thesis
  proof (cases "rc = rc_success T")
    case False
    then have "fst ?x = fails (tss_failure T rc)" by (simp add: eq)
    with after show ?thesis by (simp add: refines_def refused)
  next
    case True
    with answer obtain a s a' v where out: "out_selection ro = Some (a, s)" "out_values ro = Some (a', v)"
      and ra: "read_answer T (regs (backend w)) (pcr_selections q ! 0) s v" by blast
    have s: "wf_tpml_pcr_selection T s" and v: "wf_tpml_digest T v"
      using api_sized_read [OF api reply] out by metis+
    have "good_answer (wf_selection legacy) (to_domain_selection legacy T s (sel_algorithm sel))"
      using good_domain_selection [OF T(1) s] sel by (simp add: wf_selection_def)
    then consider (failed) x where "to_domain_selection legacy T s (sel_algorithm sel) = fails x"
      | (chosen) ds where "to_domain_selection legacy T s (sel_algorithm sel) = returns ds" "wf_selection legacy ds"
      by (auto simp: good_answer_cases)
    then show ?thesis
    proof cases
      case failed
      then have "fst ?x = fails x" using True out by (simp add: eq)
      with after show ?thesis by (simp add: refines_def refused)
    next
      case chosen
      from good_domain_read_values [OF T(1) v chosen(2)]
      consider (bad) x where "to_domain_read_values legacy v ds = fails x"
        | (good) vs where "to_domain_read_values legacy v ds = returns vs" by (auto simp: good_answer_cases)
      then show ?thesis
      proof cases
        case bad
        then have "fst ?x = fails x" using True out chosen by (simp add: eq)
        with after show ?thesis by (simp add: refines_def refused)
      next
        case good
        from read_received [OF T sel q s v ra chosen(1) good]
        have ds: "ds = \<lparr>sel_algorithm = sel_algorithm sel, sel_indices = sel_indices ds\<rparr>"
          and sub: "sel_indices ds \<subseteq> sel_indices sel"
          and have_all: "\<forall>i \<in> sel_indices ds. pcr_view legacy T (regs (backend w)) (sel_algorithm sel) i \<noteq> None"
          and vs: "vs = values_of (pcr_view legacy T (regs (backend w))) (sel_algorithm sel) (sel_indices ds)"
          by simp_all
        have "fst ?x = returns (Was_read \<lparr>actual_selection = ds, update_counter = out_update_counter ro, read_values = vs\<rparr>)"
          using True out chosen good by (simp add: eq)
        with was_read [OF sub, of "pcr_view legacy T (regs (backend w))" "domain_hasher legacy T F" legacy lossy
            "out_update_counter ro"] have_all after ds vs
        show ?thesis by (simp add: refines_def)
      qed
    qed
  qed
qed

lemma step_refines:
  assumes "sizes_documented T" "alg_ids_documented T" and "api_sized T api"
    and "tpm_documented T F regs api" and "wf_request legacy q" and "lossy \<or> tpm_reliable T regs api"
  shows "refines legacy T F regs lossy w q (provider_step legacy T api p w q)"
  using assms
  by (cases q) (simp_all only: allocate_refines extend_refines reset_refines set_auth_policy_refines
      set_auth_value_refines event_refines read_refines)

section \<open>Whole runs\<close>

definition registers_of :: "bool \<Rightarrow> ('b \<Rightarrow> wire_pcrs) \<Rightarrow> 'b esys_provider \<Rightarrow> pcr_view" where
  "registers_of legacy regs s = pcr_view legacy (ep_tss s) (regs (backend (ep_world s)))"

definition provider_documented :: "hash_family \<Rightarrow> ('b \<Rightarrow> wire_pcrs) \<Rightarrow> 'b esys_provider \<Rightarrow> bool" where
  "provider_documented F regs s \<longleftrightarrow> esys_provider_valid s \<and> tpm_documented (ep_tss s) F regs (ep_api s)"

lemma esys_step_keeps:
  "ep_tss (snd (esys_provider_step legacy s q)) = ep_tss s"
  "ep_api (snd (esys_provider_step legacy s q)) = ep_api s"
  by (simp_all add: esys_provider_step_def split_beta)

lemma esys_step_refines:
  assumes "provider_documented F regs s" and "wf_request legacy q"
    and "lossy \<or> tpm_reliable (ep_tss s) regs (ep_api s)"
  shows "pcr_step (domain_hasher legacy (ep_tss s) F) legacy lossy (registers_of legacy regs s) q
    (fst (esys_provider_step legacy s q)) (registers_of legacy regs (snd (esys_provider_step legacy s q)))"
proof -
  have "refines legacy (ep_tss s) F regs lossy (ep_world s) q
      (provider_step legacy (ep_tss s) (ep_api s) (ep_provider s) (ep_world s) q)"
    using assms by (intro step_refines) (simp_all add: provider_documented_def esys_provider_valid_def)
  then show ?thesis by (simp add: refines_def esys_provider_step_def registers_of_def split_beta)
qed

lemma run_refines:
  "provider_documented F regs s \<Longrightarrow> list_all (wf_request legacy) qs \<Longrightarrow>
   lossy \<or> tpm_reliable (ep_tss s) regs (ep_api s) \<Longrightarrow>
   pcr_run (domain_hasher legacy (ep_tss s) F) legacy lossy (registers_of legacy regs s) qs
     (fst (run_requests (esys_provider_step legacy) s qs))
     (registers_of legacy regs (snd (run_requests (esys_provider_step legacy) s qs)))"
proof (induction qs arbitrary: s)
  case Nil
  then show ?case by (simp add: run_nil)
next
  case (Cons q qs)
  let ?s = "snd (esys_provider_step legacy s q)"
  have "provider_documented F regs ?s"
    using Cons.prems by (simp add: provider_documented_def esys_provider_valid_def esys_step_keeps)
  with Cons.IH [of ?s] Cons.prems have "pcr_run (domain_hasher legacy (ep_tss s) F) legacy lossy (registers_of legacy regs ?s) qs
     (fst (run_requests (esys_provider_step legacy) ?s qs))
     (registers_of legacy regs (snd (run_requests (esys_provider_step legacy) ?s qs)))"
    by (simp add: esys_step_keeps)
  with esys_step_refines [OF Cons.prems(1) _ Cons.prems(3), of legacy q] Cons.prems(2) show ?case
    by (auto simp: Let_def split_beta intro: run_cons)
qed

section \<open>Replaying a measurement log\<close>

text \<open>What a list of digests makes of the content of one register of one bank.\<close>

definition extend_content :: "hasher \<Rightarrow> hash_algorithm \<Rightarrow> digest_value list \<Rightarrow> byte list option \<Rightarrow> byte list option" where
  "extend_content h a ds old =
     fold (\<lambda>d. map_option (\<lambda>bs. h a (bs @ dv_digest d))) (filter (\<lambda>d. dv_algorithm d = a) ds) old"

fun measured_index :: "notification \<Rightarrow> index" where
  "measured_index (On_extend i ds) = i"
| "measured_index (On_event i event_data r) = i"

fun measured_digests :: "notification \<Rightarrow> digest_value list" where
  "measured_digests (On_extend i ds) = ds"
| "measured_digests (On_event i event_data r) = er_digests r"

definition replay :: "hasher \<Rightarrow> hash_algorithm \<Rightarrow> digest_value list list \<Rightarrow> byte list option \<Rightarrow> byte list option" where
  "replay h a dss old = fold (extend_content h a) dss old"

definition entries_of :: "index \<Rightarrow> notification list \<Rightarrow> digest_value list list" where
  "entries_of i ns = map measured_digests (filter (\<lambda>n. measured_index n = i) ns)"

lemma entries_of_simps [simp]:
  "entries_of i [] = []"
  "entries_of i (ns @ ms) = entries_of i ns @ entries_of i ms"
  by (simp_all add: entries_of_def)

lemma replay_append: "replay h a (xs @ ys) old = replay h a ys (replay h a xs old)"
  by (simp add: replay_def)

lemma extend_register_at:
  "extend_register h j ds v a i = (if i = j then extend_content h a ds (v a i) else v a i)"
  by (induction ds arbitrary: v) (simp_all add: extend_register_def extend_content_def extend_one_def)

lemma step_replays:
  assumes "pcr_step h legacy False v q r v'" and "q \<noteq> Reset i"
  shows "v' a i = replay h a (entries_of i (measurement q r)) (v a i)"
  using assms
proof (cases rule: pcr_step.cases)
  case (was_reset j)
  with assms(2) show ?thesis by (auto simp: reset_register_def replay_def)
next
  case (untouched x)
  then show ?thesis by (cases q) (simp_all add: replay_def)
qed (simp_all add: extend_register_at replay_def entries_of_def)

lemma run_replays:
  "pcr_run h legacy False v qs rs v' \<Longrightarrow> Reset i \<notin> set qs \<Longrightarrow>
   v' a i = replay h a (entries_of i (measurements qs rs)) (v a i)"
proof (induction rule: pcr_run.induct)
  case (run_nil v)
  then show ?case by (simp add: measurements_def replay_def)
next
  case (run_cons v q r v' qs rs v'')
  then have "v' a i = replay h a (entries_of i (measurement q r)) (v a i)"
    by (intro step_replays) auto
  moreover have "v'' a i = replay h a (entries_of i (measurements qs rs)) (v' a i)"
    using run_cons by simp
  ultimately show ?case by (simp add: measurements_def replay_append)
qed

section \<open>An event in a bank the library does not know\<close>

lemma digests_loop_returns_listed:
  assumes T: "sizes_documented T" "alg_ids_documented T"
  shows "list_all (wf_ha T) ds \<Longrightarrow> convert_digests legacy T ds acc = returns vs \<Longrightarrow>
    list_all (\<lambda>x. hash_alg x \<in> listed_ids T) ds"
proof (induction ds arbitrary: acc)
  case (Cons d ds)
  then have "hash_alg d \<in> listed_ids T"
    by (cases "algorithm_from_tpm legacy T (hash_alg d)")
       (auto simp: make_digest_value_ha_eq [OF T(1)] listed_ids_def algorithm_from_tpm_def
          should_skip_disabled_pcr_algorithm_def split: if_splits)
  moreover have "\<exists>acc. convert_digests legacy T ds acc = returns vs"
    using Cons.prems by (auto simp: bind_try_value_iff split: if_splits)
  ultimately show ?case using Cons by auto
qed simp

lemma unlisted_digest_fails:
  assumes T: "sizes_documented T" "alg_ids_documented T" and d: "wf_tpml_digest_values T d"
    and "\<not> list_all (\<lambda>x. hash_alg x \<in> listed_ids T) (take (unat (dvs_count d)) (dvs_digests d))"
  shows "\<exists>x. to_domain_digests legacy T d = fails x \<and> category x = backend_error"
proof -
  have "list_all (wf_ha T) (take (unat (dvs_count d)) (dvs_digests d))"
    using d by (auto simp: wf_tpml_digest_values_def list_all_iff dest: in_set_takeD)
  from digests_loop_returns_listed [OF T this] assms(4)
  have "to_domain_digests legacy T d \<noteq> returns vs" for vs
    by (auto simp: to_domain_digests_eq split: if_splits)
  with good_domain_digests [OF T(1) d, of legacy] show ?thesis by (auto simp: good_answer_cases)
qed

section \<open>A TPM that behaves as documented\<close>

text \<open>
  Banks \<open>banks\<close> of 32 registers each, kept in the state; its hash is a sum, which is all the
  documented behaviour asks of it. Identifier \<open>0x12\<close> is SM3-256, which the library does not list.
\<close>

type_synonym soft_store = "u16 \<Rightarrow> nat \<Rightarrow> byte list"

definition soft_size :: "u16 \<Rightarrow> nat" where
  "soft_size alg = (if alg = 0x4 then 20 else if alg = 0xc then 48 else if alg = 0xd then 64 else 32)"

definition soft_family :: hash_family where
  "soft_family = \<lparr>fam_hash = (\<lambda>alg bs. replicate (soft_size alg) (sum_list bs)), fam_size = soft_size\<rparr>"

definition soft_regs :: "u16 list \<Rightarrow> soft_store \<Rightarrow> wire_pcrs" where
  "soft_regs banks b alg n = (if alg \<in> set banks \<and> n < 32 then Some (take 64 (b alg n)) else None)"

definition soft_keep :: "wire_pcrs \<Rightarrow> soft_store" where
  "soft_keep R alg n = (case R alg n of None \<Rightarrow> [] | Some bs \<Rightarrow> bs)"

definition soft_event_digests :: "u16 list \<Rightarrow> byte list \<Rightarrow> tpml_digest_values" where
  "soft_event_digests banks bs =
     \<lparr>dvs_count = of_nat (length banks),
      dvs_digests = map (\<lambda>alg. \<lparr>hash_alg = alg,
          ha_bytes = fam_hash soft_family alg bs @ replicate (64 - soft_size alg) 0\<rparr>) banks @
        replicate (16 - length banks) (zero_tpmt_ha tss_4_1)\<rparr>"

definition soft_read :: "u16 list \<Rightarrow> soft_store \<Rightarrow> tpml_pcr_selection \<Rightarrow> tpml_pcr_selection \<times> tpml_digest" where
  "soft_read banks b sel =
     (let q = pcr_selections sel ! 0; alg = sel_hash q in
      if wf_tpml_pcr_selection tss_4_1 sel \<and> psel_count sel = 1 \<and> alg \<in> set banks \<and> unat (sizeof_select q) \<le> 4
      then (sel, let ds = map (\<lambda>n. sized_structure 64 (take 64 (b alg n))) (sorted_list_of_set (wire_selected q))
                 in \<lparr>digs_count = of_nat (length ds), digs_digests = ds\<rparr>)
      else (zero_tpml_pcr_selection tss_4_1, \<lparr>digs_count = 0, digs_digests = []\<rparr>))"

definition soft_api :: "u16 list \<Rightarrow> soft_store esys_api" where
  "soft_api banks =
     \<lparr>api_initialize = (\<lambda>t v b. ((0, Some 1, v), b)),
      api_finalize = (\<lambda>c b. b),
      api_free = (\<lambda>p b. b),
      api_pcr_allocate = (\<lambda>e h s1 s2 s3 a out b. ((0, out), b)),
      api_pcr_event = (\<lambda>e h s1 s2 s3 d b.
        ((0, Some (100, soft_event_digests banks (tpm2b_bytes d))),
         soft_keep (wire_extend_all soft_family (register_of tss_4_1 h)
           (event_digests soft_family (tpm2b_bytes d) banks) (soft_regs banks b)))),
      api_pcr_extend = (\<lambda>e h s1 s2 s3 d b.
        (0, soft_keep (wire_extend_all soft_family (register_of tss_4_1 h) (wire_digests soft_family d) (soft_regs banks b)))),
      api_pcr_read = (\<lambda>e s1 s2 s3 sel out b.
        ((0, out\<lparr>out_update_counter := 5, out_selection := Some (200, fst (soft_read banks b sel)),
              out_values := Some (201, snd (soft_read banks b sel))\<rparr>), b)),
      api_pcr_reset = (\<lambda>e h s1 s2 s3 b.
        (0, soft_keep (wire_reset soft_family (register_of tss_4_1 h) (soft_regs banks b)))),
      api_pcr_set_auth_policy = (\<lambda>e h s1 s2 s3 a alg n b. (0, b)),
      api_pcr_set_auth_value = (\<lambda>e h s1 s2 s3 a b. (0, b)),
      api_startup = (\<lambda>e t b. (0, b)),
      api_tr_set_auth = (\<lambda>e h a b. (0, b)),
      api_decode_error = None\<rparr>"

definition soft_shape :: "u16 list \<Rightarrow> wire_pcrs \<Rightarrow> bool" where
  "soft_shape banks R \<longleftrightarrow>
     (\<forall>alg n. R alg n = None \<longleftrightarrow> \<not> (alg \<in> set banks \<and> n < 32)) \<and>
     (\<forall>alg n bs. R alg n = Some bs \<longrightarrow> length bs \<le> 64)"

lemma soft_size_bound: "soft_size alg \<le> 64"
  by (simp add: soft_size_def)

lemma soft_family_length [simp]: "length (fam_hash soft_family alg bs) = soft_size alg"
  by (simp add: soft_family_def)

lemma soft_family_documented [simp]: "family_documented tss_4_1 soft_family"
  by (simp add: family_documented_def soft_family_def soft_size_def tss_4_1_def)

lemma soft_keep_regs:
  assumes "soft_shape banks R"
  shows "soft_regs banks (soft_keep R) = R"
proof (intro ext)
  fix alg n
  show "soft_regs banks (soft_keep R) alg n = R alg n"
  proof (cases "R alg n")
    case None
    with assms have "\<not> (alg \<in> set banks \<and> n < 32)" by (simp add: soft_shape_def)
    with None show ?thesis by (simp add: soft_regs_def)
  next
    case (Some bs)
    with assms have "alg \<in> set banks \<and> n < 32" unfolding soft_shape_def by (metis option.distinct(1))
    moreover from Some assms have "length bs \<le> 64" by (simp add: soft_shape_def)
    ultimately show ?thesis using Some by (simp add: soft_regs_def soft_keep_def)
  qed
qed

lemma soft_shape_regs: "soft_shape banks (soft_regs banks b)"
  by (simp add: soft_shape_def soft_regs_def)

lemma soft_shapeI:
  assumes "soft_shape banks R" and "\<And>alg n. R' alg n = None \<longleftrightarrow> R alg n = None"
    and "\<And>alg n bs. R' alg n = Some bs \<Longrightarrow> R alg n = Some bs \<or> length bs \<le> 64"
  shows "soft_shape banks R'"
  using assms unfolding soft_shape_def by metis

lemma soft_shape_extend: "soft_shape banks R \<Longrightarrow> soft_shape banks (wire_extend soft_family n x R)"
  by (erule soft_shapeI) (auto simp: wire_extend_def soft_size_bound split: prod.splits if_splits)

lemma soft_shape_extend_all: "soft_shape banks R \<Longrightarrow> soft_shape banks (wire_extend_all soft_family n xs R)"
  by (induction xs arbitrary: R) (simp_all add: wire_extend_all_def soft_shape_extend)

lemma soft_shape_reset: "soft_shape banks R \<Longrightarrow> soft_shape banks (wire_reset soft_family n R)"
  by (erule soft_shapeI) (auto simp: wire_reset_def soft_family_def soft_size_bound split: if_splits)

lemmas soft_keeps = soft_keep_regs [OF soft_shape_extend_all [OF soft_shape_regs]]
  soft_keep_regs [OF soft_shape_reset [OF soft_shape_regs]]

lemma soft_wire_digests:
  assumes "length banks \<le> 16"
  shows "wire_digests soft_family (soft_event_digests banks bs) = event_digests soft_family bs banks"
proof -
  have "unat (of_nat (length banks) :: u32) = length banks" using assms by (simp add: unat_of_nat)
  moreover have "fam_size soft_family alg = soft_size alg" for alg by (simp add: soft_family_def)
  ultimately show ?thesis
    by (simp add: wire_digests_def soft_event_digests_def event_digests_def comp_def)
qed

lemma soft_api_sized:
  assumes "length banks \<le> 16"
  shows "api_sized tss_4_1 (soft_api banks)"
proof -
  have "wf_tpml_digest_values tss_4_1 (soft_event_digests banks bs)" for bs
    using assms soft_size_bound
    by (auto simp: wf_tpml_digest_values_def soft_event_digests_def wf_ha_def zero_tpmt_ha_def
        list_all_iff tss_4_1_fields)
  moreover have "wf_tpml_pcr_selection tss_4_1 (fst (soft_read banks b sel))" for b sel
    by (simp add: soft_read_def Let_def wf_tpml_pcr_selection_def zero_tpml_pcr_selection_def
        zero_pcr_selection_def list_all_iff)
  moreover have "wf_tpml_digest tss_4_1 (snd (soft_read banks b sel))" for b sel
    by (simp add: soft_read_def Let_def wf_tpml_digest_def sized_structure_def list_all_iff tss_4_1_fields)
  ultimately show ?thesis by (simp add: api_sized_def soft_api_def)
qed

lemma soft_read_answer:
  assumes "sel = \<lparr>psel_count = 1, pcr_selections = ss\<rparr>"
  shows "read_answer tss_4_1 (soft_regs banks b) (pcr_selections sel ! 0) (fst (soft_read banks b sel)) (snd (soft_read banks b sel))"
proof -
  let ?q = "pcr_selections sel ! 0"
  let ?ns = "sorted_list_of_set (wire_selected ?q)"
  show ?thesis
  proof (cases "wf_tpml_pcr_selection tss_4_1 sel \<and> psel_count sel = 1 \<and> sel_hash ?q \<in> set banks \<and> unat (sizeof_select ?q) \<le> 4")
    case False
    then have "soft_read banks b sel = (zero_tpml_pcr_selection tss_4_1, \<lparr>digs_count = 0, digs_digests = []\<rparr>)"
      by (auto simp: soft_read_def Let_def)
    then show ?thesis by (simp add: read_answer_def zero_tpml_pcr_selection_def)
  next
    case True
    let ?ds = "map (\<lambda>n. sized_structure 64 (take 64 (b (sel_hash ?q) n))) ?ns"
    from True have eq: "soft_read banks b sel = (sel, \<lparr>digs_count = of_nat (length ?ds), digs_digests = ?ds\<rparr>)"
      by (auto simp: soft_read_def Let_def)
    have less: "m \<in> wire_selected ?q \<Longrightarrow> m < 32" for m using True wire_selected_less by blast
    then have sub: "wire_selected ?q \<subseteq> {..<32}" by auto
    then have fin: "finite (wire_selected ?q)" by (rule finite_subset) simp
    have "card (wire_selected ?q) \<le> 32" using card_mono [OF _ sub] by simp
    then have n: "unat (of_nat (length ?ds) :: u32) = length ?ds" by (simp add: unat_of_nat)
    have bytes: "tpm2b_bytes (sized_structure 64 (take 64 bs)) = take 64 bs" for bs
      by (auto simp: tpm2b_bytes_def sized_structure_def unat_of_nat min_def)
    have "map (soft_regs banks b (sel_hash ?q)) ?ns = map (Some \<circ> tpm2b_bytes) ?ds"
      using True less fin by (simp add: soft_regs_def bytes)
    then show ?thesis
      using True n unfolding eq by (simp add: read_answer_def Let_def tss_4_1_fields)
  qed
qed

lemma soft_tpm_documented:
  assumes banks: "length banks \<le> 16" "distinct banks"
  shows "tpm_documented tss_4_1 soft_family (soft_regs banks) (soft_api banks)"
proof -
  have "extend_documented tss_4_1 soft_family (soft_regs banks) (soft_api banks)"
    by (auto simp: extend_documented_def soft_api_def soft_keeps)
  moreover have "reset_documented tss_4_1 soft_family (soft_regs banks) (soft_api banks)"
    by (auto simp: reset_documented_def soft_api_def soft_keeps)
  moreover have "event_documented tss_4_1 soft_family (soft_regs banks) (soft_api banks)"
  proof -
    have "event_banks (soft_regs banks b) n banks" for b n
      using banks by (auto simp: event_banks_def soft_regs_def split: if_splits)
    moreover have "unat (dvs_count (soft_event_digests banks bs)) \<le> length (dvs_digests (soft_event_digests banks bs))" for bs
      using banks by (simp add: soft_event_digests_def unat_of_nat)
    ultimately show ?thesis
      by (auto simp: event_documented_def soft_api_def soft_keeps soft_wire_digests [OF banks(1)]
          intro!: exI [of _ banks])
  qed
  moreover have "read_documented tss_4_1 (soft_regs banks) (soft_api banks)"
  proof -
    have "read_answer tss_4_1 (soft_regs banks b) (pcr_selections sel ! 0) (fst (soft_read banks b sel))
        (snd (soft_read banks b sel))" if "psel_count sel = 1" for b sel
      using soft_read_answer [of sel "pcr_selections sel" banks b] that by (cases sel) simp
    then show ?thesis by (auto simp: read_documented_def soft_api_def)
  qed
  moreover have "others_documented (soft_regs banks) (soft_api banks)"
    by (simp add: others_documented_def soft_api_def)
  ultimately show ?thesis by (simp add: tpm_documented_def)
qed

lemma soft_tpm_reliable:
  assumes "set banks \<subseteq> {0x4, 0xb, 0xc, 0xd}" and "length banks \<le> 16"
  shows "tpm_reliable tss_4_1 (soft_regs banks) (soft_api banks)"
proof -
  have "unat (of_nat (length banks) :: u32) = length banks" using assms by (simp add: unat_of_nat)
  then have "list_all (\<lambda>x. hash_alg x \<in> listed_ids tss_4_1)
      (take (unat (dvs_count (soft_event_digests banks bs))) (dvs_digests (soft_event_digests banks bs)))" for bs
    using assms(1) by (auto simp: soft_event_digests_def list_all_iff listed_ids_def tss_4_1_fields)
  then show ?thesis by (simp add: tpm_reliable_def soft_api_def tss_4_1_fields)
qed

section \<open>Properties\<close>

definition soft_provider :: "u16 list \<Rightarrow> soft_store esys_provider" where
  "soft_provider banks =
     \<lparr>ep_tss = tss_4_1, ep_api = soft_api banks, ep_provider = lab_provider,
      ep_world = \<lparr>backend = (\<lambda>alg n. replicate (soft_size alg) 0), actions = []\<rparr>\<rparr>"

lemma soft_provider_fields [simp]:
  "ep_tss (soft_provider banks) = tss_4_1" "ep_api (soft_provider banks) = soft_api banks"
  "ep_provider (soft_provider banks) = lab_provider" "actions (ep_world (soft_provider banks)) = []"
  by (simp_all add: soft_provider_def)

lemma soft_provider_documented:
  "length banks \<le> 16 \<Longrightarrow> distinct banks \<Longrightarrow> provider_documented soft_family (soft_regs banks) (soft_provider banks)"
  by (simp add: provider_documented_def esys_provider_valid_def soft_api_sized soft_tpm_documented)

text \<open>
  C2: Over a TPM that behaves as documented, the provider implements the abstract machine of PCR
  banks, for every sequence of well-formed requests and whatever the TPM answers. An extend that
  returns has extended the named register with the digests of the call, each in the bank of its
  algorithm; an event that returns has extended the register of every supported bank with the hash
  of the event data, and returns those digests; a reset that returns has zeroed the register in
  every bank; the values a read returns are the content of the registers it names, which are among
  those asked for; nothing else changes a register. A request that fails has changed nothing,
  unless the TPM is not reliable: then its own effect may be there.
\<close>
theorem provider_refines_registers:
  assumes "provider_documented F regs s" and "list_all (wf_request legacy) qs"
    and "lossy \<or> tpm_reliable (ep_tss s) regs (ep_api s)"
  shows "pcr_run (domain_hasher legacy (ep_tss s) F) legacy lossy (registers_of legacy regs s) qs
    (fst (run_requests (esys_provider_step legacy) s qs))
    (registers_of legacy regs (snd (run_requests (esys_provider_step legacy) s qs)))"
  using assms by (rule run_refines)

lemma provider_refines_registers_witness:
  "pcr_run (domain_hasher False (ep_tss (soft_provider [0xb, 0xd])) soft_family) False False
    (registers_of False (soft_regs [0xb, 0xd]) (soft_provider [0xb, 0xd]))
    [Extend (Index 16) [lab_digest], Event (Index 7) [1, 2, 3],
     Read \<lparr>sel_algorithm = sha256, sel_indices = {Index 16, Index 31}\<rparr>, Reset (Index 16)]
    (fst (run_requests (esys_provider_step False) (soft_provider [0xb, 0xd])
      [Extend (Index 16) [lab_digest], Event (Index 7) [1, 2, 3],
       Read \<lparr>sel_algorithm = sha256, sel_indices = {Index 16, Index 31}\<rparr>, Reset (Index 16)]))
    (registers_of False (soft_regs [0xb, 0xd]) (snd (run_requests (esys_provider_step False) (soft_provider [0xb, 0xd])
      [Extend (Index 16) [lab_digest], Event (Index 7) [1, 2, 3],
       Read \<lparr>sel_algorithm = sha256, sel_indices = {Index 16, Index 31}\<rparr>, Reset (Index 16)])))"
  by (rule provider_refines_registers)
     (simp_all add: soft_provider_documented soft_tpm_reliable wf_index_unat wf_selection_def
        lab_digest_def wf_digest_value_def)

text \<open>
  C40: An event on a TPM that has a bank in an algorithm the library does not list is reported as a
  back-end error although the TPM has measured it: the register of every bank is extended with the
  hash of the event data, the caller gets no digest and the observer hears nothing.
\<close>
theorem unlisted_bank_event_unreported:
  assumes "sizes_documented T" and "alg_ids_documented T" and "api_sized T api"
    and "tpm_documented T F regs api" and "provider_esys p = Some e" and "accepts_event T event_data"
    and "wf_index i"
    and reply: "api_pcr_event api (provider_esys p) (pcr_handle T i) (tr_password T) (tr_none T) (tr_none T)
      (sized_structure (event_buffer_size T) event_data) (backend w) = ((rc_success T, Some (a, d)), b)"
    and unlisted: "\<not> list_all (\<lambda>x. hash_alg x \<in> listed_ids T) (take (unat (dvs_count d)) (dvs_digests d))"
  shows "\<exists>x w' ds. provider_event legacy T api p i event_data w = (fails x, w') \<and> category x = backend_error \<and>
    notifications (actions w') = notifications (actions w) \<and>
    digests_of_event (domain_hasher legacy T F) event_data ds \<and>
    {c. pcr_view legacy T (regs (backend w)) c i \<noteq> None} \<subseteq> dv_algorithm ` set ds \<and>
    pcr_view legacy T (regs (backend w')) =
      extend_register (domain_hasher legacy T F) i ds (pcr_view legacy T (regs (backend w)))"
proof -
  let ?n = "unat (index_value i)"
  have evt: "event_documented T F regs api" and oth: "others_documented regs api"
    using assms(4) by (simp_all add: tpm_documented_def)
  have bytes: "tpm2b_bytes (sized_structure (event_buffer_size T) event_data) = event_data"
    using assms(1,6)
    by (simp add: sized_structure_def tpm2b_bytes_def accepts_event_def sizes_documented_def unat_of_nat)
  from evt [unfolded event_documented_def, rule_format, OF _ reply] assms(7) bytes
  obtain algs where algs: "event_banks (regs (backend w)) ?n algs"
      "regs b = wire_extend_all F ?n (event_digests F event_data algs) (regs (backend w))"
    by (auto simp: index_number_small)
  obtain x where x: "to_domain_digests legacy T d = fails x" "category x = backend_error"
    using unlisted_digest_fails [OF assms(1,2) api_sized_event [OF assms(3) reply] unlisted] by metis
  let ?w = "w\<lparr>backend := api_free_buffer api (Some (a, d)) b,
     actions := actions w @ Called (event_command T p i event_data) # freed (Some (a, d))\<rparr>"
  have "provider_event legacy T api p i event_data w = (fails x, ?w)"
    using x by (simp add: provider_event_accepted [OF assms(5,6) reply])
  moreover have "pcr_view legacy T (regs (backend ?w)) = extend_register (domain_hasher legacy T F) i
      (domain_digests legacy T (event_digests F event_data algs)) (pcr_view legacy T (regs (backend w)))"
    using algs(2) by (simp add: untouched_backend(5) [OF oth] view_extend_all [OF assms(2)])
  moreover have "notifications (actions ?w) = notifications (actions w)" by simp
  moreover have "distinct algs" using algs(1) by (simp add: event_banks_def)
  ultimately show ?thesis
    using x(2) event_digests_domain [OF assms(2)] event_digests_cover [OF assms(2) algs(1)] by blast
qed

lemma unlisted_bank_event_unreported_witness:
  "\<exists>x w' ds. provider_event False tss_4_1 (soft_api [0xb, 0x12]) lab_provider (Index 7) [1]
      (ep_world (soft_provider [0xb, 0x12])) = (fails x, w') \<and> category x = backend_error \<and>
    notifications (actions w') = notifications (actions (ep_world (soft_provider [0xb, 0x12]))) \<and>
    digests_of_event (domain_hasher False tss_4_1 soft_family) [1] ds \<and>
    {c. pcr_view False tss_4_1 (soft_regs [0xb, 0x12] (backend (ep_world (soft_provider [0xb, 0x12])))) c (Index 7) \<noteq> None}
      \<subseteq> dv_algorithm ` set ds \<and>
    pcr_view False tss_4_1 (soft_regs [0xb, 0x12] (backend w')) =
      extend_register (domain_hasher False tss_4_1 soft_family) (Index 7) ds
        (pcr_view False tss_4_1 (soft_regs [0xb, 0x12] (backend (ep_world (soft_provider [0xb, 0x12])))))"
proof (rule unlisted_bank_event_unreported)
  show "api_pcr_event (soft_api [0xb, 0x12]) (provider_esys lab_provider) (pcr_handle tss_4_1 (Index 7))
      (tr_password tss_4_1) (tr_none tss_4_1) (tr_none tss_4_1)
      (sized_structure (event_buffer_size tss_4_1) [1]) (backend (ep_world (soft_provider [0xb, 0x12]))) =
    ((rc_success tss_4_1, Some (100, soft_event_digests [0xb, 0x12]
        (tpm2b_bytes (sized_structure (event_buffer_size tss_4_1) [1])))),
     soft_keep (wire_extend_all soft_family (register_of tss_4_1 (pcr_handle tss_4_1 (Index 7)))
       (event_digests soft_family (tpm2b_bytes (sized_structure (event_buffer_size tss_4_1) [1])) [0xb, 0x12])
       (soft_regs [0xb, 0x12] (backend (ep_world (soft_provider [0xb, 0x12]))))))"
    by (simp add: soft_api_def tss_4_1_fields)
qed (simp_all add: soft_api_sized soft_tpm_documented accepts_event_def tss_4_1_fields wf_index_unat
    soft_event_digests_def listed_ids_def)

end
