(* ===== verification/Fake_Tcti.thy ===== *)
theory Fake_Tcti
  imports Esys_Api
begin

text \<open>
  \<^verbatim>\<open>src/adapters/mock/fake_tcti.cpp\<close>: the scripted TCTI the tests put under a real ESYS context. It
  answers the callbacks of the TCTI function table from a queue of programmed outcomes. A pointer
  to the context is null or the handle of this fake; the in/out parameters \<^verbatim>\<open>size_t* size\<close> and
  \<^verbatim>\<open>uint8_t* response\<close> are optional values and components of the result. \<^verbatim>\<open>std::size_t\<close> has 64 bits.
  Failure of memory allocation, which the callbacks turn into a general failure, is not modelled.

  A call first reads the queue under the mutex, then works on copies, and then takes the mutex
  again to consume the entry; \<open>receive_front\<close> and \<open>receive_pop\<close> are the two critical sections. The
  last section interleaves them with the calls of other threads.
\<close>

section \<open>State\<close>

text \<open>A factory maps the last command to a response; \<open>None\<close> is an exception it throws.\<close>

datatype queued_result =
    Response_bytes "byte list"
  | Response_factory "byte list \<Rightarrow> byte list option"
  | Failure_rc u32
  | Transmit_failure_rc u32

text \<open>The header of the context; its function pointers are the definitions of this theory.\<close>

record fake_tcti_storage =
  tcti_magic :: u64
  tcti_version :: u32
  has_owner :: bool

record fake_impl =
  finalize_count :: u64
  script :: "queued_result list"
  tcti_storage :: fake_tcti_storage
  commands_seen :: "byte list list"
  transmit_count :: u64

text \<open>A \<^verbatim>\<open>fake_tcti\<close> is a \<^verbatim>\<open>unique_ptr<impl>\<close>, null once it was moved from.\<close>

type_synonym fake_tcti = "fake_impl option"

definition fake_tcti_magic :: u64 where
  "fake_tcti_magic = 0x46414b4554435449"

definition tcti_abi_version_v1 :: u32 where
  "tcti_abi_version_v1 = 1"

text \<open>The codes \<^verbatim>\<open>TSS2_TCTI_RC_*\<close>: the TCTI layer with a base code.\<close>

definition tcti_rc :: "tss \<Rightarrow> base_rc \<Rightarrow> u32" where
  "tcti_rc T b = layer_code T TCTI_layer OR base_rc_code T b"

definition new_fake_impl :: fake_impl where
  "new_fake_impl =
     \<lparr>finalize_count = 0, script = [],
      tcti_storage = \<lparr>tcti_magic = fake_tcti_magic, tcti_version = tcti_abi_version_v1, has_owner = True\<rparr>,
      commands_seen = [], transmit_count = 0\<rparr>"

section \<open>Programming and inspection\<close>

definition impl_push_failure :: "u32 \<Rightarrow> fake_impl \<Rightarrow> fake_impl" where
  "impl_push_failure rc s = s\<lparr>script := script s @ [Failure_rc rc]\<rparr>"

definition impl_push_transmit_failure :: "u32 \<Rightarrow> fake_impl \<Rightarrow> fake_impl" where
  "impl_push_transmit_failure rc s = s\<lparr>script := script s @ [Transmit_failure_rc rc]\<rparr>"

definition impl_push_response :: "byte list \<Rightarrow> fake_impl \<Rightarrow> fake_impl" where
  "impl_push_response bs s = s\<lparr>script := script s @ [Response_bytes bs]\<rparr>"

definition impl_push_response_factory :: "(byte list \<Rightarrow> byte list option) \<Rightarrow> fake_impl \<Rightarrow> fake_impl" where
  "impl_push_response_factory f s = s\<lparr>script := script s @ [Response_factory f]\<rparr>"

definition impl_pending_responses :: "fake_impl \<Rightarrow> u64" where
  "impl_pending_responses s = of_nat (length (script s))"

definition impl_transmitted_commands :: "fake_impl \<Rightarrow> byte list list" where
  "impl_transmitted_commands s = commands_seen s"

definition impl_transmits_observed :: "fake_impl \<Rightarrow> u64" where
  "impl_transmits_observed s = transmit_count s"

definition impl_finalizes_observed :: "fake_impl \<Rightarrow> u64" where
  "impl_finalizes_observed s = finalize_count s"

section \<open>The callbacks\<close>

definition copy_response ::
  "tss \<Rightarrow> byte list \<Rightarrow> u64 option \<Rightarrow> byte list option \<Rightarrow> fault + u32 \<times> u64 option \<times> byte list option"
where
  "copy_response T bytes sz destination =
     (case sz of
        None \<Rightarrow> Inr (tcti_rc T BAD_REFERENCE, sz, destination)
      | Some n \<Rightarrow>
          let required_size = of_nat (length bytes) in
          case destination of
            None \<Rightarrow> Inr (rc_success T, Some required_size, None)
          | Some dst \<Rightarrow>
              if n < required_size
              then Inr (tcti_rc T INSUFFICIENT_BUFFER, Some required_size, Some dst)
              else bind_ok (copy_to_front bytes dst)
                     (\<lambda>dst'. Inr (rc_success T, Some required_size, Some dst')))"

text \<open>
  The first critical section of \<^verbatim>\<open>receive_next\<close>: either the call is over, with its code, whether
  \<^verbatim>\<open>*size\<close> is set to zero, and the new state; or a response has been copied, or the factory with
  the command it is to be called on.
\<close>

datatype front =
    Answered u32 bool fake_impl
  | Scripted "byte list"
  | Dynamic "byte list \<Rightarrow> byte list option" "byte list"

definition receive_front :: "tss \<Rightarrow> fake_impl \<Rightarrow> front" where
  "receive_front T s =
     (case script s of
        [] \<Rightarrow> Answered (tcti_rc T IO_ERROR) False s
      | Failure_rc rc # rest \<Rightarrow> Answered rc True (s\<lparr>script := rest\<rparr>)
      | Transmit_failure_rc rc # rest \<Rightarrow> Answered (tcti_rc T BAD_SEQUENCE) False s
      | Response_bytes bs # rest \<Rightarrow> Scripted bs
      | Response_factory f # rest \<Rightarrow>
          Dynamic f (if commands_seen s = [] then [] else last (commands_seen s)))"

text \<open>Outside the mutex: the factory is called; \<open>None\<close> when it throws.\<close>

fun materialize :: "front \<Rightarrow> byte list option" where
  "materialize (Scripted bs) = Some bs"
| "materialize (Dynamic f last_command) = f last_command"
| "materialize (Answered rc z s) = None"

text \<open>The second critical section.\<close>

definition receive_pop :: "tss \<Rightarrow> u32 \<Rightarrow> bool \<Rightarrow> fake_impl \<Rightarrow> u32 \<times> fake_impl" where
  "receive_pop T rc has_response s =
     (if rc = rc_success T \<and> has_response
      then (case script s of
              [] \<Rightarrow> (tcti_rc T BAD_SEQUENCE, s)
            | next # rest \<Rightarrow> (rc, s\<lparr>script := rest\<rparr>))
      else (rc, s))"

text \<open>\<open>Inr None\<close>: the exception of a factory passes through.\<close>

definition receive_next ::
  "tss \<Rightarrow> u64 option \<Rightarrow> byte list option \<Rightarrow> fake_impl \<Rightarrow>
   fault + (u32 \<times> u64 option \<times> byte list option \<times> fake_impl) option"
where
  "receive_next T sz response s =
     (case receive_front T s of
        Answered rc zeroed s \<Rightarrow>
          Inr (Some (rc, (if zeroed then map_option (\<lambda>_. 0) sz else sz), response, s))
      | taken \<Rightarrow>
          (case materialize taken of
             None \<Rightarrow> Inr None
           | Some bytes \<Rightarrow>
               bind_ok (copy_response T bytes sz response) (\<lambda>(rc, sz, response).
                 let (rc, s) = receive_pop T rc (response \<noteq> None) s
                 in Inr (Some (rc, sz, response, s)))))"

definition owner_from :: "ptr \<Rightarrow> fake_impl \<Rightarrow> bool" where
  "owner_from context s \<longleftrightarrow> (if context = None then False else has_owner (tcti_storage s))"

definition fake_receive ::
  "tss \<Rightarrow> ptr \<Rightarrow> u64 option \<Rightarrow> byte list option \<Rightarrow> fake_impl \<Rightarrow>
   fault + u32 \<times> u64 option \<times> byte list option \<times> fake_impl"
where
  "fake_receive T context sz response s =
     (if \<not> owner_from context s then Inr (tcti_rc T BAD_REFERENCE, sz, response, s)
      else bind_ok (receive_next T sz response s) (\<lambda>r.
        case r of
          Some reply \<Rightarrow> Inr reply
        | None \<Rightarrow> Inr (tcti_rc T GENERAL_FAILURE, sz, response, s)))"

definition observe_transmit :: "tss \<Rightarrow> u64 \<Rightarrow> byte list option \<Rightarrow> fake_impl \<Rightarrow> fault + u32 \<times> fake_impl" where
  "observe_transmit T sz command s =
     bind_ok (case command of
                None \<Rightarrow> Inr []
              | Some bytes \<Rightarrow> if sz = 0 then Inr [] else read_front (unat sz) bytes)
       (\<lambda>sent.
          let s = s\<lparr>transmit_count := transmit_count s + 1, commands_seen := commands_seen s @ [sent]\<rparr>
          in case script s of
               [] \<Rightarrow> Inr (tcti_rc T IO_ERROR, s)
             | Transmit_failure_rc rc # rest \<Rightarrow> Inr (rc, s\<lparr>script := rest\<rparr>)
             | next # rest \<Rightarrow> Inr (rc_success T, s))"

definition fake_transmit ::
  "tss \<Rightarrow> ptr \<Rightarrow> u64 \<Rightarrow> byte list option \<Rightarrow> fake_impl \<Rightarrow> fault + u32 \<times> fake_impl"
where
  "fake_transmit T context sz command s =
     (if \<not> owner_from context s \<or> sz > 0 \<and> command = None
      then Inr (tcti_rc T BAD_REFERENCE, s)
      else observe_transmit T sz command s)"

definition observe_finalize :: "fake_impl \<Rightarrow> fake_impl" where
  "observe_finalize s = s\<lparr>finalize_count := finalize_count s + 1\<rparr>"

definition fake_finalize :: "ptr \<Rightarrow> fake_impl \<Rightarrow> fake_impl" where
  "fake_finalize context s =
     (if context = None then s
      else let s = (if has_owner (tcti_storage s) then observe_finalize s else s)
           in s\<lparr>tcti_storage := (tcti_storage s)\<lparr>has_owner := False\<rparr>\<rparr>)"

definition fake_cancel :: "tss \<Rightarrow> ptr \<Rightarrow> u32" where
  "fake_cancel T context = (if context = None then tcti_rc T BAD_REFERENCE else rc_success T)"

definition fake_get_poll_handles :: "tss \<Rightarrow> ptr \<Rightarrow> u64 option \<Rightarrow> u32 \<times> u64 option" where
  "fake_get_poll_handles T context num_handles =
     (if context = None \<or> num_handles = None then (tcti_rc T BAD_REFERENCE, num_handles)
      else (rc_success T, Some 0))"

definition fake_set_locality :: "tss \<Rightarrow> ptr \<Rightarrow> byte \<Rightarrow> u32" where
  "fake_set_locality T context locality =
     (if context = None then tcti_rc T BAD_REFERENCE else rc_success T)"

section \<open>fake_tcti\<close>

text \<open>Every public member dereferences the pointer to the implementation.\<close>

definition through_impl :: "(fake_impl \<Rightarrow> 'a) \<Rightarrow> fake_tcti \<Rightarrow> fault + 'a" where
  "through_impl f fake = (case fake of None \<Rightarrow> Inl bad_dereference | Some s \<Rightarrow> Inr (f s))"

definition new_fake_tcti :: fake_tcti where
  "new_fake_tcti = Some new_fake_impl"

text \<open>The moves return the new target and the new source.\<close>

definition move_fake_tcti :: "fake_tcti \<Rightarrow> fake_tcti \<times> fake_tcti" where
  "move_fake_tcti other = (other, None)"

definition fake_push_failure :: "u32 \<Rightarrow> fake_tcti \<Rightarrow> fault + fake_tcti" where
  "fake_push_failure rc = through_impl (\<lambda>s. Some (impl_push_failure rc s))"

definition fake_push_transmit_failure :: "u32 \<Rightarrow> fake_tcti \<Rightarrow> fault + fake_tcti" where
  "fake_push_transmit_failure rc = through_impl (\<lambda>s. Some (impl_push_transmit_failure rc s))"

definition fake_push_response :: "byte list \<Rightarrow> fake_tcti \<Rightarrow> fault + fake_tcti" where
  "fake_push_response bs = through_impl (\<lambda>s. Some (impl_push_response bs s))"

definition fake_push_response_factory ::
  "(byte list \<Rightarrow> byte list option) \<Rightarrow> fake_tcti \<Rightarrow> fault + fake_tcti" where
  "fake_push_response_factory f = through_impl (\<lambda>s. Some (impl_push_response_factory f s))"

definition fake_pending_responses :: "fake_tcti \<Rightarrow> fault + u64" where
  "fake_pending_responses = through_impl impl_pending_responses"

definition fake_transmitted_commands :: "fake_tcti \<Rightarrow> fault + byte list list" where
  "fake_transmitted_commands = through_impl impl_transmitted_commands"

definition fake_transmits_observed :: "fake_tcti \<Rightarrow> fault + u64" where
  "fake_transmits_observed = through_impl impl_transmits_observed"

definition fake_finalizes_observed :: "fake_tcti \<Rightarrow> fault + u64" where
  "fake_finalizes_observed = through_impl impl_finalizes_observed"

section \<open>A client of the TCTI\<close>

text \<open>
  One command of a TSS library on a TCTI: transmit it, then receive into a buffer of \<open>cap\<close> bytes.
\<close>

datatype exchange_result = Replied "byte list" | Refused u32

definition exchange ::
  "tss \<Rightarrow> ptr \<Rightarrow> nat \<Rightarrow> byte list \<Rightarrow> fake_impl \<Rightarrow> fault + exchange_result \<times> fake_impl" where
  "exchange T context cap command s =
     bind_ok (fake_transmit T context (of_nat (length command)) (Some command) s) (\<lambda>(rc, s).
       if rc \<noteq> rc_success T then Inr (Refused rc, s)
       else bind_ok (fake_receive T context (Some (of_nat cap)) (Some (replicate cap 0)) s)
              (\<lambda>(rc, sz, response, s).
                 if rc \<noteq> rc_success T then Inr (Refused rc, s)
                 else Inr (Replied (take (unat (the sz)) (the response)), s)))"

fun exchanges ::
  "tss \<Rightarrow> ptr \<Rightarrow> nat \<Rightarrow> byte list list \<Rightarrow> fake_impl \<Rightarrow> fault + exchange_result list \<times> fake_impl" where
  "exchanges T context cap [] s = Inr ([], s)"
| "exchanges T context cap (c # cs) s =
     bind_ok (exchange T context cap c s) (\<lambda>(r, s).
       bind_ok (exchanges T context cap cs s) (\<lambda>(rs, s). Inr (r # rs, s)))"

text \<open>What the script promises for one command.\<close>

fun scripted_result :: "queued_result \<Rightarrow> byte list \<Rightarrow> exchange_result" where
  "scripted_result (Response_bytes bs) command = Replied bs"
| "scripted_result (Response_factory f) command =
     Replied (case f command of None \<Rightarrow> [] | Some bs \<Rightarrow> bs)"
| "scripted_result (Failure_rc rc) command = Refused rc"
| "scripted_result (Transmit_failure_rc rc) command = Refused rc"

text \<open>Entries a client with a buffer of \<open>cap\<close> bytes can use up: the code is a failure, the factory returns.\<close>

fun playable :: "tss \<Rightarrow> nat \<Rightarrow> queued_result \<Rightarrow> byte list \<Rightarrow> bool" where
  "playable T cap (Response_bytes bs) command \<longleftrightarrow> length bs \<le> cap"
| "playable T cap (Response_factory f) command \<longleftrightarrow>
     (case f command of None \<Rightarrow> False | Some bs \<Rightarrow> length bs \<le> cap)"
| "playable T cap (Failure_rc rc) command \<longleftrightarrow> rc \<noteq> rc_success T"
| "playable T cap (Transmit_failure_rc rc) command \<longleftrightarrow> rc \<noteq> rc_success T"

lemma u64_length: "n < 2 ^ 64 \<Longrightarrow> unat (of_nat n :: u64) = n"
  by (simp add: unat_of_nat)

lemma read_front_all: "read_front (length xs) xs = Inr xs"
  by (simp add: read_front_def)

lemma transmit_eq:
  assumes "context \<noteq> None" and "has_owner (tcti_storage s)" and "length command < 2 ^ 64"
  shows "fake_transmit T context (of_nat (length command)) (Some command) s =
    (let s = s\<lparr>transmit_count := transmit_count s + 1, commands_seen := commands_seen s @ [command]\<rparr>
     in case script s of
          [] \<Rightarrow> Inr (tcti_rc T IO_ERROR, s)
        | Transmit_failure_rc rc # rest \<Rightarrow> Inr (rc, s\<lparr>script := rest\<rparr>)
        | next # rest \<Rightarrow> Inr (rc_success T, s))"
proof -
  have "(of_nat (length command) :: u64) = 0 \<longleftrightarrow> command = []"
    using u64_length [OF assms(3)] unat_eq_zero [of "of_nat (length command) :: u64"] by simp
  moreover obtain h where "context = Some h" using assms(1) by blast
  ultimately show ?thesis
    using assms(2) u64_length [OF assms(3)]
    by (simp add: fake_transmit_def owner_from_def observe_transmit_def read_front_all)
qed

lemma copy_response_fits:
  assumes "length bs \<le> cap" and "cap < 2 ^ 64"
  shows "copy_response T bs (Some (of_nat cap)) (Some (replicate cap 0)) =
    Inr (rc_success T, Some (of_nat (length bs)), Some (bs @ replicate (cap - length bs) 0))"
proof -
  have "\<not> (of_nat cap :: u64) < of_nat (length bs)"
    using assms by (simp add: word_less_nat_alt u64_length)
  then show ?thesis using assms by (simp add: copy_response_def)
qed

lemma exchange_plays:
  assumes "context \<noteq> None" and "has_owner (tcti_storage s)" and "script s = q # rest"
    and "playable T cap q command" and "length command < 2 ^ 64" and "cap < 2 ^ 64"
  shows "exchange T context cap command s =
    Inr (scripted_result q command,
         s\<lparr>script := rest, transmit_count := transmit_count s + 1,
           commands_seen := commands_seen s @ [command]\<rparr>)"
proof -
  obtain h where "context = Some h" using assms(1) by blast
  with assms show ?thesis
    by (cases q)
       (simp_all add: exchange_def transmit_eq Let_def fake_receive_def owner_from_def receive_next_def
          receive_front_def receive_pop_def copy_response_fits u64_length split: option.splits)
qed

lemma exchanges_play:
  assumes "context \<noteq> None" and "cap < 2 ^ 64"
  shows "has_owner (tcti_storage s) \<Longrightarrow> script s = qs @ rest \<Longrightarrow> list_all2 (playable T cap) qs cmds \<Longrightarrow>
    list_all (\<lambda>c. length c < 2 ^ 64) cmds \<Longrightarrow>
    exchanges T context cap cmds s =
      Inr (map2 scripted_result qs cmds,
           s\<lparr>script := rest, transmit_count := transmit_count s + of_nat (length cmds),
             commands_seen := commands_seen s @ cmds\<rparr>)"
proof (induction cmds arbitrary: s qs)
  case Nil
  then show ?case by (cases qs) simp_all
next
  case (Cons c cs)
  then obtain q qs' where qs: "qs = q # qs'" "playable T cap q c" "list_all2 (playable T cap) qs' cs"
    by (cases qs) auto
  let ?s = "s\<lparr>script := qs' @ rest, transmit_count := transmit_count s + 1,
              commands_seen := commands_seen s @ [c]\<rparr>"
  have "exchange T context cap c s = Inr (scripted_result q c, ?s)"
    using Cons.prems qs assms by (intro exchange_plays) simp_all
  moreover have "exchanges T context cap cs ?s =
      Inr (map2 scripted_result qs' cs,
           ?s\<lparr>script := rest, transmit_count := transmit_count ?s + of_nat (length cs),
              commands_seen := commands_seen ?s @ cs\<rparr>)"
    using Cons.prems qs by (intro Cons.IH) simp_all
  ultimately show ?case using qs by (simp add: add.assoc)
qed

section \<open>Calls of several threads\<close>

text \<open>
  The machine of the fake and the threads that are between the two critical sections of a receive.
  \<open>pushed\<close> remembers what the test has programmed. With \<open>exclusive\<close>, a receive begins only when no
  other is under way, which is the use the header allows: one ESYS context at a time.
\<close>

record tcti_machine =
  the_fake :: fake_impl
  underway :: "nat \<Rightarrow> front option"
  pushed :: "queued_result list"

inductive tcti_step :: "tss \<Rightarrow> bool \<Rightarrow> tcti_machine \<Rightarrow> tcti_machine \<Rightarrow> bool" for T exclusive where
  Push: "tcti_step T exclusive M
     (M\<lparr>the_fake := (the_fake M)\<lparr>script := script (the_fake M) @ [q]\<rparr>, pushed := pushed M @ [q]\<rparr>)"
| Transmit: "fake_transmit T context sz command (the_fake M) = Inr (rc, s) \<Longrightarrow>
    tcti_step T exclusive M (M\<lparr>the_fake := s\<rparr>)"
| Finalize: "tcti_step T exclusive M (M\<lparr>the_fake := fake_finalize context (the_fake M)\<rparr>)"
| Receive_answered: "owner_from context (the_fake M) \<Longrightarrow> (exclusive \<Longrightarrow> underway M = (\<lambda>_. None)) \<Longrightarrow>
    receive_front T (the_fake M) = Answered rc zeroed s \<Longrightarrow>
    tcti_step T exclusive M (M\<lparr>the_fake := s\<rparr>)"
| Receive_begins: "owner_from context (the_fake M) \<Longrightarrow> (exclusive \<Longrightarrow> underway M = (\<lambda>_. None)) \<Longrightarrow>
    receive_front T (the_fake M) = fr \<Longrightarrow> (\<nexists>rc z s. fr = Answered rc z s) \<Longrightarrow> underway M t = None \<Longrightarrow>
    tcti_step T exclusive M (M\<lparr>underway := (underway M)(t \<mapsto> fr)\<rparr>)"
| Receive_throws: "underway M t = Some fr \<Longrightarrow> materialize fr = None \<Longrightarrow>
    tcti_step T exclusive M (M\<lparr>underway := (underway M)(t := None)\<rparr>)"
| Receive_ends: "underway M t = Some fr \<Longrightarrow> materialize fr = Some bytes \<Longrightarrow>
    copy_response T bytes sz response = Inr (rc, sz', response') \<Longrightarrow>
    receive_pop T rc (response' \<noteq> None) (the_fake M) = (rc', s) \<Longrightarrow>
    tcti_step T exclusive M (M\<lparr>underway := (underway M)(t := None), the_fake := s\<rparr>)"

inductive tcti_steps :: "tss \<Rightarrow> bool \<Rightarrow> tcti_machine \<Rightarrow> bool" for T exclusive where
  Start: "tcti_steps T exclusive \<lparr>the_fake = new_fake_impl, underway = \<lambda>_. None, pushed = []\<rparr>"
| Next: "tcti_steps T exclusive M \<Longrightarrow> tcti_step T exclusive M M' \<Longrightarrow> tcti_steps T exclusive M'"

fun taken_from :: "queued_result \<Rightarrow> front \<Rightarrow> bool" where
  "taken_from (Response_bytes bs) fr \<longleftrightarrow> fr = Scripted bs"
| "taken_from (Response_factory f) fr \<longleftrightarrow> (\<exists>c. fr = Dynamic f c)"
| "taken_from q fr \<longleftrightarrow> False"

text \<open>The queue is what was programmed without an initial part that was consumed, in its order.\<close>

definition in_order :: "tcti_machine \<Rightarrow> bool" where
  "in_order M \<longleftrightarrow> (\<exists>k \<le> length (pushed M). script (the_fake M) = drop k (pushed M))"

definition front_held :: "tcti_machine \<Rightarrow> bool" where
  "front_held M \<longleftrightarrow>
     (\<forall>t fr. underway M t = Some fr \<longrightarrow>
        (\<exists>q rest. script (the_fake M) = q # rest \<and> taken_from q fr) \<and>
        (\<forall>u. u \<noteq> t \<longrightarrow> underway M u = None))"

lemma in_orderI:
  assumes "in_order M" and "pushed M' = pushed M"
    and "script (the_fake M') = script (the_fake M) \<or>
         (\<exists>q. script (the_fake M) = q # script (the_fake M'))"
  shows "in_order M'"
proof -
  obtain k where k: "k \<le> length (pushed M)" "script (the_fake M) = drop k (pushed M)"
    using assms(1) by (auto simp: in_order_def)
  from assms(3) show ?thesis
  proof
    assume "script (the_fake M') = script (the_fake M)"
    with k assms(2) show ?thesis by (auto simp: in_order_def)
  next
    assume "\<exists>q. script (the_fake M) = q # script (the_fake M')"
    then obtain q where q: "drop k (pushed M) = q # script (the_fake M')" using k by auto
    then have "k < length (pushed M)" by (cases "k < length (pushed M)") simp_all
    moreover have "script (the_fake M') = drop (Suc k) (pushed M)" using q by (metis drop_Suc tl_drop list.sel(3))
    ultimately show ?thesis using assms(2) by (auto simp: in_order_def intro!: exI [of _ "Suc k"])
  qed
qed

lemma transmit_script:
  assumes "fake_transmit T context sz command s = Inr (rc, s')"
  shows "script s' = script s \<or> (\<exists>rc rest. script s = Transmit_failure_rc rc # rest \<and> script s' = rest)"
proof (cases "script s")
  case Nil
  with assms show ?thesis
    by (auto simp: fake_transmit_def observe_transmit_def Let_def bind_ok_Inr_iff split: if_splits)
next
  case (Cons q rest)
  with assms show ?thesis
    by (cases q) (auto simp: fake_transmit_def observe_transmit_def Let_def bind_ok_Inr_iff split: if_splits)
qed

lemma receive_pop_script:
  "receive_pop T rc has_response s = (rc', s') \<Longrightarrow>
   script s' = script s \<or> (\<exists>q. script s = q # script s')"
  by (auto simp: receive_pop_def split: if_splits list.splits)

lemma receive_front_script:
  "receive_front T s = Answered rc z s' \<Longrightarrow> script s' = script s \<or> (\<exists>rc. script s = Failure_rc rc # script s')"
  by (auto simp: receive_front_def split: list.splits queued_result.splits)

lemma receive_front_taken:
  "receive_front T s = fr \<Longrightarrow> (\<nexists>rc z s'. fr = Answered rc z s') \<Longrightarrow>
   \<exists>q rest. script s = q # rest \<and> taken_from q fr"
  by (auto simp: receive_front_def split: list.splits queued_result.splits)

lemma fake_finalize_script [simp]: "script (fake_finalize context s) = script s"
  by (simp add: fake_finalize_def observe_finalize_def Let_def)

lemma tcti_step_in_order: "tcti_step T exclusive M M' \<Longrightarrow> in_order M \<Longrightarrow> in_order M'"
proof (induction rule: tcti_step.induct)
  case (Push M q)
  then obtain k where "k \<le> length (pushed M)" "script (the_fake M) = drop k (pushed M)"
    by (auto simp: in_order_def)
  then show ?case by (auto simp: in_order_def intro!: exI [of _ k])
next
  case (Transmit ctx sz command M rc s)
  show ?case
    using transmit_script [OF Transmit(1)] by (intro in_orderI [OF Transmit(2)]) auto
next
  case (Finalize M ctx)
  then show ?case by (rule in_orderI) simp_all
next
  case (Receive_answered ctx M rc zeroed s)
  show ?case
    using receive_front_script [OF Receive_answered(3)] by (intro in_orderI [OF Receive_answered(4)]) auto
next
  case (Receive_ends M t fr bytes sz response rc sz' response' rc' s)
  show ?case
    using receive_pop_script [OF Receive_ends(4)] by (intro in_orderI [OF Receive_ends(5)]) auto
qed (auto intro: in_orderI)

lemma tcti_step_front_held: "tcti_step T True M M' \<Longrightarrow> front_held M \<Longrightarrow> front_held M'"
proof (induction rule: tcti_step.induct)
  case (Push M q)
  then show ?case by (fastforce simp: front_held_def)
next
  case (Transmit ctx sz command M rc s)
  then show ?case
    using transmit_script [OF Transmit(1)] by (fastforce simp: front_held_def)
next
  case (Receive_begins ctx M fr t)
  then show ?case
    using receive_front_taken [OF Receive_begins(3,4)] by (auto simp: front_held_def)
next
  case (Receive_ends M t fr bytes sz response rc sz' response' rc' s)
  then show ?case by (auto simp: front_held_def split: if_splits)
qed (auto simp: front_held_def)

lemma tcti_steps_in_order: "tcti_steps T exclusive M \<Longrightarrow> in_order M"
proof (induction rule: tcti_steps.induct)
  case Start
  show ?case by (simp add: in_order_def new_fake_impl_def)
qed (rule tcti_step_in_order)

lemma tcti_steps_front_held: "tcti_steps T True M \<Longrightarrow> front_held M"
proof (induction rule: tcti_steps.induct)
  case Start
  show ?case by (simp add: front_held_def)
qed (rule tcti_step_front_held)

lemma tcti_rc_fails: "rcs_documented T \<Longrightarrow> tcti_rc T b \<noteq> rc_success T"
  using rcs_inj(1) [of T TCTI_layer TPM_layer] rcs_facts(1,4) [of T] by (simp add: tcti_rc_def or_eq_0_iff)

section \<open>Properties\<close>

text \<open>
  C28: A script is played out: a client that sends as many commands as the queue has entries gets
  every programmed outcome, in the order of programming, one for each command; at the end the queue
  is empty and the fake has seen exactly the commands, in order. The script must be playable: each
  response fits the client's buffer, a factory answers the command it meets and does not throw, and a
  programmed failure code is not the code of success.
\<close>
theorem script_delivered:
  assumes "context \<noteq> None" and "has_owner (tcti_storage s)" and "cap < 2 ^ 64"
    and "list_all2 (playable T cap) (script s) cmds" and "list_all (\<lambda>c. length c < 2 ^ 64) cmds"
  shows "\<exists>s'. exchanges T context cap cmds s = Inr (map2 scripted_result (script s) cmds, s') \<and>
    script s' = [] \<and> commands_seen s' = commands_seen s @ cmds \<and>
    transmit_count s' = transmit_count s + of_nat (length cmds)"
  using exchanges_play [OF assms(1,3,2), of "script s" "[]" T cmds] assms(4,5) by simp

definition lab_script :: fake_impl where
  "lab_script =
     impl_push_failure 0xa000a (impl_push_response_factory (\<lambda>c. Some (rev c))
       (impl_push_transmit_failure 0xa0009 (impl_push_response [0x80, 1] new_fake_impl)))"

lemma script_delivered_witness:
  "\<exists>s'. exchanges tss_4_1 (Some 1) 16 [[1], [2], [3, 4], [5]] lab_script =
      Inr (map2 scripted_result (script lab_script) [[1], [2], [3, 4], [5]], s') \<and>
    script s' = [] \<and> commands_seen s' = commands_seen lab_script @ [[1], [2], [3, 4], [5]] \<and>
    transmit_count s' = transmit_count lab_script + of_nat (length [[1], [2], [3, 4], [5 :: byte]])"
  by (rule script_delivered)
     (simp_all add: lab_script_def impl_push_failure_def impl_push_response_factory_def
        impl_push_transmit_failure_def impl_push_response_def new_fake_impl_def tss_4_1_fields)

text \<open>
  A response is not lost to a client that asks for its size first or offers a buffer that is
  too small: both calls report the exact size and leave the fake as it was, and the call with a
  buffer of that size, or larger, is answered with the bytes and uses the entry up.
\<close>
theorem response_kept_until_read:
  assumes "context \<noteq> None" and "has_owner (tcti_storage s)" and "script s = Response_bytes bs # rest"
    and "n < length bs" and "length bs \<le> cap" and "cap < 2 ^ 64" and "rcs_documented T"
  shows "fake_receive T context (Some 0) None s = Inr (rc_success T, Some (of_nat (length bs)), None, s) \<and>
    fake_receive T context (Some (of_nat n)) (Some (replicate n 0)) s =
      Inr (tcti_rc T INSUFFICIENT_BUFFER, Some (of_nat (length bs)), Some (replicate n 0), s) \<and>
    fake_receive T context (Some (of_nat cap)) (Some (replicate cap 0)) s =
      Inr (rc_success T, Some (of_nat (length bs)), Some (bs @ replicate (cap - length bs) 0), s\<lparr>script := rest\<rparr>)"
proof -
  obtain h where "context = Some h" using assms(1) by blast
  moreover have "(of_nat n :: u64) < of_nat (length bs)"
    using assms(4-6) by (simp add: word_less_nat_alt u64_length)
  ultimately show ?thesis
    using assms copy_response_fits [OF assms(5,6), of T] tcti_rc_fails [OF assms(7)]
    by (simp add: fake_receive_def owner_from_def receive_next_def receive_front_def receive_pop_def)
       (simp add: copy_response_def)
qed

lemma response_kept_until_read_witness:
  "fake_receive tss_4_1 (Some 1) (Some 0) None lab_script = Inr (0, Some (of_nat (length [0x80, 1 :: byte])), None, lab_script) \<and>
   fake_receive tss_4_1 (Some 1) (Some (of_nat 1)) (Some (replicate 1 0)) lab_script =
     Inr (tcti_rc tss_4_1 INSUFFICIENT_BUFFER, Some (of_nat (length [0x80, 1 :: byte])), Some (replicate 1 0), lab_script) \<and>
   fake_receive tss_4_1 (Some 1) (Some (of_nat 8)) (Some (replicate 8 0)) lab_script =
     Inr (0, Some (of_nat (length [0x80, 1 :: byte])), Some ([0x80, 1] @ replicate (8 - length [0x80, 1 :: byte]) 0),
          lab_script\<lparr>script := [Transmit_failure_rc 0xa0009, Response_factory (\<lambda>c. Some (rev c)), Failure_rc 0xa000a]\<rparr>)"
proof -
  have "has_owner (tcti_storage lab_script)"
    "script lab_script = Response_bytes [0x80, 1] #
       [Transmit_failure_rc 0xa0009, Response_factory (\<lambda>c. Some (rev c)), Failure_rc 0xa000a]"
    by (simp_all add: lab_script_def impl_push_failure_def impl_push_response_factory_def
        impl_push_transmit_failure_def impl_push_response_def new_fake_impl_def)
  note kept = response_kept_until_read [OF _ this, of "Some 1" 1 8 tss_4_1]
  then show ?thesis by (simp add: tss_4_1_fields)
qed

text \<open>
  C30: Finalizing cuts the fake off, once: it is counted the first time only, and every transmit
  and receive that follows is refused with a bad reference and changes nothing, neither the queue
  nor the counters nor the caller's buffer.
\<close>
theorem finalize_cuts_traffic:
  assumes "context \<noteq> None" and "has_owner (tcti_storage s)"
  shows "let f = fake_finalize context s in
    finalize_count f = finalize_count s + 1 \<and> script f = script s \<and> commands_seen f = commands_seen s \<and>
    fake_finalize context' f = f \<and>
    fake_transmit T context' n command f = Inr (tcti_rc T BAD_REFERENCE, f) \<and>
    fake_receive T context' sz response f = Inr (tcti_rc T BAD_REFERENCE, sz, response, f)"
  using assms
  by (auto simp: Let_def fake_finalize_def observe_finalize_def fake_transmit_def fake_receive_def
      owner_from_def)

lemma finalize_cuts_traffic_witness:
  "let f = fake_finalize (Some 1) lab_script in
    finalize_count f = finalize_count lab_script + 1 \<and> script f = script lab_script \<and>
    commands_seen f = commands_seen lab_script \<and> fake_finalize (Some 1) f = f \<and>
    fake_transmit tss_4_1 (Some 1) 1 (Some [9]) f = Inr (tcti_rc tss_4_1 BAD_REFERENCE, f) \<and>
    fake_receive tss_4_1 (Some 1) (Some 2) (Some [0, 0]) f =
      Inr (tcti_rc tss_4_1 BAD_REFERENCE, Some 2, Some [0, 0], f)"
  by (rule finalize_cuts_traffic)
     (simp_all add: lab_script_def impl_push_failure_def impl_push_response_factory_def
        impl_push_transmit_failure_def impl_push_response_def new_fake_impl_def)

text \<open>
  C29: However pushes, transmits, finalizes and receives of any number of threads interleave, with the
  two critical sections of each receive as separate steps, the queue is what was programmed without an
  initial part, in its order: nothing is reordered, duplicated or dropped from the middle. When, besides,
  a receive begins only while no other is under way, then between the two sections of a receive, whatever
  the other threads do there, the entry in front is still the one whose response was taken, and a second
  section that delivers removes exactly that entry.
\<close>
theorem receive_atomic_enough:
  assumes "tcti_steps T exclusive M"
  shows "(\<exists>consumed. pushed M = consumed @ script (the_fake M)) \<and>
    (exclusive \<and> underway M t = Some fr \<longrightarrow>
      (\<exists>q rest. script (the_fake M) = q # rest \<and> taken_from q fr \<and>
        receive_pop T (rc_success T) True (the_fake M) = (rc_success T, (the_fake M)\<lparr>script := rest\<rparr>)))"
proof (intro conjI impI)
  show "\<exists>consumed. pushed M = consumed @ script (the_fake M)"
    using tcti_steps_in_order [OF assms] unfolding in_order_def by (metis append_take_drop_id)
next
  assume "exclusive \<and> underway M t = Some fr"
  then have held: "underway M t = Some fr" and "tcti_steps T True M" using assms by auto
  from this(2) have "front_held M" by (rule tcti_steps_front_held)
  with held obtain q rest where "script (the_fake M) = q # rest" "taken_from q fr"
    unfolding front_held_def by blast
  then show "\<exists>q rest. script (the_fake M) = q # rest \<and> taken_from q fr \<and>
        receive_pop T (rc_success T) True (the_fake M) = (rc_success T, (the_fake M)\<lparr>script := rest\<rparr>)"
    by (simp add: receive_pop_def)
qed

definition lab_machine :: tcti_machine where
  "lab_machine =
     \<lparr>the_fake = impl_push_response [7] new_fake_impl, underway = [3 \<mapsto> Scripted [7]], pushed = [Response_bytes [7]]\<rparr>"

lemma lab_machine_reached: "tcti_steps T True lab_machine"
proof -
  let ?M0 = "\<lparr>the_fake = new_fake_impl, underway = \<lambda>_. None, pushed = []\<rparr>"
  let ?M1 = "?M0\<lparr>the_fake := (the_fake ?M0)\<lparr>script := script (the_fake ?M0) @ [Response_bytes [7]]\<rparr>,
                pushed := pushed ?M0 @ [Response_bytes [7]]\<rparr>"
  have "tcti_steps T True ?M1" by (rule tcti_steps.Next [OF tcti_steps.Start tcti_step.Push])
  moreover have "tcti_step T True ?M1 (?M1\<lparr>underway := (underway ?M1)(3 \<mapsto> Scripted [7])\<rparr>)"
    by (rule tcti_step.Receive_begins [of "Some 1"])
       (simp_all add: owner_from_def new_fake_impl_def receive_front_def)
  ultimately have "tcti_steps T True (?M1\<lparr>underway := (underway ?M1)(3 \<mapsto> Scripted [7])\<rparr>)"
    by (rule tcti_steps.Next)
  then show ?thesis by (simp add: lab_machine_def impl_push_response_def new_fake_impl_def)
qed

lemma receive_atomic_enough_witness:
  "(\<exists>consumed. pushed lab_machine = consumed @ script (the_fake lab_machine)) \<and>
    (\<exists>q rest. script (the_fake lab_machine) = q # rest \<and> taken_from q (Scripted [7]) \<and>
      receive_pop tss_4_1 (rc_success tss_4_1) True (the_fake lab_machine) =
        (rc_success tss_4_1, (the_fake lab_machine)\<lparr>script := rest\<rparr>))"
proof -
  have "underway lab_machine 3 = Some (Scripted [7])" by (simp add: lab_machine_def)
  with receive_atomic_enough [OF lab_machine_reached, of 3 "Scripted [7]"] show ?thesis by blast
qed

end
