(* ===== verification/Fake_Tpm_Context.thy ===== *)
theory Fake_Tpm_Context
  imports Tpm_Context
begin

text \<open>
  \<^verbatim>\<open>src/adapters/mock/fake_tpm_context.cpp\<close>: the test substitute of a TPM context, which checks its
  configuration and keeps it. It repeats the checks of the real context in code of its own; the
  property of this theory is that the two agree on every configuration.
\<close>

definition fake_is_space :: "char \<Rightarrow> bool" where
  "fake_is_space c \<longleftrightarrow> (let n = (of_char c :: nat) in n = 32 \<or> 9 \<le> n \<and> n \<le> 13)"

function fake_trim_first :: "string \<Rightarrow> nat \<Rightarrow> nat \<Rightarrow> nat" where
  "fake_trim_first value lo hi =
     (if lo < hi \<and> fake_is_space (value ! lo) then fake_trim_first value (lo + 1) hi else lo)"
  by pat_completeness auto
termination by (relation "measure (\<lambda>(value, lo, hi). hi - lo)") auto

function fake_trim_last :: "string \<Rightarrow> nat \<Rightarrow> nat \<Rightarrow> nat" where
  "fake_trim_last value lo hi =
     (if hi > lo \<and> fake_is_space (value ! (hi - 1)) then fake_trim_last value lo (hi - 1) else hi)"
  by pat_completeness auto
termination by (relation "measure (\<lambda>(value, lo, hi). hi)") auto

declare fake_trim_first.simps [simp del] fake_trim_last.simps [simp del]

definition fake_trim :: "string \<Rightarrow> string" where
  "fake_trim value =
     (let lo = fake_trim_first value 0 (length value);
          hi = fake_trim_last value lo (length value)
      in take (hi - lo) (drop lo value))"

definition fake_has_name_args_shape :: "string \<Rightarrow> bool" where
  "fake_has_name_args_shape value \<longleftrightarrow>
     (let colon = find_char (CHR '':'') value in colon \<noteq> None \<and> the colon > 0)"

definition is_valid_string_config :: "string \<Rightarrow> bool" where
  "is_valid_string_config config \<longleftrightarrow>
     (let trimmed = fake_trim config in
      trimmed \<noteq> [] \<and> length trimmed = length config \<and> fake_has_name_args_shape trimmed)"

fun fake_is_valid_startup_mode :: "startup_mode \<Rightarrow> bool" where
  "fake_is_valid_startup_mode startup_clear = True"
| "fake_is_valid_startup_mode startup_state = True"
| "fake_is_valid_startup_mode startup_skip = True"
| "fake_is_valid_startup_mode (unlisted_mode n) = False"

definition fake_validate :: "tpm_context_config \<Rightarrow> tpm_context_config outcome" where
  "fake_validate config =
     (if \<not> fake_is_valid_startup_mode (cfg_startup config)
      then Inl (err input_error ''TPM startup mode is invalid'')
      else if \<not> is_valid_string_config (cfg_tcti config)
      then Inl (err input_error ''TCTI configuration must use name:args format'')
      else Inr config)"

record fake_tpm_context =
  fake_config :: tpm_context_config

definition fake_context_create :: "tpm_context_config \<Rightarrow> fake_tpm_context outcome" where
  "fake_context_create config =
     (case fake_validate config of
        Inl e \<Rightarrow> Inl e
      | Inr validated \<Rightarrow> Inr \<lparr>fake_config = validated\<rparr>)"

definition fake_context_create_string ::
  "string \<Rightarrow> startup_mode \<Rightarrow> logger_ref option \<Rightarrow> fake_tpm_context outcome" where
  "fake_context_create_string tcti_config startup log =
     fake_context_create \<lparr>cfg_tcti = tcti_config, cfg_startup = startup, cfg_log = log\<rparr>"

definition fake_last_config :: "fake_tpm_context \<Rightarrow> tpm_context_config" where
  "fake_last_config ctx = fake_config ctx"

definition fake_create_pcr_provider :: "fake_tpm_context \<Rightarrow> bool \<Rightarrow> provider outcome" where
  "fake_create_pcr_provider ctx has_observer =
     Inl (err resource_error ''Fake TPM context has no TPM backend'')"

section \<open>Agreement with the real context\<close>

lemma fake_is_space_eq: "fake_is_space = is_space"
  by (simp add: fun_eq_iff fake_is_space_def is_space_def)

lemma fake_trim_first_eq: "fake_trim_first v lo hi = trim_first v lo hi"
  by (induction v lo hi rule: trim_first.induct)
     (simp add: fake_trim_first.simps trim_first.simps fake_is_space_eq)

lemma fake_trim_last_eq: "fake_trim_last v lo hi = trim_last v lo hi"
  by (induction v lo hi rule: trim_last.induct)
     (simp add: fake_trim_last.simps trim_last.simps fake_is_space_eq)

lemma fake_trim_eq: "fake_trim v = trim v"
  by (simp add: fake_trim_def trim_def fake_trim_first_eq fake_trim_last_eq)

lemma fake_shape_eq: "fake_has_name_args_shape v = has_name_args_shape v"
  by (auto simp: fake_has_name_args_shape_def has_name_args_shape_def Let_def split: option.splits)

lemma is_valid_string_config_iff: "is_valid_string_config v \<longleftrightarrow> wf_tcti_config v"
proof -
  have "is_valid_string_config v \<longleftrightarrow> (\<exists>t. validate_config v = Inr t)"
    by (simp add: is_valid_string_config_def validate_config_def fake_trim_eq fake_shape_eq Let_def)
  then show ?thesis by (simp add: validate_config_eq)
qed

lemma fake_startup_eq: "fake_is_valid_startup_mode m = is_valid_startup_mode m"
  by (cases m) simp_all

lemma fake_validate_eq:
  "fake_validate config =
     (if \<not> is_valid_startup_mode (cfg_startup config)
      then Inl (err input_error ''TPM startup mode is invalid'')
      else if \<not> wf_tcti_config (cfg_tcti config)
      then Inl (err input_error ''TCTI configuration must use name:args format'')
      else Inr config)"
  by (simp add: fake_validate_def fake_startup_eq is_valid_string_config_iff)

lemma resolve_rejected:
  "\<not> wf_tcti_config config \<Longrightarrow>
   resolve_tcti T H api config w = (fails (err input_error ''TCTI configuration must use name:args format''), w)"
  by (simp add: resolve_tcti_def sanitized_name_empty_iff load_tcti_def validate_config_eq
      tcti_invalid_message_def Let_def)

lemma resolve_asks_name:
  assumes "wf_tcti_config config"
  shows "\<exists>pre rest. actions (snd (resolve_tcti T H api config w)) =
      actions w @ map Logged pre @ Called (Tcti_GetInfo (c_str (tcti_name config))) # rest"
proof -
  let ?name = "sanitized_tcti_name config"
  let ?w = "if ?name \<noteq> [] then write_log (log_tcti_event ev_tcti_configuring ''string'' ?name) w else w"
  let ?pre = "if ?name \<noteq> [] then log_tcti_event ev_tcti_configuring ''string'' ?name else []"
  obtain rest where rest: "actions (snd (load_tcti T H api config ?w)) =
      actions ?w @ Called (Tcti_GetInfo (c_str (tcti_name config))) # rest"
    using load_tcti_asks_name [OF assms] by blast
  obtain r w' where load: "load_tcti T H api config ?w = (r, w')" by fastforce
  have w: "actions ?w = actions w @ map Logged ?pre" by (simp add: write_log_def)
  have w': "actions w' = actions w @ map Logged ?pre @ Called (Tcti_GetInfo (c_str (tcti_name config))) # rest"
    using rest load w by simp
  have "\<exists>more. actions (snd (resolve_tcti T H api config w)) = actions w' @ more"
    using load by (cases r rule: try_cases) (auto simp: resolve_tcti_def Let_def write_log_def)
  then show ?thesis using w' by auto
qed

section \<open>Properties\<close>

text \<open>
  The fake context and the real one judge every configuration alike. A configuration that the
  fake rejects makes the real creation fail with the same error before it logs or calls anything;
  one that the fake accepts is kept as it is, passes the checks of the real creation, and makes it
  ask the loader for the TCTI, with nothing but log records before that.
\<close>
theorem fake_context_agrees:
  "case fake_context_create config of
     Inl e \<Rightarrow> create_context_from_config T H tcti_api api config w = (fails e, w)
   | Inr ctx \<Rightarrow> fake_last_config ctx = config \<and> validate_context_config config = Inr () \<and>
       (\<exists>pre rest. actions (snd (resolve_tcti T H tcti_api (cfg_tcti config) w)) =
          actions w @ map Logged pre @ Called (Tcti_GetInfo (c_str (tcti_name (cfg_tcti config)))) # rest)"
  using resolve_asks_name [of "cfg_tcti config" T H tcti_api w] resolve_rejected [of "cfg_tcti config" T H tcti_api w]
  by (auto simp: fake_context_create_def fake_validate_eq fake_last_config_def validate_context_config_def
      create_context_from_config_def split: if_splits)

end
