(* ===== verification/Secret_Buffer.thy ===== *)
theory Secret_Buffer
  imports Prelude
begin

text \<open>
  \<^verbatim>\<open>src/domain/secret_buffer.cpp\<close> and \<^verbatim>\<open>secret_buffer_testing.h\<close>: a move-only owner of secret bytes
  that pins them in memory while it lives and overwrites them before their storage goes back to the
  allocator. \<^verbatim>\<open>mlock\<close>, \<^verbatim>\<open>munlock\<close> (\<^verbatim>\<open>VirtualLock\<close>, \<^verbatim>\<open>VirtualUnlock\<close>) and \<^verbatim>\<open>OPENSSL_cleanse\<close> are
  not part of the repository: they are the fields of the record \<open>platform\<close>, over an arbitrary state
  \<open>'o\<close> of the operating system.
\<close>

record 'o platform =
  plat_lock :: "nat \<Rightarrow> nat \<Rightarrow> 'o \<Rightarrow> bool \<times> 'o"
  plat_unlock :: "nat \<Rightarrow> nat \<Rightarrow> 'o \<Rightarrow> 'o"
  plat_cleanse :: "byte list \<Rightarrow> byte list"

text \<open>What \<^verbatim>\<open>OPENSSL_cleanse\<close> promises: the bytes are overwritten with zeros.\<close>

definition cleanse_documented :: "'o platform \<Rightarrow> bool" where
  "cleanse_documented P \<longleftrightarrow> (\<forall>bs. plat_cleanse P bs = replicate (length bs) 0)"

text \<open>
  The test observer: which of its callbacks are not null, and the calls they get.
\<close>

record lifecycle_observer =
  has_on_cleanse :: bool
  has_on_lock_attempt :: bool
  has_on_unlock :: bool

datatype notice =
    Cleansed "byte list"
  | Lock_attempt nat bool
  | Unlocked nat

text \<open>
  Heap storage: the bytes of every allocated block (a vector's whole capacity), the blocks pinned at
  the moment, and the blocks handed back with the bytes they held then. \<open>secret_size\<close> is a ghost:
  how many bytes at the front of the block were given to a secret buffer. A block counts as unpinned
  once \<^verbatim>\<open>munlock\<close> was called on it: the code does not look at what that call returns, and neither does
  the model, so a \<^verbatim>\<open>munlock\<close> that fails is outside what is shown.
\<close>

record block =
  block_bytes :: "byte list"
  secret_size :: nat

record 'o memory =
  os :: 'o
  blocks :: "nat \<Rightarrow> block option"
  pinned :: "nat set"
  released :: "block list"
  active_observer :: "lifecycle_observer option"
  notices :: "notice list"

text \<open>A \<^verbatim>\<open>std::vector<std::uint8_t>\<close>: its data pointer (\<open>None\<close> is null) and its size.\<close>

record byte_vector =
  vec_data :: "nat option"
  vec_size :: nat

record secret_impl =
  si_data :: byte_vector
  si_locked :: bool

text \<open>The \<^verbatim>\<open>std::unique_ptr<impl>\<close>; \<open>None\<close> is a moved-from or default constructed buffer.\<close>

type_synonym secret_buffer = "secret_impl option"

definition set_lifecycle_observer :: "lifecycle_observer option \<Rightarrow> 'o memory \<Rightarrow> 'o memory" where
  "set_lifecycle_observer ob m = m\<lparr>active_observer := ob\<rparr>"

definition observe_if :: "(lifecycle_observer \<Rightarrow> bool) \<Rightarrow> notice \<Rightarrow> 'o memory \<Rightarrow> 'o memory" where
  "observe_if has n m =
     (case active_observer m of
        None \<Rightarrow> m
      | Some ob \<Rightarrow> if has ob then m\<lparr>notices := notices m @ [n]\<rparr> else m)"

text \<open>The bytes of a vector: the front of its block.\<close>

definition vec_bytes :: "'o memory \<Rightarrow> byte_vector \<Rightarrow> byte list" where
  "vec_bytes m v =
     (case vec_data v of
        None \<Rightarrow> []
      | Some a \<Rightarrow> (case blocks m a of None \<Rightarrow> [] | Some b \<Rightarrow> take (vec_size v) (block_bytes b)))"

definition cleanse :: "'o platform \<Rightarrow> byte_vector \<Rightarrow> 'o memory \<Rightarrow> 'o memory" where
  "cleanse P v m =
     (if vec_size v = 0 then m
      else case vec_data v of
        None \<Rightarrow> m
      | Some a \<Rightarrow>
          (case blocks m a of
             None \<Rightarrow> m
           | Some b \<Rightarrow>
               let bytes = plat_cleanse P (take (vec_size v) (block_bytes b)) @
                           drop (vec_size v) (block_bytes b);
                   m = m\<lparr>blocks := (blocks m)(a \<mapsto> b\<lparr>block_bytes := bytes\<rparr>)\<rparr>
               in observe_if has_on_cleanse (Cleansed (take (vec_size v) bytes)) m))"

definition lock_memory :: "'o platform \<Rightarrow> nat option \<Rightarrow> nat \<Rightarrow> 'o memory \<Rightarrow> bool \<times> 'o memory" where
  "lock_memory P data sz m =
     (case data of
        None \<Rightarrow> (False, m)
      | Some a \<Rightarrow>
          if sz = 0 then (False, m)
          else let (locked, os') = plat_lock P a sz (os m);
                   m = m\<lparr>os := os', pinned := (if locked then insert a (pinned m) else pinned m)\<rparr>
               in (locked, observe_if has_on_lock_attempt (Lock_attempt sz locked) m))"

definition unlock_memory :: "'o platform \<Rightarrow> nat option \<Rightarrow> nat \<Rightarrow> 'o memory \<Rightarrow> 'o memory" where
  "unlock_memory P data sz m =
     (case data of
        None \<Rightarrow> m
      | Some a \<Rightarrow>
          if sz = 0 then m
          else let m = m\<lparr>os := plat_unlock P a sz (os m), pinned := pinned m - {a}\<rparr>
               in observe_if has_on_unlock (Unlocked sz) m)"

text \<open>The destructor of a vector: its block goes back to the allocator.\<close>

definition release_vector :: "byte_vector \<Rightarrow> 'o memory \<Rightarrow> 'o memory" where
  "release_vector v m =
     (case vec_data v of
        None \<Rightarrow> m
      | Some a \<Rightarrow>
          (case blocks m a of
             None \<Rightarrow> m
           | Some b \<Rightarrow> m\<lparr>blocks := (blocks m)(a := None), released := released m @ [b]\<rparr>))"

section \<open>secret_buffer::impl\<close>

definition new_impl :: "'o platform \<Rightarrow> byte_vector \<Rightarrow> 'o memory \<Rightarrow> secret_impl \<times> 'o memory" where
  "new_impl P data m =
     (let (locked, m) = lock_memory P (vec_data data) (vec_size data) m
      in (\<lparr>si_data = data, si_locked = locked\<rparr>, m))"

definition impl_clear :: "'o platform \<Rightarrow> secret_impl \<Rightarrow> 'o memory \<Rightarrow> secret_impl \<times> 'o memory" where
  "impl_clear P si m =
     (if vec_size (si_data si) = 0 then (si, m)
      else let (si, m) =
                 (if si_locked si
                  then (si\<lparr>si_locked := False\<rparr>,
                        unlock_memory P (vec_data (si_data si)) (vec_size (si_data si)) m)
                  else (si, m));
               m = cleanse P (si_data si) m
           in (si\<lparr>si_data := (si_data si)\<lparr>vec_size := 0\<rparr>\<rparr>, m))"

definition destroy_impl :: "'o platform \<Rightarrow> secret_impl \<Rightarrow> 'o memory \<Rightarrow> 'o memory" where
  "destroy_impl P si m = (let (si, m) = impl_clear P si m in release_vector (si_data si) m)"

section \<open>secret_buffer\<close>

definition new_empty_secret :: secret_buffer where
  "new_empty_secret = None"

definition new_secret_buffer :: "'o platform \<Rightarrow> byte_vector \<Rightarrow> 'o memory \<Rightarrow> secret_buffer \<times> 'o memory" where
  "new_secret_buffer P data m = (let (si, m) = new_impl P data m in (Some si, m))"

definition destroy_secret :: "'o platform \<Rightarrow> secret_buffer \<Rightarrow> 'o memory \<Rightarrow> 'o memory" where
  "destroy_secret P s m = (case s of None \<Rightarrow> m | Some si \<Rightarrow> destroy_impl P si m)"

text \<open>The moves return the new value of the target and of the source.\<close>

definition move_construct :: "secret_buffer \<Rightarrow> secret_buffer \<times> secret_buffer" where
  "move_construct other = (other, None)"

definition move_assign ::
  "'o platform \<Rightarrow> secret_buffer \<Rightarrow> secret_buffer \<Rightarrow> 'o memory \<Rightarrow> (secret_buffer \<times> secret_buffer) \<times> 'o memory" where
  "move_assign P target source m = ((source, None), destroy_secret P target m)"

definition secret_is_empty :: "secret_buffer \<Rightarrow> bool" where
  "secret_is_empty s \<longleftrightarrow> (case s of None \<Rightarrow> True | Some si \<Rightarrow> vec_size (si_data si) = 0)"

definition secret_length :: "secret_buffer \<Rightarrow> nat" where
  "secret_length s = (case s of None \<Rightarrow> 0 | Some si \<Rightarrow> vec_size (si_data si))"

definition secret_view :: "'o memory \<Rightarrow> secret_buffer \<Rightarrow> byte list" where
  "secret_view m s =
     (case s of
        None \<Rightarrow> []
      | Some si \<Rightarrow> if vec_size (si_data si) = 0 then [] else vec_bytes m (si_data si))"

section \<open>A program that uses secret buffers\<close>

text \<open>
  Variables \<open>x\<close> that hold secret buffers. \<open>Build\<close> constructs one from a vector in the fresh block
  \<open>a\<close> with \<open>n\<close> elements; the other steps are the moves and the destructor. A variable of \<open>None\<close> has
  no object, or one without \<^verbatim>\<open>impl\<close>, which behaves the same.
\<close>

record 'o secrets =
  vars :: "nat \<Rightarrow> secret_buffer"
  mem :: "'o memory"

inductive secret_step :: "'o platform \<Rightarrow> 'o secrets \<Rightarrow> 'o secrets \<Rightarrow> bool" for P where
  Build: "vars s x = None \<Longrightarrow> blocks (mem s) a = None \<Longrightarrow> n \<le> length bs \<Longrightarrow>
    new_secret_buffer P \<lparr>vec_data = Some a, vec_size = n\<rparr>
      ((mem s)\<lparr>blocks := (blocks (mem s))(a \<mapsto> \<lparr>block_bytes = bs, secret_size = n\<rparr>)\<rparr>) = (b, m) \<Longrightarrow>
    secret_step P s (s\<lparr>vars := (vars s)(x := b), mem := m\<rparr>)"
| Build_null: "vars s x = None \<Longrightarrow>
    new_secret_buffer P \<lparr>vec_data = None, vec_size = 0\<rparr> (mem s) = (b, m) \<Longrightarrow>
    secret_step P s (s\<lparr>vars := (vars s)(x := b), mem := m\<rparr>)"
| Move: "x \<noteq> y \<Longrightarrow> vars s x = None \<Longrightarrow> move_construct (vars s y) = (b, c) \<Longrightarrow>
    secret_step P s (s\<lparr>vars := (vars s)(x := b, y := c)\<rparr>)"
| Assign: "x \<noteq> y \<Longrightarrow> move_assign P (vars s x) (vars s y) (mem s) = ((b, c), m) \<Longrightarrow>
    secret_step P s (s\<lparr>vars := (vars s)(x := b, y := c), mem := m\<rparr>)"
| Destroy: "secret_step P s (s\<lparr>vars := (vars s)(x := None), mem := destroy_secret P (vars s x) (mem s)\<rparr>)"
| Watch: "secret_step P s (s\<lparr>mem := set_lifecycle_observer ob (mem s)\<rparr>)"

inductive secret_steps :: "'o platform \<Rightarrow> 'o secrets \<Rightarrow> 'o secrets \<Rightarrow> bool" for P where
  Start: "secret_steps P s s"
| Step: "secret_steps P s s' \<Longrightarrow> secret_step P s' s'' \<Longrightarrow> secret_steps P s s''"

section \<open>What the operations do to the memory\<close>

lemma observe_if_simps [simp]:
  "blocks (observe_if h n m) = blocks m" "pinned (observe_if h n m) = pinned m"
  "released (observe_if h n m) = released m" "os (observe_if h n m) = os m"
  by (simp_all add: observe_if_def split: option.splits)

text \<open>What a live buffer owns.\<close>

definition owns :: "'o memory \<Rightarrow> secret_impl \<Rightarrow> bool" where
  "owns m si \<longleftrightarrow>
     (case vec_data (si_data si) of
        None \<Rightarrow> vec_size (si_data si) = 0 \<and> \<not> si_locked si
      | Some a \<Rightarrow> \<exists>b. blocks m a = Some b \<and> secret_size b = vec_size (si_data si) \<and>
          vec_size (si_data si) \<le> length (block_bytes b) \<and> (a \<in> pinned m \<longleftrightarrow> si_locked si) \<and>
          (si_locked si \<longrightarrow> 0 < vec_size (si_data si)))"

definition wiped :: "block \<Rightarrow> bool" where
  "wiped b \<longleftrightarrow> take (secret_size b) (block_bytes b) = replicate (secret_size b) 0"

lemma destroy_impl_effect:
  assumes "cleanse_documented P" and "owns m si" and "vec_data (si_data si) = Some a"
  shows "blocks (destroy_impl P si m) = (blocks m)(a := None)"
    and "pinned (destroy_impl P si m) = pinned m - {a}"
    and "\<exists>b. released (destroy_impl P si m) = released m @ [b] \<and> wiped b"
  using assms
  by (auto simp: destroy_impl_def impl_clear_def release_vector_def unlock_memory_def cleanse_def
      owns_def wiped_def cleanse_documented_def Let_def split: option.splits)

lemma destroy_impl_null:
  "owns m si \<Longrightarrow> vec_data (si_data si) = None \<Longrightarrow> destroy_impl P si m = m"
  by (simp add: destroy_impl_def impl_clear_def release_vector_def owns_def)

lemma new_secret_buffer_effect:
  assumes "new_secret_buffer P v m = (b, m')"
  shows "\<exists>si. b = Some si \<and> si_data si = v \<and> blocks m' = blocks m \<and> released m' = released m \<and>
    (case vec_data v of
       None \<Rightarrow> \<not> si_locked si \<and> pinned m' = pinned m
     | Some a \<Rightarrow> (si_locked si \<longrightarrow> 0 < vec_size v) \<and>
         pinned m' = (if si_locked si then insert a (pinned m) else pinned m))"
  using assms
  by (auto simp: new_secret_buffer_def new_impl_def lock_memory_def Let_def
      split: prod.splits option.splits if_splits)

lemma owns_cong:
  "owns m si \<Longrightarrow> (\<And>a. vec_data (si_data si) = Some a \<Longrightarrow>
     blocks m' a = blocks m a \<and> (a \<in> pinned m' \<longleftrightarrow> a \<in> pinned m)) \<Longrightarrow> owns m' si"
  by (auto simp: owns_def split: option.splits)

section \<open>The invariant of every program\<close>

definition address_of :: "secret_buffer \<Rightarrow> nat option" where
  "address_of s = (case s of None \<Rightarrow> None | Some si \<Rightarrow> vec_data (si_data si))"

definition secrets_inv :: "'o secrets \<Rightarrow> bool" where
  "secrets_inv s \<longleftrightarrow>
     (\<forall>x si. vars s x = Some si \<longrightarrow> owns (mem s) si) \<and>
     (\<forall>x y a. address_of (vars s x) = Some a \<longrightarrow> address_of (vars s y) = Some a \<longrightarrow> x = y) \<and>
     (\<forall>a \<in> pinned (mem s). \<exists>x. address_of (vars s x) = Some a) \<and>
     (\<forall>b \<in> set (released (mem s)). wiped b)"

lemma secrets_invI [wf_intros]:
  "(\<And>x si. vars s x = Some si \<Longrightarrow> owns (mem s) si) \<Longrightarrow>
   (\<And>x y a. address_of (vars s x) = Some a \<Longrightarrow> address_of (vars s y) = Some a \<Longrightarrow> x = y) \<Longrightarrow>
   (\<And>a. a \<in> pinned (mem s) \<Longrightarrow> \<exists>x. address_of (vars s x) = Some a) \<Longrightarrow>
   (\<And>b. b \<in> set (released (mem s)) \<Longrightarrow> wiped b) \<Longrightarrow> secrets_inv s"
  by (auto simp: secrets_inv_def)

lemma secrets_invD:
  assumes "secrets_inv s"
  shows "vars s x = Some si \<Longrightarrow> owns (mem s) si"
    and "address_of (vars s x) = Some a \<Longrightarrow> address_of (vars s y) = Some a \<Longrightarrow> x = y"
    and "a \<in> pinned (mem s) \<Longrightarrow> \<exists>x. address_of (vars s x) = Some a"
    and "b \<in> set (released (mem s)) \<Longrightarrow> wiped b"
  using assms by (auto simp: secrets_inv_def)

lemma secrets_inv_cong:
  assumes "secrets_inv s" and "mem s' = mem s" and "\<forall>y. address_of (vars s' y) = address_of (vars s y)"
    and "\<forall>y sj. vars s' y = Some sj \<longrightarrow> owns (mem s) sj"
  shows "secrets_inv s'"
  using assms by (simp add: secrets_inv_def)

lemma owned_block:
  "secrets_inv s \<Longrightarrow> address_of (vars s x) = Some a \<Longrightarrow> blocks (mem s) a \<noteq> None"
  using secrets_invD(1) [of s x] by (auto simp: address_of_def owns_def split: option.splits)

lemma inv_destroy:
  assumes P: "cleanse_documented P" and inv: "secrets_inv s"
  shows "secrets_inv (s\<lparr>vars := (vars s)(x := None), mem := destroy_secret P (vars s x) (mem s)\<rparr>)"
proof (cases "address_of (vars s x)")
  case None
  then have "destroy_secret P (vars s x) (mem s) = mem s"
    using secrets_invD(1) [OF inv, of x]
    by (auto simp: destroy_secret_def address_of_def destroy_impl_null split: option.splits)
  with None secrets_invD(1) [OF inv] show ?thesis
    by (intro secrets_inv_cong [OF inv]) (auto simp: address_of_def split: if_splits)
next
  case (Some a)
  then obtain si where x: "vars s x = Some si" and a: "vec_data (si_data si) = Some a"
    by (auto simp: address_of_def split: option.splits)
  note own = secrets_invD(1) [OF inv x]
  have other: "vec_data (si_data sj) \<noteq> Some a" if "vars s y = Some sj" "y \<noteq> x" for y sj
    using secrets_invD(2) [OF inv Some, of y] that by (auto simp: address_of_def)
  note eff = destroy_impl_effect [OF P own a]
  have destroy: "destroy_secret P (vars s x) (mem s) = destroy_impl P si (mem s)"
    by (simp add: destroy_secret_def x)
  show ?thesis
  proof (rule secrets_invI; unfold destroy)
    fix y sj
    assume "vars (s\<lparr>vars := (vars s)(x := None), mem := destroy_impl P si (mem s)\<rparr>) y = Some sj"
    then have y: "vars s y = Some sj" "y \<noteq> x" by (auto split: if_splits)
    show "owns (mem (s\<lparr>vars := (vars s)(x := None), mem := destroy_impl P si (mem s)\<rparr>)) sj"
      by (rule owns_cong [OF secrets_invD(1) [OF inv y(1)]]) (use other [OF y] eff in auto)
  next
    fix y z b
    assume "address_of (vars (s\<lparr>vars := (vars s)(x := None), mem := destroy_impl P si (mem s)\<rparr>) y) = Some b"
      "address_of (vars (s\<lparr>vars := (vars s)(x := None), mem := destroy_impl P si (mem s)\<rparr>) z) = Some b"
    then show "y = z" using secrets_invD(2) [OF inv, of y b z]
      by (auto simp: address_of_def split: if_splits)
  next
    fix b assume "b \<in> pinned (mem (s\<lparr>vars := (vars s)(x := None), mem := destroy_impl P si (mem s)\<rparr>))"
    then have b: "b \<in> pinned (mem s)" "b \<noteq> a" by (auto simp: eff)
    then obtain y where "address_of (vars s y) = Some b" using secrets_invD(3) [OF inv] by blast
    with b Some show "\<exists>y. address_of (vars (s\<lparr>vars := (vars s)(x := None), mem := destroy_impl P si (mem s)\<rparr>) y) = Some b"
      by (intro exI [of _ y]) auto
  next
    fix b assume "b \<in> set (released (mem (s\<lparr>vars := (vars s)(x := None), mem := destroy_impl P si (mem s)\<rparr>)))"
    with eff(3) secrets_invD(4) [OF inv] show "wiped b" by auto
  qed
qed

lemma inv_rename:
  assumes inv: "secrets_inv s" and "x \<noteq> y" and "vars s x = None"
  shows "secrets_inv (s\<lparr>vars := (vars s)(x := vars s y, y := None)\<rparr>)"
proof (rule secrets_invI)
  fix z si
  assume "vars (s\<lparr>vars := (vars s)(x := vars s y, y := None)\<rparr>) z = Some si"
  then show "owns (mem (s\<lparr>vars := (vars s)(x := vars s y, y := None)\<rparr>)) si"
    using secrets_invD(1) [OF inv] by (auto split: if_splits)
next
  fix z w a
  assume "address_of (vars (s\<lparr>vars := (vars s)(x := vars s y, y := None)\<rparr>) z) = Some a"
    "address_of (vars (s\<lparr>vars := (vars s)(x := vars s y, y := None)\<rparr>) w) = Some a"
  then show "z = w"
    using secrets_invD(2) [OF inv, of z a w] secrets_invD(2) [OF inv, of y a w] secrets_invD(2) [OF inv, of z a y]
    by (auto simp: address_of_def split: if_splits)
next
  fix a assume "a \<in> pinned (mem (s\<lparr>vars := (vars s)(x := vars s y, y := None)\<rparr>))"
  then obtain z where z: "address_of (vars s z) = Some a" using secrets_invD(3) [OF inv] by auto
  then have "z \<noteq> x" using assms(3) by (auto simp: address_of_def)
  with z assms(2) show "\<exists>w. address_of (vars (s\<lparr>vars := (vars s)(x := vars s y, y := None)\<rparr>) w) = Some a"
    by (intro exI [of _ "if z = y then x else z"]) auto
next
  fix b assume "b \<in> set (released (mem (s\<lparr>vars := (vars s)(x := vars s y, y := None)\<rparr>)))"
  then show "wiped b" using secrets_invD(4) [OF inv] by simp
qed

lemma inv_build:
  assumes inv: "secrets_inv s" and x: "vars s x = None" and a: "blocks (mem s) a = None"
    and n: "n \<le> length bs"
    and new: "new_secret_buffer P \<lparr>vec_data = Some a, vec_size = n\<rparr>
      ((mem s)\<lparr>blocks := (blocks (mem s))(a \<mapsto> \<lparr>block_bytes = bs, secret_size = n\<rparr>)\<rparr>) = (b, m)"
  shows "secrets_inv (s\<lparr>vars := (vars s)(x := b), mem := m\<rparr>)"
proof -
  obtain si where b: "b = Some si" "si_data si = \<lparr>vec_data = Some a, vec_size = n\<rparr>"
    and m: "blocks m = (blocks (mem s))(a \<mapsto> \<lparr>block_bytes = bs, secret_size = n\<rparr>)"
      "released m = released (mem s)" "si_locked si \<longrightarrow> 0 < n"
      "pinned m = (if si_locked si then insert a (pinned (mem s)) else pinned (mem s))"
    using new_secret_buffer_effect [OF new] by auto
  have free: "address_of (vars s y) \<noteq> Some a" for y
    using owned_block [OF inv, of y a] a by auto
  then have unpinned: "a \<notin> pinned (mem s)" using secrets_invD(3) [OF inv] by blast
  show ?thesis
  proof (rule secrets_invI)
    fix y sj
    assume y: "vars (s\<lparr>vars := (vars s)(x := b), mem := m\<rparr>) y = Some sj"
    show "owns (mem (s\<lparr>vars := (vars s)(x := b), mem := m\<rparr>)) sj"
    proof (cases "y = x")
      case True
      with y b m n unpinned show ?thesis by (auto simp: owns_def split: if_splits)
    next
      case False
      with y have y': "vars s y = Some sj" by simp
      then have "vec_data (si_data sj) \<noteq> Some a" using free [of y] by (simp add: address_of_def)
      then show ?thesis
        by (intro owns_cong [OF secrets_invD(1) [OF inv y']]) (auto simp: m)
    qed
  next
    fix y z c
    assume "address_of (vars (s\<lparr>vars := (vars s)(x := b), mem := m\<rparr>) y) = Some c"
      "address_of (vars (s\<lparr>vars := (vars s)(x := b), mem := m\<rparr>) z) = Some c"
    then show "y = z" using secrets_invD(2) [OF inv, of y c z] free b
      by (auto simp: address_of_def split: if_splits)
  next
    fix c assume "c \<in> pinned (mem (s\<lparr>vars := (vars s)(x := b), mem := m\<rparr>))"
    then consider "c = a" | "c \<in> pinned (mem s)" by (auto simp: m split: if_splits)
    then show "\<exists>y. address_of (vars (s\<lparr>vars := (vars s)(x := b), mem := m\<rparr>) y) = Some c"
    proof cases
      case 1
      then show ?thesis by (intro exI [of _ x]) (simp add: b address_of_def)
    next
      case 2
      then obtain y where "address_of (vars s y) = Some c" using secrets_invD(3) [OF inv] by blast
      moreover from this have "y \<noteq> x" using x by (auto simp: address_of_def)
      ultimately show ?thesis by (intro exI [of _ y]) simp
    qed
  next
    fix c assume "c \<in> set (released (mem (s\<lparr>vars := (vars s)(x := b), mem := m\<rparr>)))"
    then show "wiped c" using secrets_invD(4) [OF inv] by (simp add: m)
  qed
qed

lemma inv_build_null:
  assumes inv: "secrets_inv s" and x: "vars s x = None"
    and new: "new_secret_buffer P \<lparr>vec_data = None, vec_size = 0\<rparr> (mem s) = (b, m)"
  shows "secrets_inv (s\<lparr>vars := (vars s)(x := b), mem := m\<rparr>)"
proof -
  have m: "m = mem s" and b: "b = Some \<lparr>si_data = \<lparr>vec_data = None, vec_size = 0\<rparr>, si_locked = False\<rparr>"
    using new by (auto simp: new_secret_buffer_def new_impl_def lock_memory_def)
  show ?thesis
    using x secrets_invD(1) [OF inv]
    by (intro secrets_inv_cong [OF inv]) (auto simp: m b owns_def address_of_def split: if_splits)
qed

lemma secret_step_inv:
  assumes "cleanse_documented P"
  shows "secret_step P s s' \<Longrightarrow> secrets_inv s \<Longrightarrow> secrets_inv s'"
proof (induction rule: secret_step.induct)
  case (Build s x a n bs b m)
  then show ?case by (intro inv_build)
next
  case (Build_null s x b m)
  then show ?case by (intro inv_build_null)
next
  case (Move x y s b c)
  then show ?case using inv_rename [of s x y] by (simp add: move_construct_def)
next
  case (Assign x y s b c m)
  then have eq: "b = vars s y" "c = None" "m = destroy_secret P (vars s x) (mem s)"
    by (auto simp: move_assign_def)
  have "s\<lparr>mem := M, vars := V\<rparr> = s\<lparr>vars := V, mem := M\<rparr>" for M V
    by (cases s) simp
  with inv_rename [OF inv_destroy [OF assms Assign.prems, of x], of x y] Assign.hyps
  show ?case by (simp add: eq fun_upd_twist)
next
  case (Destroy s x)
  then show ?case using inv_destroy [OF assms] by blast
next
  case (Watch s ob)
  then show ?case
    by (intro secrets_invI)
       (auto simp: set_lifecycle_observer_def intro: owns_cong [OF secrets_invD(1)] dest: secrets_invD)
qed

lemma secret_steps_inv:
  assumes "cleanse_documented P"
  shows "secret_steps P s s' \<Longrightarrow> secrets_inv s \<Longrightarrow> secrets_inv s'"
  by (induction rule: secret_steps.induct) (auto intro: secret_step_inv [OF assms])

definition no_secrets :: "'o \<Rightarrow> 'o secrets" where
  "no_secrets init = \<lparr>vars = \<lambda>_. None, mem = \<lparr>os = init, blocks = \<lambda>_. None, pinned = {}, released = [],
     active_observer = None, notices = []\<rparr>\<rparr>"

lemma no_secrets_inv: "secrets_inv (no_secrets init)"
  by (simp add: secrets_inv_def no_secrets_def address_of_def)

definition lab_platform :: "unit platform" where
  "lab_platform =
     \<lparr>plat_lock = \<lambda>a n st. (True, st), plat_unlock = \<lambda>a n st. st, plat_cleanse = map (\<lambda>_. 0)\<rparr>"

lemma lab_platform_cleanses [simp]: "cleanse_documented lab_platform"
  by (simp add: cleanse_documented_def lab_platform_def map_replicate_const)

section \<open>Properties\<close>

text \<open>
  C11: In every program that builds, moves, assigns and destroys secret buffers, in any order and
  with whatever the operating system answers to the lock requests, every block that went back to
  the allocator held zeros in place of all its secret bytes; and every page still pinned belongs to
  a buffer that is alive, so that nothing is left pinned when the last one is gone.
\<close>
theorem secrets_wiped_before_release:
  assumes "cleanse_documented P" and "secret_steps P (no_secrets init) s"
  shows "list_all wiped (released (mem s)) \<and> pinned (mem s) \<subseteq> {a. \<exists>x. address_of (vars s x) = Some a}"
  using secrets_invD(3,4) [OF secret_steps_inv [OF assms no_secrets_inv]] by (auto simp: list_all_iff)

definition lab_built :: "unit secrets" where
  "lab_built = (let m = mem (no_secrets ()); (b, m) = new_secret_buffer lab_platform
       \<lparr>vec_data = Some 4, vec_size = 2\<rparr>
       (m\<lparr>blocks := (blocks m)(4 \<mapsto> \<lparr>block_bytes = [7, 8, 9], secret_size = 2\<rparr>)\<rparr>)
     in (no_secrets ())\<lparr>vars := (vars (no_secrets ()))(1 := b), mem := m\<rparr>)"

definition lab_destroyed :: "unit secrets" where
  "lab_destroyed = lab_built\<lparr>vars := (vars lab_built)(1 := None),
     mem := destroy_secret lab_platform (vars lab_built 1) (mem lab_built)\<rparr>"

lemma lab_secret_steps: "secret_steps lab_platform (no_secrets ()) lab_destroyed"
proof -
  have "secret_step lab_platform (no_secrets ()) lab_built"
    unfolding lab_built_def Let_def split_beta
    by (rule secret_step.Build [of _ _ 4 2 "[7, 8, 9]"]) (simp_all add: no_secrets_def)
  moreover have "secret_step lab_platform lab_built lab_destroyed"
    unfolding lab_destroyed_def by (rule secret_step.Destroy)
  ultimately show ?thesis by (blast intro: secret_steps.intros)
qed

lemma secrets_wiped_before_release_witness:
  "list_all wiped (released (mem lab_destroyed)) \<and>
   pinned (mem lab_destroyed) \<subseteq> {a. \<exists>x. address_of (vars lab_destroyed x) = Some a}"
  by (rule secrets_wiped_before_release [OF lab_platform_cleanses lab_secret_steps])

text \<open>
  A buffer shows exactly the elements of the vector it was built from; a move hands them over
  and leaves the source empty; and the observer of a destruction is told, in this order, that the
  memory was unlocked (if it had been locked) and that its bytes are now zero.
\<close>
theorem secret_buffer_lifecycle:
  assumes "cleanse_documented P" and "blocks m a = Some \<lparr>block_bytes = bs, secret_size = n\<rparr>"
    and "0 < n" and "n \<le> length bs" and "active_observer m = Some \<lparr>has_on_cleanse = True, has_on_lock_attempt = True, has_on_unlock = True\<rparr>"
    and "new_secret_buffer P \<lparr>vec_data = Some a, vec_size = n\<rparr> m = (b, m')"
  shows "secret_view m' b = take n bs \<and> secret_length b = n \<and> \<not> secret_is_empty b \<and>
    secret_view m' (fst (move_construct b)) = take n bs \<and> secret_is_empty (snd (move_construct b)) \<and>
    (\<exists>locked. notices m' = notices m @ [Lock_attempt n locked] \<and>
       notices (destroy_secret P b m') = notices m' @ (if locked then [Unlocked n] else []) @ [Cleansed (replicate n 0)])"
proof -
  obtain locked os' where lock: "plat_lock P a n (os m) = (locked, os')" by (metis prod.exhaust)
  let ?v = "\<lparr>vec_data = Some a, vec_size = n\<rparr>"
  have b: "b = Some \<lparr>si_data = ?v, si_locked = locked\<rparr>"
    and m': "m' = m\<lparr>os := os', pinned := (if locked then insert a (pinned m) else pinned m),
                  notices := notices m @ [Lock_attempt n locked]\<rparr>"
    using assms(3,5,6) lock
    by (simp_all add: new_secret_buffer_def new_impl_def lock_memory_def observe_if_def)
  have view: "secret_view m' b = take n bs" "secret_length b = n" "\<not> secret_is_empty b"
    using assms(2,3) by (simp_all add: b m' secret_view_def vec_bytes_def secret_length_def secret_is_empty_def)
  moreover have "notices (destroy_secret P b m') =
      notices m' @ (if locked then [Unlocked n] else []) @ [Cleansed (replicate n 0)]"
    using assms(1-5)
    by (cases locked) (simp_all add: b m' destroy_secret_def destroy_impl_def impl_clear_def
        unlock_memory_def cleanse_def release_vector_def observe_if_def cleanse_documented_def
        min_absorb1)
  ultimately show ?thesis by (auto simp: m' move_construct_def secret_is_empty_def)
qed

definition lab_memory :: "unit memory" where
  "lab_memory = \<lparr>os = (), blocks = [4 \<mapsto> \<lparr>block_bytes = [7, 8, 9], secret_size = 2\<rparr>], pinned = {},
     released = [], active_observer = Some \<lparr>has_on_cleanse = True, has_on_lock_attempt = True,
     has_on_unlock = True\<rparr>, notices = []\<rparr>"

lemma secret_buffer_lifecycle_witness:
  "let (b, m') = new_secret_buffer lab_platform \<lparr>vec_data = Some 4, vec_size = 2\<rparr> lab_memory in
   secret_view m' b = take 2 [7, 8, 9] \<and> secret_length b = 2 \<and> \<not> secret_is_empty b \<and>
    secret_view m' (fst (move_construct b)) = take 2 [7, 8, 9] \<and> secret_is_empty (snd (move_construct b)) \<and>
    (\<exists>locked. notices m' = notices lab_memory @ [Lock_attempt 2 locked] \<and>
       notices (destroy_secret lab_platform b m') = notices m' @ (if locked then [Unlocked 2] else []) @ [Cleansed (replicate 2 0)])"
  unfolding Let_def split_beta
  by (rule secret_buffer_lifecycle [OF lab_platform_cleanses, where a = 4]) (simp_all add: lab_memory_def prod_eq_iff)

end
