(* ===== verification/Spec2Isabelle.thy ===== *)
theory Spec2Isabelle
  imports Counting_Loops Partial_Read Process_Log Shared_Loggers Pcr_Registers Stdio_Logger Spdlog_Logger Fake_Tcti Fake_Tpm_Context Secret_Buffer Examples
begin

text \<open>
  tpmkit is a C++17 library that gives applications typed access to the platform configuration
  registers (PCRs) of a TPM 2.0, on top of the ESYS layer of the TPM2 Software Stack. This development
  translates its sources into definitions and proves what its components promise. File names are
  relative to the root of the repository.

  How the program is put together. An application creates a \<^verbatim>\<open>tpm_context\<close> from a TCTI configuration
  string or from a TCTI handle it owns. The creation loads the TCTI, initializes an ESYS context on it
  and starts the TPM. The context hands out a PCR provider, which checks its arguments, marshals them
  into the structures of the TSS, calls ESYS through a table of function pointers, translates return
  codes into four error categories, writes one log record per outcome and tells an observer of each
  successful measurement. Loggers, observers and providers are abstract ports with several adapters,
  test doubles among them; the example programs are clients of the whole.

  The theories, in the order they build on one another, with the code they model:

  \<^item> Prelude, Result: fixed-width integers, the ends of a C++ call (a value, an expected error, an
    exception, an undefined access), text; \<^verbatim>\<open>include/tpmkit/exception.h\<close>, \<^verbatim>\<open>result.h\<close>.
  \<^item> Hash_Algorithm, Pcr_Values, Hex: the domain values and the hexadecimal text of
    \<^verbatim>\<open>src/domain\<close>. The constructors are functions to a sum with the exception thrown.
  \<^item> Secret_Buffer: \<^verbatim>\<open>src/domain/secret_buffer.cpp\<close> over an explicit memory with pinned blocks; its
    life as a step relation with an invariant on all reachable memories.
  \<^item> Logger, Escape_Value, Log_Line, Stdio_Logger, Spdlog_Logger: the logging port (locales
    \<open>logger_port\<close> and \<open>threshold_logger_port\<close>), the text of a record with a reader for it, and the
    four adapters as interpretations (\<^verbatim>\<open>noop_logger.h\<close>, \<^verbatim>\<open>src/adapters/mock/recording_logger.cpp\<close>,
    \<^verbatim>\<open>src/adapters/logging\<close>).
  \<^item> Locked_Section, Shared_Loggers: threads that share an object behind a mutex, in the small steps of
    their calls (locale \<open>locked_section\<close>), and the stdio, recording and spdlog loggers shared that way.
  \<^item> Tss_Types, Log_Events, Error_Translation: the structures and constants of the TSS headers as a
    record of parameters with the documented values as an instance, the event vocabulary, and
    \<^verbatim>\<open>src/adapters/tpm2_esys/support/error_translation.cpp\<close>.
  \<^item> Esys_Api: the function table of \<^verbatim>\<open>support/esys_api.cpp\<close>; the world of the adapter, which is the
    library's state and the list of the visible actions so far (log records, library calls, buffers
    handed back, notifications), and the early returns over it.
  \<^item> Pcr_Marshalling, Pcr_Validation, Pcr_Logging, Pcr_Provider_Port, Esys_Pcr_Provider: the provider
    of \<^verbatim>\<open>src/adapters/tpm2_esys/pcr\<close>. The port is the locale \<open>provider_port\<close>; the ESYS provider and
    the mock of Mock_Pcr interpret it.
  \<^item> Pcr_Registers: the registers of a TPM as the TCG documents them on the wire, an abstract machine of
    banks and registers with the requests as its steps, the refinement of that machine by the ESYS
    provider, and a small software TPM as an instance of the documented behaviour.
  \<^item> Tcti_Loader, Tpm_Context: \<^verbatim>\<open>src/adapters/tpm2_esys/context\<close>; owners are values, and the ends of
    their scopes are explicit calls of their deleters in the order C++ destroys them.
  \<^item> Handle_Protocol: the order in which handles of the loader, of the allocator and of ESYS may be used, as
    a transition system over the visible actions; creation and teardown keep it.
  \<^item> Audit_Log: the table of \<^verbatim>\<open>support/log_events.h\<close> and the records that follow it; the locale
    \<open>trace_view\<close> holds what the creation of a context leaves unchanged.
  \<^item> Mock_Pcr, Fake_Tcti, Fake_Tpm_Context: the test doubles of \<^verbatim>\<open>src/adapters/mock\<close>. The fake TCTI is
    a state machine with a concurrent step relation whose atomic steps are its critical sections.
  \<^item> Pcr_Client, Pcr_Session, Provider_Session, Examples: the programs of \<^verbatim>\<open>examples/\<close>. Their work on a
    provider is written over any implementation of the port and proved in the locale
    \<open>provider_session\<close>, which the ESYS provider and the mock interpret; Examples adds \<^verbatim>\<open>main\<close>,
    Partial_Read shows how much \<^verbatim>\<open>read_all_sha256.cpp\<close> prints, and Process_Log what a run leaves in a
    log file.
  \<^item> Counting_Loops: the loops of \<^verbatim>\<open>hex.cpp\<close>, \<^verbatim>\<open>index.cpp\<close>, \<^verbatim>\<open>tcti_loader.cpp\<close> and \<^verbatim>\<open>pcr_marshalling.cpp\<close>
    with their counters at the width of the C++ types, as \<open>while_option\<close>, and their agreement with the
    structural recursions of the other theories.
  \<^item> This theory: properties that span components, the measurement log and its replay to the registers.

  What the lemmas show. For every provider operation: it never throws, leaves an array or follows a null
  pointer, whatever the library answers; its arguments alone decide whether the TPM is asked; its
  errors, records, notifications and the buffers it hands back are exact. Over a documented TPM, any
  sequence of requests is a run of the abstract register machine with the same answers, and the records
  the in-memory observer kept recompute the registers. For contexts: nothing leaks on any path of
  creation, teardown closes in order, no TCTI argument reaches the log, and over whole programs every
  handle is used only between its creation and its end, in the order of the protocol. For secrets: no
  storage is released before it is wiped, and no outcome depends on their bytes. For text and wire
  formats: round trips (hexadecimal, escaping, log lines, selections, digest lists). For the error
  translation: exactly which codes become security failures. For the fake TCTI: a script is delivered
  response by response, under every interleaving. For threads that share a logger: every interleaving
  has the effect of whole calls, one after the other, so the streams get whole lines, and every run ends
  with all calls made. For the loops: each returns at machine width, with the result of its recursion.
  For the programs: each ends with an exit code and leaves nothing open, except those that probe all
  banks in a build without SHA-1; the one that reads all registers prints at most eight; and what any of
  them logs reads back, line by line, as listed events in the vocabulary.

  Parameters. Code outside \<^verbatim>\<open>src/\<close> and \<^verbatim>\<open>include/\<close> is an argument: the ESYS and TCTI loader functions, the
  constants and array sizes of the TSS headers, the allocator, \<^verbatim>\<open>mlock\<close> and \<^verbatim>\<open>OPENSSL_cleanse\<close>, the
  clock, \<^verbatim>\<open>gmtime_r\<close>, the environment and \<^verbatim>\<open>isatty\<close>, spdlog, \<^verbatim>\<open>std::hash\<close>, the size limits of the
  standard library, and the build option for SHA-1. What is assumed of them is named:
  \<open>sizes_documented\<close>, \<open>alg_ids_documented\<close>, \<open>rcs_documented\<close>, \<open>api_sized\<close>, \<open>init_null_on_failure\<close>,
  \<open>cleanse_documented\<close>, \<open>handles_documented\<close>, \<open>digest_lists_of_eight\<close>, and for the TPM behind ESYS
  \<open>family_documented\<close>, \<open>tpm_documented\<close> and \<open>tpm_reliable\<close>; \<open>tss_4_1\<close>, the \<open>lab\<close> instances and the
  software TPM \<open>soft_api\<close> satisfy them.

  Bounds and fuel. There is no fuel: every loop of the sources is bounded by a list or a counter and is
  a terminating recursion; the loops that step a counter are also stated with
  \<open>while_option\<close> on 64-bit, 32-bit and 8-bit counters, and return for every input a 64-bit
  machine can hold. \<^verbatim>\<open>size_t\<close> and pointers are 64 bits wide where a counter can
  wrap (call counters of the test doubles, buffer sizes of the TCTI) and natural numbers where a length
  is only compared or printed. Timestamps are exact from the epoch to the year 9999; before the epoch
  the lemma \<open>timestamp_before_epoch\<close> of Stdio_Logger shows what is written.

  Not modelled: exhaustion of memory (\<^verbatim>\<open>std::bad_alloc\<close>), at which loggers and
  observers drop the record; failures of the output streams; a \<^verbatim>\<open>munlock\<close> that
  fails (the code ignores it); the side effects of a response factory of
  the fake TCTI; data races outside the mutexes the sources take; the unwinding of an exception that
  leaves \<^verbatim>\<open>main\<close>; the tests under \<^verbatim>\<open>tests/\<close>, the build
  files and the export macros (\<^verbatim>\<open>api.h\<close> and its siblings), which hold no logic
  of the program.
\<close>

section \<open>The measurement log, end to end\<close>

text \<open>
  With the in-memory observer attached to the ESYS provider, the entries it holds after any
  sequence of requests are exactly the records of the successful measurements, in order, and its
  lookup by index returns exactly those of one register, in order.
\<close>
theorem evidence_log_exact:
  assumes "esys_provider_valid s" and "provider_has_observer (ep_provider s)"
    and "list_all (wf_request legacy) qs" and "notifications (actions (ep_world s)) = []"
  shows "let (rs, s') = run_requests (esys_provider_step legacy) s qs;
             ob = foldl observer_hear \<lparr>pmr_records = []\<rparr> (notifications (actions (ep_world s')))
         in observer_entries ob = map measurement_record (measurements qs rs) \<and>
            observer_entries_by_index ob i =
              filter (\<lambda>r. pmr_index r = i) (map measurement_record (measurements qs rs))"
proof -
  let ?run = "run_requests (esys_provider_step legacy) s qs"
  let ?ns = "notifications (actions (ep_world (snd ?run)))"
  have "?ns = measurements qs (fst ?run)"
    using esys.run_heard [OF assms(1,3)] assms(2,4) by simp
  moreover have "observer_entries (foldl observer_hear \<lparr>pmr_records = []\<rparr> ?ns) = map measurement_record ?ns"
    using observer_hear_all [of "\<lparr>pmr_records = []\<rparr>" ?ns] by (simp add: observer_entries_def)
  ultimately show ?thesis
    by (simp add: Let_def split_beta observer_entries_by_index_def observer_entries_def)
qed

lemma evidence_log_exact_witness:
  "let (rs, s') = run_requests (esys_provider_step False) lab_state [Extend (Index 3) [lab_digest], Event (Index 4) [1]];
       ob = foldl observer_hear \<lparr>pmr_records = []\<rparr> (notifications (actions (ep_world s')))
   in observer_entries ob =
        map measurement_record (measurements [Extend (Index 3) [lab_digest], Event (Index 4) [1]] rs) \<and>
      observer_entries_by_index ob (Index 3) =
        filter (\<lambda>r. pmr_index r = Index 3)
          (map measurement_record (measurements [Extend (Index 3) [lab_digest], Event (Index 4) [1]] rs))"
  by (rule evidence_log_exact)
     (simp_all add: wf_index_unat lab_digest_def wf_digest_value_def)

text \<open>
  The content of a register that the records kept for it give, starting from \<open>old\<close>.
\<close>

definition replay_records ::
  "hasher \<Rightarrow> hash_algorithm \<Rightarrow> pcr_measurement_record list \<Rightarrow> byte list option \<Rightarrow> byte list option" where
  "replay_records h a rs old = replay h a (map pmr_digests rs) old"

lemma records_entries:
  "map pmr_digests (filter (\<lambda>r. pmr_index r = i) (map measurement_record ns)) = entries_of i ns"
proof -
  have "pmr_index (measurement_record n) = measured_index n" "pmr_digests (measurement_record n) = measured_digests n" for n
    by (cases n; simp add: make_extend_record_def make_event_record_def)+
  then show ?thesis by (simp add: entries_of_def filter_map comp_def)
qed

text \<open>
  C3: The evidence the observer keeps is enough to recompute the TPM. Over a documented and reliable
  TPM, after any sequence of requests that does not reset a register, folding the records that
  \<^verbatim>\<open>entries_by_index\<close> returns for that register over its first content, with the hash of the bank,
  gives its content at the end, in every bank.
\<close>
theorem evidence_log_replays:
  assumes "provider_documented F regs s" and "provider_has_observer (ep_provider s)"
    and "tpm_reliable (ep_tss s) regs (ep_api s)" and "list_all (wf_request legacy) qs"
    and "notifications (actions (ep_world s)) = []" and "Reset i \<notin> set qs"
  shows "let s' = snd (run_requests (esys_provider_step legacy) s qs);
             ob = foldl observer_hear \<lparr>pmr_records = []\<rparr> (notifications (actions (ep_world s')))
         in registers_of legacy regs s' a i =
            replay_records (domain_hasher legacy (ep_tss s) F) a (observer_entries_by_index ob i)
              (registers_of legacy regs s a i)"
proof -
  let ?run = "run_requests (esys_provider_step legacy) s qs"
  let ?ns = "notifications (actions (ep_world (snd ?run)))"
  have valid: "esys_provider_valid s" using assms(1) by (simp add: provider_documented_def)
  have ns: "?ns = measurements qs (fst ?run)"
    using esys.run_heard [OF valid assms(4)] assms(2,5) by simp
  have "pmr_records (foldl observer_hear \<lparr>pmr_records = []\<rparr> ?ns) = map measurement_record ?ns"
    using observer_hear_all [of "\<lparr>pmr_records = []\<rparr>" ?ns] by (simp add: observer_entries_def)
  then have "map pmr_digests (observer_entries_by_index (foldl observer_hear \<lparr>pmr_records = []\<rparr> ?ns) i) =
      entries_of i (measurements qs (fst ?run))"
    by (simp only: observer_entries_by_index_def index_eq_iff records_entries ns)
  with run_replays [OF run_refines [OF assms(1,4) disjI2 [OF assms(3)]] assms(6), of a] show ?thesis
    by (simp add: replay_records_def Let_def)
qed

lemma evidence_log_replays_witness:
  "let s' = snd (run_requests (esys_provider_step False) (soft_provider [0xb])
              [Extend (Index 16) [lab_digest], Event (Index 16) [1, 2], Reset (Index 3)]);
       ob = foldl observer_hear \<lparr>pmr_records = []\<rparr> (notifications (actions (ep_world s')))
   in registers_of False (soft_regs [0xb]) s' sha256 (Index 16) =
      replay_records (domain_hasher False (ep_tss (soft_provider [0xb])) soft_family) sha256
        (observer_entries_by_index ob (Index 16))
        (registers_of False (soft_regs [0xb]) (soft_provider [0xb]) sha256 (Index 16))"
  by (rule evidence_log_replays)
     (simp_all add: soft_provider_documented soft_tpm_reliable wf_index_unat lab_digest_def wf_digest_value_def)

end
